(* ===== verification/Prelude.thy ===== *)
theory Prelude
  imports Main "HOL-Library.Word" "HOL-Library.Sublist"
begin

text \<open>
  What the components share: the machine integers of the Rust source, its outcome type
  (a \<open>Result\<close>, or a panic), stateful operations that return an outcome, and the
  string operations of the standard library the source calls.

  A Rust \<open>String\<close> is the list of its UTF-8 bytes, one \<^typ>\<open>char\<close> per byte; \<open>len()\<close>
  counts bytes, and prefix, suffix and substring tests on UTF-8 text are the byte tests.
\<close>

section \<open>Machine integers\<close>

type_synonym u16 = "16 word"
type_synonym u32 = "32 word"
type_synonym u64 = "64 word"

text \<open>Arithmetic on \<open>i64\<close> in a release build: two's complement wrap-around.\<close>

definition wrap_i64 :: "int \<Rightarrow> int" where
  "wrap_i64 x = sint (word_of_int x :: 64 word)"

text \<open>\<open>u32::saturating_sub\<close>, and \<open>i32::max(0) as u32\<close> on the bits of an \<open>i32\<close>.\<close>

definition saturating_sub_u32 :: "u32 \<Rightarrow> u32 \<Rightarrow> u32" where
  "saturating_sub_u32 a b = (if a < b then 0 else a - b)"

definition i32_max0 :: "32 word \<Rightarrow> u32" where
  "i32_max0 x = (if sint x < 0 then 0 else x)"

text \<open>Integer division of Rust truncates towards zero.\<close>

definition rust_div :: "int \<Rightarrow> int \<Rightarrow> int" where
  "rust_div x y = (if (x < 0) = (y < 0) then \<bar>x\<bar> div \<bar>y\<bar> else - (\<bar>x\<bar> div \<bar>y\<bar>))"

lemma unat_saturating_sub_u32: "unat (saturating_sub_u32 a b) = unat a - unat b"
  by (simp add: saturating_sub_u32_def word_less_nat_alt unat_sub_if')

lemma rust_div_pos: "0 \<le> a \<Longrightarrow> 0 < b \<Longrightarrow> rust_div a b = a div b"
  by (simp add: rust_div_def)

lemma rust_div_mono: "0 < b \<Longrightarrow> 0 \<le> a \<Longrightarrow> a \<le> c \<Longrightarrow> rust_div a b \<le> rust_div c b"
  by (simp add: rust_div_pos zdiv_mono1)

lemma unat_add_no_wrap:
  fixes a b :: "32 word"
  assumes "unat a + unat b < 2 ^ 32"
  shows "unat (a + b) = unat a + unat b"
  using assms by (simp add: unat_word_ariths)

section \<open>Strings\<close>

definition starts_with :: "string \<Rightarrow> string \<Rightarrow> bool" where
  "starts_with s p \<longleftrightarrow> prefix p s"

definition strip_prefix :: "string \<Rightarrow> string \<Rightarrow> string option" where
  "strip_prefix s p = (if prefix p s then Some (drop (length p) s) else None)"

definition strip_suffix_char :: "string \<Rightarrow> char \<Rightarrow> string option" where
  "strip_suffix_char s c = (if s \<noteq> [] \<and> last s = c then Some (butlast s) else None)"

definition contains :: "string \<Rightarrow> string \<Rightarrow> bool" where
  "contains s p \<longleftrightarrow> sublist p s"

definition trim_end_char :: "string \<Rightarrow> char \<Rightarrow> string" where
  "trim_end_char s c = rev (dropWhile (\<lambda>x. x = c) (rev s))"

definition ascii_lower_char :: "char \<Rightarrow> char" where
  "ascii_lower_char c =
     (let n = of_char c :: nat in if 65 \<le> n \<and> n \<le> 90 then char_of (n + 32) else c)"

definition ascii_lower :: "string \<Rightarrow> string" where
  "ascii_lower s = map ascii_lower_char s"

text \<open>\<open>Vec<String>::join\<close>.\<close>

fun join_with :: "string \<Rightarrow> string list \<Rightarrow> string" where
  "join_with sep [] = []"
| "join_with sep [x] = x"
| "join_with sep (x # y # ys) = x @ sep @ join_with sep (y # ys)"

text \<open>Decimal text of an unsigned and of a signed integer, as \<open>{}\<close> formats it.\<close>

fun nat_text :: "nat \<Rightarrow> string" where
  "nat_text n =
     (if n < 10 then [char_of (48 + n)] else nat_text (n div 10) @ [char_of (48 + n mod 10)])"

declare nat_text.simps [simp del]

definition u32_text :: "u32 \<Rightarrow> string" where
  "u32_text w = nat_text (unat w)"

definition int_text :: "int \<Rightarrow> string" where
  "int_text i = (if i < 0 then ''-'' @ nat_text (nat (- i)) else nat_text (nat i))"

lemma starts_with_append [simp]: "starts_with (p @ s) p"
  by (simp add: starts_with_def)

lemma starts_with_iff: "starts_with s p \<longleftrightarrow> (\<exists>t. s = p @ t)"
  by (auto simp: starts_with_def prefix_def)

lemma strip_prefix_Some_iff: "strip_prefix s p = Some t \<longleftrightarrow> s = p @ t"
  by (auto simp: strip_prefix_def prefix_def)

lemma strip_suffix_char_Some_iff: "strip_suffix_char s c = Some t \<longleftrightarrow> s = t @ [c]"
proof
  assume "strip_suffix_char s c = Some t"
  then have "s \<noteq> []" "last s = c" "t = butlast s"
    by (auto simp: strip_suffix_char_def split: if_splits)
  with append_butlast_last_id [of s] show "s = t @ [c]" by metis
qed (simp add: strip_suffix_char_def)

lemma strip_suffix_char_None_iff: "strip_suffix_char s c = None \<longleftrightarrow> (\<forall>t. s \<noteq> t @ [c])"
  using strip_suffix_char_Some_iff [of s c] by (cases "strip_suffix_char s c") auto

lemma contains_iff: "contains s p \<longleftrightarrow> (\<exists>a b. s = a @ p @ b)"
  by (auto simp: contains_def sublist_def)

lemma trim_end_char_last: "trim_end_char s c = [] \<or> last (trim_end_char s c) \<noteq> c"
proof (cases "dropWhile (\<lambda>x. x = c) (rev s) = []")
  case False
  then have "hd (dropWhile (\<lambda>x. x = c) (rev s)) \<noteq> c"
    by (rule hd_dropWhile)
  with False show ?thesis by (simp add: trim_end_char_def last_rev)
qed (simp add: trim_end_char_def)

lemma ascii_lower_length [simp]: "length (ascii_lower s) = length s"
  by (simp add: ascii_lower_def)

section \<open>Outcomes\<close>

text \<open>
  A fallible function returns \<open>Ok\<close> or \<open>Err\<close>; an \<open>unwrap()\<close> that fails is a panic, which
  unwinds the task and reaches no caller of the request path.
\<close>

datatype ('e, 'a) outcome = Ok 'a | Err 'e | Panic

definition bind_res :: "('e, 'a) outcome \<Rightarrow> ('a \<Rightarrow> ('e, 'b) outcome) \<Rightarrow> ('e, 'b) outcome" where
  "bind_res r k = (case r of Ok x \<Rightarrow> k x | Err e \<Rightarrow> Err e | Panic \<Rightarrow> Panic)"

definition ok_or :: "'a option \<Rightarrow> 'e \<Rightarrow> ('e, 'a) outcome" where
  "ok_or x e = (case x of Some a \<Rightarrow> Ok a | None \<Rightarrow> Err e)"

definition of_sum :: "('x \<Rightarrow> 'e) \<Rightarrow> 'x + 'a \<Rightarrow> ('e, 'a) outcome" where
  "of_sum f s = (case s of Inl x \<Rightarrow> Err (f x) | Inr a \<Rightarrow> Ok a)"

lemma bind_res_simps [simp]:
  "bind_res (Ok x) k = k x" "bind_res (Err e) k = Err e" "bind_res Panic k = Panic"
  by (simp_all add: bind_res_def)

lemma bind_res_Ok_iff: "bind_res r k = Ok y \<longleftrightarrow> (\<exists>x. r = Ok x \<and> k x = Ok y)"
  by (cases r) auto

lemma ok_or_simps [simp]: "ok_or (Some a) e = Ok a" "ok_or None e = Err e"
  by (simp_all add: ok_or_def)

lemma ok_or_Ok_iff: "ok_or x e = Ok a \<longleftrightarrow> x = Some a"
  by (cases x) auto

lemma of_sum_simps [simp]: "of_sum f (Inl x) = Err (f x)" "of_sum f (Inr a) = Ok a"
  by (simp_all add: of_sum_def)

lemma of_sum_Ok_iff: "of_sum f s = Ok a \<longleftrightarrow> s = Inr a"
  by (cases s) auto

end
