(* ===== verification/Effects.thy ===== *)
theory Effects
  imports Prelude
begin

text \<open>
  Stateful operations. An \<open>async fn ... -> Result<T, E>\<close> of the source is a function from
  the world it runs in to its outcome and the world it leaves; \<^verbatim>\<open>?\<close> is \<open>bind_io\<close>. The
  world is a type variable: it stands for the clock, the random source, Redis, Postgres and
  the upstream server, which the source only calls.
\<close>

type_synonym ('w, 'e, 'a) io = "'w \<Rightarrow> ('e, 'a) outcome \<times> 'w"

text \<open>A call of a client library: an error text or a value. An infallible call: a value.\<close>

type_synonym ('w, 'a) call = "'w \<Rightarrow> (string + 'a) \<times> 'w"
type_synonym ('w, 'a) read = "'w \<Rightarrow> 'a \<times> 'w"

definition ret :: "'a \<Rightarrow> ('w, 'e, 'a) io" where
  "ret x w = (Ok x, w)"

definition throw :: "'e \<Rightarrow> ('w, 'e, 'a) io" where
  "throw e w = (Err e, w)"

definition bind_io :: "('w, 'e, 'a) io \<Rightarrow> ('a \<Rightarrow> ('w, 'e, 'b) io) \<Rightarrow> ('w, 'e, 'b) io" where
  "bind_io m k w =
     (case m w of
        (Ok x, w') \<Rightarrow> k x w'
      | (Err e, w') \<Rightarrow> (Err e, w')
      | (Panic, w') \<Rightarrow> (Panic, w'))"

definition lift_res :: "('e, 'a) outcome \<Rightarrow> ('w, 'e, 'a) io" where
  "lift_res r w = (r, w)"

definition call_io :: "(string \<Rightarrow> 'e) \<Rightarrow> ('w, 'a) call \<Rightarrow> ('w, 'e, 'a) io" where
  "call_io f c w = (case c w of (r, w') \<Rightarrow> (of_sum f r, w'))"

definition read_io :: "('w, 'a) read \<Rightarrow> ('w, 'e, 'a) io" where
  "read_io c w = (case c w of (x, w') \<Rightarrow> (Ok x, w'))"

text \<open>\<open>.await.ok()\<close>: an error is dropped, a panic is not.\<close>

definition discard :: "('w, 'e, 'a) io \<Rightarrow> ('w, 'f, unit) io" where
  "discard m w =
     (case m w of (Panic, w') \<Rightarrow> (Panic, w') | (_, w') \<Rightarrow> (Ok (), w'))"

text \<open>\<open>.unwrap_or(d)\<close>: an error becomes the default, a panic stays one.\<close>

definition unwrap_or_io :: "('w, 'e, 'a) io \<Rightarrow> 'a \<Rightarrow> ('w, 'f, 'a) io" where
  "unwrap_or_io m d w =
     (case m w of (Ok x, w') \<Rightarrow> (Ok x, w') | (Err _, w') \<Rightarrow> (Ok d, w') | (Panic, w') \<Rightarrow> (Panic, w'))"

text \<open>\<open>if cond { return Err(e); }\<close>\<close>

definition guard_io :: "bool \<Rightarrow> 'e \<Rightarrow> ('w, 'e, unit) io" where
  "guard_io c e = (if c then throw e else ret ())"

named_theorems io_eval \<open>running an operation on a world\<close>
named_theorems io_Ok \<open>what a successful run went through\<close>
named_theorems io_within \<open>operations that move the world along a relation\<close>

section \<open>Running\<close>

lemmas io_run =
  ret_def throw_def bind_io_def lift_res_def call_io_def read_io_def discard_def guard_io_def unwrap_or_io_def

lemma ret_eval [io_eval]: "ret x w = (Ok x, w)"
  by (simp add: ret_def)

lemma throw_eval [io_eval]: "throw e w = (Err e, w)"
  by (simp add: throw_def)

lemma lift_res_eval [io_eval]: "lift_res r w = (r, w)"
  by (simp add: lift_res_def)

lemma bind_io_eval [io_eval]:
  "m w = (Ok x, w') \<Longrightarrow> bind_io m k w = k x w'"
  "m w = (Err e, w') \<Longrightarrow> bind_io m k w = (Err e, w')"
  "m w = (Panic, w') \<Longrightarrow> bind_io m k w = (Panic, w')"
  by (simp_all add: bind_io_def)

lemma bind_ret [simp]: "bind_io (ret x) k = k x"
  by (rule ext) (simp add: bind_io_def ret_def)

lemma bind_throw [simp]: "bind_io (throw e) k = throw e"
  by (rule ext) (simp add: bind_io_def throw_def)

lemma bind_lift_Ok [simp]: "bind_io (lift_res (Ok x)) k = k x"
  by (rule ext) (simp add: bind_io_def lift_res_def)

lemma bind_lift_Err [simp]: "bind_io (lift_res (Err e)) k = throw e"
  by (rule ext) (simp add: bind_io_def lift_res_def throw_def)

lemma bind_guard [simp]: "bind_io (guard_io c e) k = (if c then throw e else k ())"
  by (simp add: guard_io_def)

lemma bind_assoc: "bind_io (bind_io m k) l = bind_io m (\<lambda>x. bind_io (k x) l)"
  by (rule ext) (simp add: bind_io_def split: prod.splits outcome.splits)

section \<open>Successful runs\<close>

lemma ret_Ok_iff [io_Ok]: "ret x w = (Ok y, w') \<longleftrightarrow> x = y \<and> w = w'"
  by (simp add: ret_def)

lemma throw_Ok_iff [io_Ok]: "throw e w = (Ok y, w') \<longleftrightarrow> False"
  by (simp add: throw_def)

lemma lift_res_Ok_iff [io_Ok]: "lift_res r w = (Ok y, w') \<longleftrightarrow> r = Ok y \<and> w = w'"
  by (auto simp: lift_res_def)

lemma bind_io_Ok_iff [io_Ok]:
  "bind_io m k w = (Ok y, w') \<longleftrightarrow> (\<exists>x w1. m w = (Ok x, w1) \<and> k x w1 = (Ok y, w'))"
  by (auto simp: bind_io_def split: prod.splits outcome.splits)

lemma call_io_Ok_iff [io_Ok]: "call_io f c w = (Ok y, w') \<longleftrightarrow> c w = (Inr y, w')"
  by (auto simp: call_io_def of_sum_Ok_iff split: prod.splits)

lemma read_io_Ok_iff [io_Ok]: "read_io c w = (Ok y, w') \<longleftrightarrow> c w = (y, w')"
  by (auto simp: read_io_def split: prod.splits)

lemma discard_Ok_iff [io_Ok]:
  "discard m w = (Ok y, w') \<longleftrightarrow> (\<exists>r. m w = (r, w') \<and> r \<noteq> Panic)"
  by (auto simp: discard_def split: prod.splits outcome.splits)

lemma unwrap_or_io_Ok_iff [io_Ok]:
  "unwrap_or_io m d w = (Ok y, w') \<longleftrightarrow> m w = (Ok y, w') \<or> (\<exists>e. m w = (Err e, w') \<and> y = d)"
  by (auto simp: unwrap_or_io_def split: prod.splits outcome.splits)

lemma guard_io_Ok_iff [io_Ok]: "guard_io c e w = (Ok y, w') \<longleftrightarrow> \<not> c \<and> w = w'"
  by (auto simp: guard_io_def ret_def throw_def)

text \<open>Branching, under the same equation.\<close>

lemma case_option_Ok_iff:
  "(case x of None \<Rightarrow> n | Some a \<Rightarrow> s a) w = (Ok y, w') \<longleftrightarrow>
     (x = None \<and> n w = (Ok y, w')) \<or> (\<exists>a. x = Some a \<and> s a w = (Ok y, w'))"
  by (cases x) auto

lemma case_sum_Ok_iff:
  "(case x of Inl e \<Rightarrow> f e | Inr a \<Rightarrow> s a) w = (Ok y, w') \<longleftrightarrow>
     (\<exists>e. x = Inl e \<and> f e w = (Ok y, w')) \<or> (\<exists>a. x = Inr a \<and> s a w = (Ok y, w'))"
  by (cases x) auto

lemma if_Ok_iff:
  "(if c then m else n) w = (Ok y, w') \<longleftrightarrow>
     (c \<and> m w = (Ok y, w')) \<or> (\<not> c \<and> n w = (Ok y, w'))"
  by simp

lemmas io_cases = case_option_Ok_iff case_sum_Ok_iff if_Ok_iff

section \<open>Operations that move the world along a relation\<close>

text \<open>
  \<open>moves R m\<close>: whatever the outcome of \<open>m\<close>, the world it leaves is \<open>R\<close>-related to the
  one it started in. With a preorder \<open>R\<close> this is closed under sequencing, so a frame
  condition or an invariant of a handler follows from those of its calls.
\<close>

definition moves :: "('w \<Rightarrow> 'w \<Rightarrow> bool) \<Rightarrow> ('w \<Rightarrow> 'r \<times> 'w) \<Rightarrow> bool" where
  "moves R m \<longleftrightarrow> (\<forall>w. R w (snd (m w)))"

lemma withinI: "(\<And>w r w'. m w = (r, w') \<Longrightarrow> R w w') \<Longrightarrow> moves R m"
  by (metis prod.collapse moves_def)

lemma withinD: "moves R m \<Longrightarrow> m w = (r, w') \<Longrightarrow> R w w'"
  by (metis snd_conv moves_def)

lemma moves_weaken: "moves R m \<Longrightarrow> (\<And>w w'. R w w' \<Longrightarrow> Q w w') \<Longrightarrow> moves Q m"
  by (simp add: moves_def)

lemma within_bind [io_within]:
  assumes "transp R" "moves R m" "\<And>x. moves R (k x)"
  shows "moves R (bind_io m k)"
  unfolding moves_def
proof
  fix w
  obtain r w1 where m: "m w = (r, w1)" by (cases "m w")
  with assms(2) have "R w w1" by (rule withinD)
  moreover have "R w1 (snd (k x w1))" for x
    using assms(3) by (simp add: moves_def)
  ultimately show "R w (snd (bind_io m k w))"
    using m assms(1) by (auto simp: bind_io_def split: outcome.split dest: transpD)
qed

lemma within_pure [io_within]:
  assumes "reflp R"
  shows "moves R (ret x)" "moves R (throw e)" "moves R (lift_res r)" "moves R (guard_io c e)"
  using assms
  by (simp_all add: moves_def ret_def throw_def lift_res_def guard_io_def reflpD)

lemma within_call [io_within]: "moves R c \<Longrightarrow> moves R (call_io f c)"
  by (auto simp: moves_def call_io_def split: prod.splits) (metis snd_conv)

lemma within_read [io_within]: "moves R c \<Longrightarrow> moves R (read_io c)"
  by (auto simp: moves_def read_io_def split: prod.splits) (metis snd_conv)

lemma within_discard [io_within]: "moves R m \<Longrightarrow> moves R (discard m)"
  unfolding moves_def discard_def
  by (auto split: prod.splits outcome.splits) (metis snd_conv)+

lemma within_unwrap_or [io_within]: "moves R m \<Longrightarrow> moves R (unwrap_or_io m d)"
  unfolding moves_def unwrap_or_io_def
  by (auto split: prod.splits outcome.splits) (metis snd_conv)+

lemma within_if [io_within]:
  "(c \<Longrightarrow> moves R m) \<Longrightarrow> (\<not> c \<Longrightarrow> moves R n) \<Longrightarrow> moves R (if c then m else n)"
  by simp

text \<open>A sequence ends after its first part, or its second part runs.\<close>

lemma bind_io_runs:
  assumes "bind_io m k w = (r, w')"
  obtains (stopped) c where "m w = (c, w')" "\<And>x. c \<noteq> Ok x" | (continued) x w1 where "m w = (Ok x, w1)" "k x w1 = (r, w')"
  using assms by (cases "m w"; cases "fst (m w)") (auto simp: bind_io_def)

lemma within_bind_results:
  assumes "transp R" "moves R m" "\<And>w x w1. m w = (Ok x, w1) \<Longrightarrow> moves R (k x)"
  shows "moves R (bind_io m k)"
proof (rule withinI)
  fix w r w'
  assume "bind_io m k w = (r, w')"
  then show "R w w'"
  proof (cases rule: bind_io_runs)
    case (continued x w1)
    with assms(1) withinD [OF assms(2)] withinD [OF assms(3)] show ?thesis by (metis transpD)
  qed (rule withinD [OF assms(2)])
qed

section \<open>Operations that do not panic\<close>

named_theorems io_safe \<open>operations that do not panic\<close>

definition panic_free :: "('w, 'e, 'a) io \<Rightarrow> bool" where
  "panic_free m \<longleftrightarrow> (\<forall>w. fst (m w) \<noteq> Panic)"

lemma panic_freeD: "panic_free m \<Longrightarrow> m w \<noteq> (Panic, w')"
  by (metis fst_conv panic_free_def)

lemma panic_free_basic [io_safe]:
  "panic_free (ret x)" "panic_free (throw e)" "panic_free (call_io f c)" "panic_free (read_io d)"
  "panic_free (guard_io b e)"
  by (auto simp: panic_free_def io_run of_sum_def split: prod.splits sum.splits)

lemma panic_free_lift [io_safe]: "r \<noteq> Panic \<Longrightarrow> panic_free (lift_res r)"
  by (simp add: panic_free_def lift_res_def)

lemma panic_free_bind [io_safe]:
  "panic_free m \<Longrightarrow> (\<And>x. panic_free (k x)) \<Longrightarrow> panic_free (bind_io m k)"
  by (auto simp: panic_free_def bind_io_def split: prod.splits outcome.splits) (metis fst_conv)

lemma panic_free_wrapped [io_safe]:
  "panic_free m \<Longrightarrow> panic_free (discard m)" "panic_free m \<Longrightarrow> panic_free (unwrap_or_io m d)"
  by (auto simp: panic_free_def io_run split: prod.splits outcome.splits) (metis fst_conv)+

lemma panic_free_if [io_safe]:
  "(c \<Longrightarrow> panic_free m) \<Longrightarrow> (\<not> c \<Longrightarrow> panic_free n) \<Longrightarrow> panic_free (if c then m else n)"
  by simp

lemma discard_total: "panic_free m \<Longrightarrow> \<exists>w'. discard m w = (Ok (), w')"
  using panic_freeD [of m w] by (cases "m w") (auto simp: discard_def split: outcome.splits)

lemma ok_or_not_Panic [simp]: "ok_or x e \<noteq> Panic"
  by (cases x) auto

lemma of_sum_not_Panic [simp]: "of_sum f x \<noteq> Panic"
  by (cases x) auto

end
