(* ===== verification/Errors.thy ===== *)
theory Errors
  imports Effects
begin

text \<open>
  \<^verbatim>\<open>src/src/error.rs\<close>: the error type every fallible operation returns, its
  HTTP status code and its text (\<open>#[error(...)]\<close>, which thiserror turns into \<open>Display\<close>).
  The errors wrapped with \<open>#[from]\<close> carry the text the wrapped library displays.
\<close>

datatype proxy_error =
    AuthenticationFailed string
  | AuthorizationDenied string
  | InvalidSession string
  | RiskThresholdExceeded u32 u32
  | MfaRequired
  | InvalidMfaToken
  | RateLimitExceeded
  | DatabaseError string
  | RedisError string
  | HttpError string
  | IoError string
  | SerializationError string
  | JwtError string
  | InternalError

type_synonym 'a proxy_result = "(proxy_error, 'a) outcome"
type_synonym ('w, 'a) proxy_io = "('w, proxy_error, 'a) io"

fun status_code :: "proxy_error \<Rightarrow> u16" where
  "status_code (AuthenticationFailed _) = 401"
| "status_code (AuthorizationDenied _) = 403"
| "status_code (InvalidSession _) = 401"
| "status_code (RiskThresholdExceeded _ _) = 403"
| "status_code MfaRequired = 401"
| "status_code InvalidMfaToken = 401"
| "status_code RateLimitExceeded = 429"
| "status_code (DatabaseError _) = 500"
| "status_code (RedisError _) = 500"
| "status_code (HttpError _) = 502"
| "status_code (IoError _) = 500"
| "status_code (SerializationError _) = 500"
| "status_code (JwtError _) = 401"
| "status_code InternalError = 500"

fun error_text :: "proxy_error \<Rightarrow> string" where
  "error_text (AuthenticationFailed s) = ''Authentication failed: '' @ s"
| "error_text (AuthorizationDenied s) = ''Authorization denied: '' @ s"
| "error_text (InvalidSession s) = ''Invalid session: '' @ s"
| "error_text (RiskThresholdExceeded sc th) =
     ''Risk threshold exceeded: score '' @ u32_text sc @ '', threshold '' @ u32_text th"
| "error_text MfaRequired = ''MFA required''"
| "error_text InvalidMfaToken = ''Invalid MFA token''"
| "error_text RateLimitExceeded = ''Rate limit exceeded''"
| "error_text (DatabaseError s) = ''Database error: '' @ s"
| "error_text (RedisError s) = ''Redis error: '' @ s"
| "error_text (HttpError s) = ''HTTP error: '' @ s"
| "error_text (IoError s) = ''IO error: '' @ s"
| "error_text (SerializationError s) = ''Serialization error: '' @ s"
| "error_text (JwtError s) = ''JWT error: '' @ s"
| "error_text InternalError = ''Internal server error''"

text \<open>
  \<open>StatusCode::from_u16\<close> accepts 100 to 999. Every code above is an error code in that
  range, so the fallback of \<open>error_response\<close> is never taken.
\<close>

lemma status_code_cases:
  "status_code e = 401 \<or> status_code e = 403 \<or> status_code e = 429 \<or>
   status_code e = 500 \<or> status_code e = 502"
  by (cases e) simp_all

lemma status_code_range: "400 \<le> status_code e \<and> status_code e \<le> 599"
  using status_code_cases [of e] by (elim disjE) simp_all

end
