(* ===== verification/Config.thy ===== *)
theory Config
  imports Errors
begin

text \<open>
  \<^verbatim>\<open>src/src/config.rs\<close>: the configuration records, their defaults, and loading.
  \<open>std::env::var\<close> is a lookup \<open>env\<close>; the file system and the TOML parser (which applies
  the derived \<open>Deserialize\<close>) are parameters of \<open>load_config\<close>. \<open>to_lowercase\<close> is only
  compared with ASCII words, no letter of which has a lower-case preimage outside ASCII, so the
  ASCII mapping decides the comparison.
\<close>

record server_config =
  host :: string
  port :: u16
  tls_cert :: "string option"
  tls_key :: "string option"
  enable_tls :: bool

record database_config =
  database_url :: string
  max_connections :: u32

record redis_config =
  redis_url :: string

record auth_config =
  auth_session_duration_minutes :: int
  require_mfa :: bool
  allowed_mfa_methods :: "string list"
  jwt_secret :: string
  jwt_expiration_hours :: int

datatype passkey_store_kind = PostgresKind | MemoryKind

record webauthn_config =
  rp_id :: string
  rp_origin :: string
  rp_name :: string
  webauthn_enabled :: bool
  passkey_store :: passkey_store_kind

record risk_config =
  max_risk_score :: u32
  cfg_step_up_threshold :: u32
  cfg_block_threshold :: u32
  enable_geolocation :: bool
  enable_threat_intel :: bool

record policy_config =
  policy_file :: string
  enable_opa :: bool
  cfg_default_deny :: bool

record upstream_config =
  default_backend :: string
  timeout_seconds :: u64
  enable_mtls :: bool

record config =
  server :: server_config
  database :: database_config
  redis_cfg :: redis_config
  auth :: auth_config
  webauthn :: webauthn_config
  risk :: risk_config
  policy_cfg :: policy_config
  upstream :: upstream_config

type_synonym env = "string \<Rightarrow> string option"

definition env_or :: "env \<Rightarrow> string \<Rightarrow> string \<Rightarrow> string" where
  "env_or env k d = (case env k of Some v \<Rightarrow> v | None \<Rightarrow> d)"

definition env_flag :: "string \<Rightarrow> bool" where
  "env_flag v \<longleftrightarrow> v \<noteq> ''0'' \<and> ascii_lower v \<noteq> ''false''"

definition passkey_store_of :: "string \<Rightarrow> passkey_store_kind" where
  "passkey_store_of v =
     (if ascii_lower v \<in> {''memory'', ''in-memory'', ''inmemory''} then MemoryKind
      else PostgresKind)"

definition default_webauthn_config :: "env \<Rightarrow> webauthn_config" where
  "default_webauthn_config env =
     \<lparr>rp_id = env_or env ''WEBAUTHN_RP_ID'' ''localhost'',
      rp_origin = env_or env ''WEBAUTHN_RP_ORIGIN'' ''http://localhost:8443'',
      rp_name = env_or env ''WEBAUTHN_RP_NAME'' ''Zero-Trust Proxy'',
      webauthn_enabled =
        (case env ''WEBAUTHN_ENABLED'' of Some v \<Rightarrow> env_flag v | None \<Rightarrow> True),
      passkey_store =
        (case env ''WEBAUTHN_PASSKEY_STORE'' of
           Some v \<Rightarrow> passkey_store_of v
         | None \<Rightarrow> PostgresKind)\<rparr>"

definition default_config :: "env \<Rightarrow> config" where
  "default_config env =
     \<lparr>server = \<lparr>host = ''0.0.0.0'', port = 8443, tls_cert = None, tls_key = None,
                enable_tls = False\<rparr>,
      database = \<lparr>database_url = env_or env ''DATABASE_URL'' ''postgresql://localhost/ztp'',
                  max_connections = 20\<rparr>,
      redis_cfg = \<lparr>redis_url = env_or env ''REDIS_URL'' ''redis://localhost:6379''\<rparr>,
      auth = \<lparr>auth_session_duration_minutes = 15, require_mfa = True,
              allowed_mfa_methods = [''totp''],
              jwt_secret = env_or env ''JWT_SECRET'' ''change-me-in-production'',
              jwt_expiration_hours = 24\<rparr>,
      webauthn = default_webauthn_config env,
      risk = \<lparr>max_risk_score = 100, cfg_step_up_threshold = 60, cfg_block_threshold = 85,
              enable_geolocation = False, enable_threat_intel = False\<rparr>,
      policy_cfg = \<lparr>policy_file = ''config/policy.rego'', enable_opa = False,
                    cfg_default_deny = True\<rparr>,
      upstream = \<lparr>default_backend = ''http://localhost:8080'', timeout_seconds = 30,
                  enable_mtls = False\<rparr>\<rparr>"

record 'w files =
  path_exists :: "string \<Rightarrow> ('w, bool) read"
  read_to_string :: "string \<Rightarrow> ('w, string) call"
  config_of_toml :: "env \<Rightarrow> string \<Rightarrow> string + config"

definition load_config :: "'w files \<Rightarrow> env \<Rightarrow> ('w, string, config) io" where
  "load_config F env =
     (let config_path = env_or env ''CONFIG_PATH'' ''config/config.toml'' in
      bind_io (read_io (path_exists F config_path)) (\<lambda>exists.
        if exists then
          bind_io (call_io id (read_to_string F config_path)) (\<lambda>config_str.
            lift_res (of_sum id (config_of_toml F env config_str)))
        else ret (default_config env)))"

section \<open>What the loaded configuration is\<close>

text \<open>A configuration that loads is the one the configuration file holds whenever that file
  exists: no field of it falls back to the built-in defaults (in particular not the JWT secret
  and not the MFA, policy and risk switches), whatever the environment says; and the defaults
  are used exactly when the file is absent.\<close>

theorem load_config_source:
  assumes "load_config F env w = (Ok c, w')"
  defines "p \<equiv> env_or env ''CONFIG_PATH'' ''config/config.toml''"
  shows "(\<exists>w1. path_exists F p w = (False, w1) \<and> c = default_config env \<and> w' = w1)
    \<or> (\<exists>js w1. path_exists F p w = (True, w1) \<and> read_to_string F p w1 = (Inr js, w')
         \<and> config_of_toml F env js = Inr c)"
  using assms(1) unfolding load_config_def Let_def p_def
  by (auto simp: io_Ok io_cases of_sum_Ok_iff)

theorem load_config_source_witness:
  "\<exists>c. load_config
      \<lparr>path_exists = (\<lambda>p w. (p = ''config/config.toml'', w)),
       read_to_string = (\<lambda>p w. (Inr ''[server]'', w)),
       config_of_toml = (\<lambda>env s. if s = ''[server]'' then
          Inr (default_config env\<lparr>risk := \<lparr>max_risk_score = 100, cfg_step_up_threshold = 40,
            cfg_block_threshold = 70, enable_geolocation = False, enable_threat_intel = False\<rparr>\<rparr>)
          else Inl ''parse error'')\<rparr> (\<lambda>_. None) (0::int) = (Ok c, 0)
    \<and> cfg_block_threshold (risk c) = 70"
proof -
  let ?F = "\<lparr>path_exists = (\<lambda>p w. (p = ''config/config.toml'', w)),
       read_to_string = (\<lambda>p w. (Inr ''[server]'', w)),
       config_of_toml = (\<lambda>env s. if s = ''[server]'' then
          Inr (default_config env\<lparr>risk := \<lparr>max_risk_score = 100, cfg_step_up_threshold = 40,
            cfg_block_threshold = 70, enable_geolocation = False, enable_threat_intel = False\<rparr>\<rparr>)
          else Inl ''parse error'')\<rparr> :: int files"
  have "\<exists>c. load_config ?F (\<lambda>_. None) 0 = (Ok c, 0)"
    by (simp add: load_config_def env_or_def io_run Let_def)
  then obtain c where c: "load_config ?F (\<lambda>_. None) 0 = (Ok c, 0)" ..
  with load_config_source [OF c] show ?thesis
    by (auto simp: env_or_def)
qed

end
