(* ===== verification/Platform.thy ===== *)
theory Platform
  imports Errors
begin

text \<open>
  The ambient services every component may read: the clock (\<open>chrono::Utc::now\<close>), fresh
  UUIDs (\<open>Uuid::new_v4\<close>) and SHA-256 (\<open>sha2\<close>). They are third-party code, so they are
  parameters: fields of a record the operations take.

  A \<open>DateTime<Utc>\<close> is its number of nanoseconds since the Unix epoch and a \<open>Duration\<close> a
  number of nanoseconds; \<open>num_seconds\<close>, \<open>num_minutes\<close> and \<open>num_days\<close> truncate towards
  zero. A \<open>Uuid\<close> is its hyphenated text, and an \<open>IpAddr\<close> the text \<open>Display\<close> gives it:
  each text determines its value. \<open>parse_uuid\<close> and \<open>parse_ip\<close> are the \<open>FromStr\<close> functions
  (several texts may name one value), so they are parameters too.
\<close>

type_synonym instant = int
type_synonym duration = int
type_synonym uuid = string
type_synonym ip_addr = string

record 'w platform =
  utc_now :: "('w, instant) read"
  uuid_v4 :: "('w, uuid) read"
  sha256_hex :: "string \<Rightarrow> string"
  parse_uuid :: "string \<Rightarrow> uuid option"
  parse_ip :: "string \<Rightarrow> ip_addr option"

definition nanos_per_second :: int where
  "nanos_per_second = 1000000000"

text \<open>
  \<open>Utc::now() + Duration::minutes(n)\<close> and the same with \<open>hours\<close>: both build the duration
  from its seconds, which panics beyond \<open>i64::MAX / 1000\<close>, and the sum panics outside the
  range of \<open>DateTime\<close> (the years -262143 to 262142).
\<close>

definition datetime_min :: instant where
  "datetime_min = -8334601228800 * nanos_per_second"

definition datetime_max :: instant where
  "datetime_max = 8210266876800 * nanos_per_second - 1"

definition plus_seconds :: "instant \<Rightarrow> int \<Rightarrow> instant option" where
  "plus_seconds t secs =
     (let t' = t + secs * nanos_per_second in
      if \<bar>secs\<bar> \<le> 9223372036854775 \<and> datetime_min \<le> t' \<and> t' \<le> datetime_max then Some t'
      else None)"

definition plus_minutes :: "instant \<Rightarrow> int \<Rightarrow> instant option" where
  "plus_minutes t n = plus_seconds t (n * 60)"

definition plus_hours :: "instant \<Rightarrow> int \<Rightarrow> instant option" where
  "plus_hours t n = plus_seconds t (n * 3600)"

definition num_seconds :: "duration \<Rightarrow> int" where
  "num_seconds d = rust_div d nanos_per_second"

definition num_minutes :: "duration \<Rightarrow> int" where
  "num_minutes d = rust_div d (60 * nanos_per_second)"

definition num_days :: "duration \<Rightarrow> int" where
  "num_days d = rust_div d (86400 * nanos_per_second)"

text \<open>\<open>DateTime::timestamp\<close> and \<open>Timelike::hour\<close>, which round towards minus infinity.\<close>

definition timestamp :: "instant \<Rightarrow> int" where
  "timestamp t = t div nanos_per_second"

definition hour_of :: "instant \<Rightarrow> int" where
  "hour_of t = t div (3600 * nanos_per_second) mod 24"

lemma nanos_per_second_pos [simp]: "0 < nanos_per_second"
  by (simp add: nanos_per_second_def)

lemma plus_seconds_Some: "plus_seconds t n = Some t' \<Longrightarrow> t' = t + n * nanos_per_second"
  by (auto simp: plus_seconds_def Let_def split: if_splits)

lemma hour_of_range: "0 \<le> hour_of t \<and> hour_of t < 24"
  by (simp add: hour_of_def)

lemma num_days_lt_1:
  assumes "d < 86400 * nanos_per_second"
  shows "num_days d < 1"
proof (cases "0 \<le> d")
  case True
  with assms show ?thesis by (simp add: num_days_def rust_div_pos)
next
  case False
  then have "0 \<le> \<bar>d\<bar> div (86400 * nanos_per_second)"
    by (simp add: nanos_per_second_def pos_imp_zdiv_nonneg_iff)
  then show ?thesis
    using False nanos_per_second_pos [THEN order_less_not_sym] by (simp add: num_days_def rust_div_def)
qed

end
