(* ===== verification/Auth.thy ===== *)
theory Auth
  imports Platform
begin

text \<open>
  \<^verbatim>\<open>src/src/auth/mod.rs\<close>: the claims of a token, the token manager, and password
  hashing. \<open>jsonwebtoken\<close> (HS256, \<open>Header::default()\<close> and \<open>Validation::default()\<close>) and
  \<open>argon2\<close> are parameters. What \<open>jsonwebtoken\<close> documents is the locale \<open>jwt_services\<close>; what the
  manager promises its callers is the locale \<open>token_issuer\<close>.
\<close>

record claims =
  sub :: string
  exp_at :: int
  iat :: int
  jti :: string
  clm_session_id :: string
  clm_device_id :: string
  clm_risk_score :: u32
  clm_mfa_verified :: bool

record 'w jwt_lib =
  jwt_encode :: "string \<Rightarrow> claims \<Rightarrow> string + string"
  jwt_decode :: "string \<Rightarrow> string \<Rightarrow> ('w, claims) call"

record jwt_manager =
  secret :: string
  expiration_hours :: int

definition generate_token ::
  "'w platform \<Rightarrow> 'w jwt_lib \<Rightarrow> jwt_manager \<Rightarrow> string \<Rightarrow> string \<Rightarrow> u32 \<Rightarrow> bool \<Rightarrow> string
     \<Rightarrow> ('w, string) proxy_io" where
  "generate_token P J m user dev score mfa sid =
     bind_io (read_io (utc_now P)) (\<lambda>now.
       case plus_hours now (expiration_hours m) of
         None \<Rightarrow> lift_res Panic
       | Some ends \<Rightarrow>
           bind_io (read_io (uuid_v4 P)) (\<lambda>i.
             let c = \<lparr>sub = user, exp_at = timestamp ends, iat = timestamp now, jti = i,
                      clm_session_id = sid, clm_device_id = dev, clm_risk_score = score,
                      clm_mfa_verified = mfa\<rparr>
             in lift_res (of_sum JwtError (jwt_encode J (secret m) c))))"

definition validate_token :: "'w jwt_lib \<Rightarrow> jwt_manager \<Rightarrow> string \<Rightarrow> ('w, claims) proxy_io" where
  "validate_token J m token = call_io JwtError (jwt_decode J (secret m) token)"

definition extract_token_from_header :: "string \<Rightarrow> string proxy_result" where
  "extract_token_from_header h =
     (if \<not> starts_with h ''Bearer ''
      then Err (AuthenticationFailed ''Invalid authorization header format'')
      else ok_or (strip_prefix h ''Bearer '') (AuthenticationFailed ''Missing bearer token''))"

record login_response =
  access_token :: string
  token_type :: string
  expires_in :: int
  mfa_required :: bool

text \<open>
  \<open>argon2\<close>: a fresh salt, hashing (which returns the PHC text), parsing a PHC text, and
  comparing a password with a parsed one.
\<close>

record 'w argon2 =
  a2_salt :: "('w, string) read"
  a2_hash :: "string \<Rightarrow> string \<Rightarrow> string + string"
  a2_parse :: "string \<Rightarrow> string + string"
  a2_matches :: "string \<Rightarrow> string \<Rightarrow> bool"

definition hash_password :: "'w argon2 \<Rightarrow> string \<Rightarrow> ('w, string) proxy_io" where
  "hash_password A password =
     bind_io (read_io (a2_salt A)) (\<lambda>salt.
       lift_res (of_sum AuthenticationFailed (a2_hash A password salt)))"

definition verify_password :: "'w argon2 \<Rightarrow> string \<Rightarrow> string \<Rightarrow> bool proxy_result" where
  "verify_password A password hash =
     bind_res (of_sum AuthenticationFailed (a2_parse A hash)) (\<lambda>parsed.
       Ok (a2_matches A password parsed))"

section \<open>The bearer header\<close>

text \<open>A token is taken from an Authorization header exactly when the header is
  \<open>Bearer \<close> (case-sensitive, one space) followed by the token, of which not a byte is dropped;
  every other header is an authentication failure answered with 401.\<close>

lemma extract_token_iff:
  "(extract_token_from_header h = Ok t \<longleftrightarrow> h = ''Bearer '' @ t)
   \<and> (extract_token_from_header h = Ok t
      \<or> (\<exists>t'. h = ''Bearer '' @ t' \<and> t' \<noteq> t)
      \<or> (\<exists>e. extract_token_from_header h = Err e \<and> status_code e = 401))"
  by (auto simp: extract_token_from_header_def ok_or_Ok_iff strip_prefix_Some_iff starts_with_iff)

section \<open>What the library and the manager promise\<close>

text \<open>
  \<open>jsonwebtoken\<close> accepts a token until 60 seconds (the default leeway) after its \<open>exp\<close>, and
  the claims it returns for a token it signed are those that were signed.
\<close>

locale jwt_services =
  fixes P :: "'w platform" and J :: "'w jwt_lib" and tm :: "'w \<Rightarrow> instant"
  assumes now_between: "utc_now P w = (t, w') \<Longrightarrow> tm w \<le> t \<and> t \<le> tm w'"
    and decode_signed: "jwt_encode J k c = Inr tok \<Longrightarrow> jwt_decode J k tok w = (Inr c', w') \<Longrightarrow>
      c' = c"
    and decode_lifetime: "jwt_decode J k tok w = (Inr c, w') \<Longrightarrow>
      timestamp (tm w) \<le> exp_at c + 60"
    and decode_fresh: "jwt_encode J k c = Inr tok \<Longrightarrow> jwt_decode J k tok w = (r, w') \<Longrightarrow>
      0 \<le> exp_at c \<Longrightarrow> timestamp (tm w') \<le> exp_at c \<Longrightarrow> r = Inr c"

locale token_issuer =
  fixes issue :: "string \<Rightarrow> string \<Rightarrow> u32 \<Rightarrow> bool \<Rightarrow> string \<Rightarrow> ('w, string) proxy_io"
    and validate :: "string \<Rightarrow> ('w, claims) proxy_io"
    and carries :: "string \<Rightarrow> claims \<Rightarrow> bool"
    and lifetime :: int
    and tm :: "'w \<Rightarrow> instant"
  assumes issue_carries: "issue u d sc m sid w = (Ok tok, w') \<Longrightarrow>
      \<exists>c. carries tok c \<and> sub c = u \<and> clm_device_id c = d \<and> clm_risk_score c = sc
        \<and> clm_mfa_verified c = m \<and> clm_session_id c = sid
        \<and> exp_at c = iat c + lifetime \<and> timestamp (tm w) \<le> iat c"
    and validate_carried: "carries tok c \<Longrightarrow> validate tok w = (Ok c', w') \<Longrightarrow> c' = c"
    and validate_lifetime: "validate tok w = (Ok c, w') \<Longrightarrow> timestamp (tm w) \<le> exp_at c + 60"
    and validate_fresh: "carries tok c \<Longrightarrow> validate tok w = (r, w') \<Longrightarrow> 0 \<le> exp_at c \<Longrightarrow>
      timestamp (tm w') \<le> exp_at c \<Longrightarrow> r = Ok c"
begin

text \<open>A token read back says what it was issued for, while it is fresh and only then.\<close>

lemma issued_token:
  assumes "issue u d sc m sid w0 = (Ok tok, w1)" "validate tok w2 = (r, w3)"
    and "0 \<le> timestamp (tm w0) + lifetime"
  shows "(\<forall>c. r = Ok c \<longrightarrow> sub c = u \<and> clm_device_id c = d \<and> clm_risk_score c = sc
      \<and> clm_mfa_verified c = m \<and> clm_session_id c = sid
      \<and> timestamp (tm w2) \<le> iat c + lifetime + 60)
    \<and> (timestamp (tm w3) \<le> timestamp (tm w0) + lifetime \<longrightarrow> (\<exists>c. r = Ok c))"
proof -
  obtain c where c: "carries tok c" "sub c = u" "clm_device_id c = d" "clm_risk_score c = sc"
    "clm_mfa_verified c = m" "clm_session_id c = sid" "exp_at c = iat c + lifetime"
    "timestamp (tm w0) \<le> iat c"
    using issue_carries [OF assms(1)] by blast
  have "timestamp (tm w2) \<le> iat c + lifetime + 60 \<and> c' = c" if "r = Ok c'" for c'
    using validate_carried [OF c(1) assms(2) [unfolded that]]
      validate_lifetime [OF assms(2) [unfolded that]] c(7) by simp
  moreover have "r = Ok c" if "timestamp (tm w3) \<le> timestamp (tm w0) + lifetime"
    using validate_fresh [OF c(1) assms(2)] that assms(3) c(7,8) by simp
  ultimately show ?thesis using c by blast
qed

end

lemma timestamp_mono: "s \<le> t \<Longrightarrow> timestamp s \<le> timestamp t"
  by (simp add: timestamp_def zdiv_mono1)

lemma timestamp_plus_hours: "plus_hours t n = Some t' \<Longrightarrow> timestamp t' = timestamp t + n * 3600"
proof -
  assume "plus_hours t n = Some t'"
  then have "t' = t + (n * 3600) * nanos_per_second"
    unfolding plus_hours_def by (rule plus_seconds_Some)
  moreover have "nanos_per_second \<noteq> 0" using nanos_per_second_pos by linarith
  ultimately show ?thesis
    by (simp add: timestamp_def div_mult_self1 [of nanos_per_second t "n * 3600"])
qed

lemma generate_token_steps:
  assumes "generate_token P J m u d sc mfa sid w = (Ok tok, w')"
  obtains now w1 i ends where "utc_now P w = (now, w1)" "uuid_v4 P w1 = (i, w')"
    "plus_hours now (expiration_hours m) = Some ends"
    "jwt_encode J (secret m) \<lparr>sub = u, exp_at = timestamp ends, iat = timestamp now, jti = i,
       clm_session_id = sid, clm_device_id = d, clm_risk_score = sc, clm_mfa_verified = mfa\<rparr>
       = Inr tok"
proof -
  obtain now w1 where now: "utc_now P w = (now, w1)" by (cases "utc_now P w")
  obtain i w2 where i: "uuid_v4 P w1 = (i, w2)" by (cases "uuid_v4 P w1")
  show thesis
  proof (cases "plus_hours now (expiration_hours m)")
    case None
    with assms now show thesis by (simp add: generate_token_def io_run)
  next
    case (Some ends)
    with assms now i show thesis
      by (intro that) (auto simp: generate_token_def io_run Let_def of_sum_Ok_iff)
  qed
qed

sublocale jwt_services \<subseteq> ti: token_issuer "generate_token P J m" "validate_token J m"
  "\<lambda>tok c. jwt_encode J (secret m) c = Inr tok" "expiration_hours m * 3600" tm
  for m
proof
  fix u d sc mfa sid w tok w'
  assume "generate_token P J m u d sc mfa sid w = (Ok tok, w')"
  then show "\<exists>c. jwt_encode J (secret m) c = Inr tok \<and> sub c = u \<and> clm_device_id c = d
      \<and> clm_risk_score c = sc \<and> clm_mfa_verified c = mfa \<and> clm_session_id c = sid
      \<and> exp_at c = iat c + expiration_hours m * 3600 \<and> timestamp (tm w) \<le> iat c"
  proof (rule generate_token_steps)
    fix now w1 i ends
    assume *: "utc_now P w = (now, w1)" "plus_hours now (expiration_hours m) = Some ends"
      and enc: "jwt_encode J (secret m) \<lparr>sub = u, exp_at = timestamp ends, iat = timestamp now,
        jti = i, clm_session_id = sid, clm_device_id = d, clm_risk_score = sc,
        clm_mfa_verified = mfa\<rparr> = Inr tok"
    from now_between [OF *(1)] timestamp_plus_hours [OF *(2)] show ?thesis
      by (intro exI conjI) (rule enc, auto intro: timestamp_mono)
  qed
next
  fix tok c w r w'
  assume "jwt_encode J (secret m) c = Inr tok" "validate_token J m tok w = (r, w')"
    "0 \<le> exp_at c" "timestamp (tm w') \<le> exp_at c"
  then show "r = Ok c"
    using decode_fresh [of "secret m" c tok w _ w']
    by (auto simp: validate_token_def call_io_def split: prod.splits)
qed (auto simp: validate_token_def io_Ok dest: decode_signed decode_lifetime)

end
