(* ===== verification/Db.thy ===== *)
theory Db
  imports Platform
begin

text \<open>
  \<^verbatim>\<open>src/src/db/mod.rs\<close>: the SQL statements of the proxy, over \<open>sqlx\<close>. Each
  statement is its text (with the line breaks of the source's literal written as one space) and
  the list of its bound values; what Postgres does with them is a parameter. A call that fetches
  rows decodes them into the row type (\<open>FromRow\<close>).
\<close>

datatype 'j sql_value =
    SqlText string
  | SqlUuid uuid
  | SqlInt "32 word"
  | SqlBool bool
  | SqlJson 'j
  | SqlNull

record user_row =
  u_id :: uuid
  username :: string
  email :: string
  password_hash :: string
  mfa_enabled :: bool
  mfa_secret :: "string option"
  is_active :: bool

record device_row =
  d_trust_score :: "32 word"
  d_is_trusted :: bool

record ('w, 'j) postgres =
  pg_fetch_optional_user :: "string \<Rightarrow> 'j sql_value list \<Rightarrow> ('w, user_row option) call"
  pg_fetch_one_user :: "string \<Rightarrow> 'j sql_value list \<Rightarrow> ('w, user_row) call"
  pg_fetch_optional_device :: "string \<Rightarrow> 'j sql_value list \<Rightarrow> ('w, device_row option) call"
  pg_execute :: "string \<Rightarrow> 'j sql_value list \<Rightarrow> ('w, nat) call"

definition find_user_by_username_sql :: string where
  "find_user_by_username_sql =
     ''SELECT id, username, email, password_hash, mfa_enabled, mfa_secret, is_active '' @
     ''FROM users WHERE username = $1''"

definition find_user_by_username ::
  "('w, 'j) postgres \<Rightarrow> string \<Rightarrow> ('w, user_row option) proxy_io" where
  "find_user_by_username D name =
     call_io DatabaseError (pg_fetch_optional_user D find_user_by_username_sql [SqlText name])"

definition find_user_by_id_sql :: string where
  "find_user_by_id_sql =
     ''SELECT id, username, email, password_hash, mfa_enabled, mfa_secret, is_active '' @
     ''FROM users WHERE id = $1''"

definition find_user_by_id :: "('w, 'j) postgres \<Rightarrow> uuid \<Rightarrow> ('w, user_row option) proxy_io" where
  "find_user_by_id D i =
     call_io DatabaseError (pg_fetch_optional_user D find_user_by_id_sql [SqlUuid i])"

definition find_device_by_fingerprint_sql :: string where
  "find_device_by_fingerprint_sql =
     ''SELECT trust_score, is_trusted FROM devices WHERE user_id = $1 AND fingerprint_hash = $2''"

definition find_device_by_fingerprint ::
  "('w, 'j) postgres \<Rightarrow> uuid \<Rightarrow> string \<Rightarrow> ('w, device_row option) proxy_io" where
  "find_device_by_fingerprint D user fp =
     call_io DatabaseError
       (pg_fetch_optional_device D find_device_by_fingerprint_sql [SqlUuid user, SqlText fp])"

definition upsert_device_sql :: string where
  "upsert_device_sql =
     ''INSERT INTO devices (user_id, fingerprint_hash, user_agent, platform, browser, '' @
     ''ip_address, trust_score, is_trusted, last_seen) '' @
     ''VALUES ($1, $2, $3, $4, $5, $6::inet, $7, $8, NOW()) '' @
     ''ON CONFLICT (fingerprint_hash) DO UPDATE '' @
     ''SET trust_score = EXCLUDED.trust_score, '' @
     ''is_trusted = EXCLUDED.is_trusted, '' @
     ''last_seen = NOW(), '' @
     ''ip_address = EXCLUDED.ip_address''"

definition upsert_device ::
  "('w, 'j) postgres \<Rightarrow> uuid \<Rightarrow> string \<Rightarrow> string \<Rightarrow> string \<Rightarrow> string \<Rightarrow> string
     \<Rightarrow> 32 word \<Rightarrow> bool \<Rightarrow> ('w, unit) proxy_io" where
  "upsert_device D user fp ua plat brow ip trust trusted =
     bind_io (call_io DatabaseError
       (pg_execute D upsert_device_sql
          [SqlUuid user, SqlText fp, SqlText ua, SqlText plat, SqlText brow, SqlText ip,
           SqlInt trust, SqlBool trusted])) (\<lambda>_. ret ())"

definition set_user_mfa_secret_sql :: string where
  "set_user_mfa_secret_sql =
     ''UPDATE users SET mfa_enabled = TRUE, mfa_secret = $1 WHERE id = $2''"

definition set_user_mfa_secret ::
  "('w, 'j) postgres \<Rightarrow> uuid \<Rightarrow> string \<Rightarrow> ('w, unit) proxy_io" where
  "set_user_mfa_secret D i secret =
     bind_io (call_io DatabaseError
       (pg_execute D set_user_mfa_secret_sql [SqlText secret, SqlUuid i])) (\<lambda>_. ret ())"

definition create_user_sql :: string where
  "create_user_sql =
     ''INSERT INTO users (username, email, password_hash) VALUES ($1, $2, $3) '' @
     ''RETURNING id, username, email, password_hash, mfa_enabled, mfa_secret, is_active''"

definition create_user ::
  "('w, 'j) postgres \<Rightarrow> string \<Rightarrow> string \<Rightarrow> string \<Rightarrow> ('w, user_row) proxy_io" where
  "create_user D name mail hash =
     call_io DatabaseError
       (pg_fetch_one_user D create_user_sql [SqlText name, SqlText mail, SqlText hash])"

section \<open>The user table\<close>

text \<open>
  What the handlers rely on: users by id, with unique names; an operation that fails leaves the
  table as it was or has been carried out. \<open>user_sql\<close> states what Postgres does with the four
  statements on the \<open>users\<close> table (\<open>docs/schema.sql\<close>: \<open>username\<close> is unique, \<open>mfa_enabled\<close>
  defaults to false, \<open>is_active\<close> to true), for a run in which no other client writes the table
  between two statements.
\<close>

type_synonym users = "uuid \<rightharpoonup> user_row"

definition with_secret :: "string \<Rightarrow> user_row \<Rightarrow> user_row" where
  "with_secret s u = u\<lparr>mfa_enabled := True, mfa_secret := Some s\<rparr>"

definition fresh_user :: "string \<Rightarrow> string \<Rightarrow> string \<Rightarrow> user_row \<Rightarrow> bool" where
  "fresh_user name mail hash u \<longleftrightarrow>
     username u = name \<and> email u = mail \<and> password_hash u = hash \<and> \<not> mfa_enabled u
     \<and> mfa_secret u = None \<and> is_active u"

definition updated_secret :: "users \<Rightarrow> uuid \<Rightarrow> string \<Rightarrow> users" where
  "updated_secret us i s = us(i := map_option (with_secret s) (us i))"

definition inserted_user :: "users \<Rightarrow> user_row \<Rightarrow> users \<Rightarrow> bool" where
  "inserted_user us u us' \<longleftrightarrow>
     us (u_id u) = None \<and> (\<forall>v \<in> ran us. username v \<noteq> username u) \<and> us' = us(u_id u \<mapsto> u)"

locale user_sql =
  fixes D :: "('w, 'j) postgres" and users :: "'w \<Rightarrow> users"
  assumes select_by_name:
    "pg_fetch_optional_user D find_user_by_username_sql [SqlText n] w = (Inr x, w') \<Longrightarrow>
      (\<forall>u. x = Some u \<longleftrightarrow> (users w (u_id u) = Some u \<and> username u = n))"
    and select_by_id:
    "pg_fetch_optional_user D find_user_by_id_sql [SqlUuid i] w = (Inr x, w') \<Longrightarrow> x = users w i"
    and select_keeps:
    "q \<in> {find_user_by_username_sql, find_user_by_id_sql} \<Longrightarrow>
      pg_fetch_optional_user D q vs w = (rx, w') \<Longrightarrow> users w' = users w"
    and update_secret:
    "pg_execute D set_user_mfa_secret_sql [SqlText s, SqlUuid i] w = (Inr affected, w') \<Longrightarrow>
      users w' = updated_secret (users w) i s"
    and update_secret_fails:
    "pg_execute D set_user_mfa_secret_sql [SqlText s, SqlUuid i] w = (Inl e, w') \<Longrightarrow>
      users w' = users w \<or> users w' = updated_secret (users w) i s"
    and insert_user:
    "pg_fetch_one_user D create_user_sql [SqlText n, SqlText m, SqlText h] w = (Inr u, w') \<Longrightarrow>
      fresh_user n m h u \<and> inserted_user (users w) u (users w')"
    and insert_user_fails:
    "pg_fetch_one_user D create_user_sql [SqlText n, SqlText m, SqlText h] w = (Inl e, w') \<Longrightarrow>
      users w' = users w \<or> (\<exists>u. fresh_user n m h u \<and> inserted_user (users w) u (users w'))"

locale user_table =
  fixes by_name :: "string \<Rightarrow> ('w, user_row option) proxy_io"
    and by_id :: "uuid \<Rightarrow> ('w, user_row option) proxy_io"
    and enrol :: "uuid \<Rightarrow> string \<Rightarrow> ('w, unit) proxy_io"
    and insert :: "string \<Rightarrow> string \<Rightarrow> string \<Rightarrow> ('w, user_row) proxy_io"
    and users :: "'w \<Rightarrow> users"
  assumes by_name_Ok: "by_name n w = (Ok x, w') \<Longrightarrow>
      (\<forall>u. x = Some u \<longleftrightarrow> (users w (u_id u) = Some u \<and> username u = n))"
    and by_id_Ok: "by_id i w = (Ok x, w') \<Longrightarrow> x = users w i"
    and by_name_keeps: "by_name n w = (rx, w') \<Longrightarrow> users w' = users w"
    and by_id_keeps: "by_id i w = (rx, w') \<Longrightarrow> users w' = users w"
    and enrol_effect: "enrol i s w = (ru, w') \<Longrightarrow>
      (users w' = users w \<and> ru \<noteq> Ok ()) \<or> users w' = updated_secret (users w) i s"
    and insert_effect: "insert n m h w = (rv, w') \<Longrightarrow>
      (users w' = users w \<and> (\<forall>u. rv \<noteq> Ok u))
      \<or> (\<exists>u. fresh_user n m h u \<and> inserted_user (users w) u (users w') \<and> (\<forall>v. rv = Ok v \<longrightarrow> v = u))"
begin

text \<open>No operation changes whom a row belongs to, its password or whether it is active.\<close>

lemma enrol_keeps_credentials:
  assumes "enrol i s w = (r, w')" "users w j = Some u"
  shows "\<exists>v. users w' j = Some v \<and> username v = username u
    \<and> password_hash v = password_hash u \<and> is_active v = is_active u \<and> (j \<noteq> i \<longrightarrow> v = u)"
  using enrol_effect [OF assms(1)] assms(2) by (auto simp: updated_secret_def with_secret_def)

lemma insert_keeps:
  assumes "insert n m h w = (r, w')" "users w j = Some u"
  shows "users w' j = Some u"
  using insert_effect [OF assms(1)] assms(2) by (auto simp: inserted_user_def)

lemma inserted_found:
  assumes "insert n m h w = (Ok u, w1)" "users w2 = users w1" "by_name n w2 = (Ok x, w3)"
  shows "x = Some u"
  using insert_effect [OF assms(1)] by_name_Ok [OF assms(3)] assms(2)
  by (auto simp: inserted_user_def fresh_user_def)

lemma enrolled_found:
  assumes "enrol i s w = (Ok (), w1)" "users w2 = users w1" "by_id i w2 = (Ok (Some u), w3)"
  shows "mfa_enabled u \<and> mfa_secret u = Some s"
  using enrol_effect [OF assms(1)] by_id_Ok [OF assms(3), symmetric] assms(2)
  by (auto simp: updated_secret_def with_secret_def)

end

lemma call_io_result: "call_io f c w = (r, w') \<Longrightarrow> \<exists>x. c w = (x, w') \<and> r = of_sum f x"
  by (auto simp: call_io_def split: prod.splits)

sublocale user_sql \<subseteq> ut: user_table "find_user_by_username D" "find_user_by_id D"
  "set_user_mfa_secret D" "create_user D" users
proof
  fix i s w r w'
  assume "set_user_mfa_secret D i s w = (r, w')"
  then obtain c where
    c: "pg_execute D set_user_mfa_secret_sql [SqlText s, SqlUuid i] w = (c, w')"
      "r = Ok () \<Longrightarrow> \<exists>n. c = Inr n"
    by (auto simp: set_user_mfa_secret_def io_run of_sum_def split: prod.splits sum.splits)
  show "(users w' = users w \<and> r \<noteq> Ok ()) \<or> users w' = updated_secret (users w) i s"
    using update_secret [of s i w _ w'] update_secret_fails [of s i w _ w'] c
    by (cases c) auto
next
  fix n m h w r w'
  assume "create_user D n m h w = (r, w')"
  then obtain c where
    c: "pg_fetch_one_user D create_user_sql [SqlText n, SqlText m, SqlText h] w = (c, w')"
      "r = of_sum DatabaseError c"
    by (auto simp: create_user_def dest: call_io_result)
  show "(users w' = users w \<and> (\<forall>u. r \<noteq> Ok u))
      \<or> (\<exists>u. fresh_user n m h u \<and> inserted_user (users w) u (users w') \<and> (\<forall>v. r = Ok v \<longrightarrow> v = u))"
    using insert_user [of n m h w _ w'] insert_user_fails [of n m h w _ w'] c
    by (cases c) auto
qed (auto simp: find_user_by_username_def find_user_by_id_def io_Ok
    dest: call_io_result select_by_name select_by_id intro: select_keeps dest!: call_io_result)

end
