(* ===== verification/Passkeys.thy ===== *)
theory Passkeys
  imports Auth Config Db "HOL-Library.AList"
begin

text \<open>
  \<^verbatim>\<open>src/src/auth/webauthn.rs\<close> and \<^verbatim>\<open>src/src/auth/passkey_store_pg.rs\<close>: passkey
  records, the two credential stores and the handle that picks one, and the ceremonies.
  \<open>webauthn-rs\<close>, \<open>url\<close> and \<open>base64\<close> are parameters: the type \<open>'p\<close> is a \<open>Passkey\<close>, and each
  ceremony takes the library function it wraps. The trait \<open>PasskeyStore\<close> is the locale
  \<open>passkey_store\<close>; both stores, and the handle over either, are proved to provide it.
\<close>

record 'p passkey_record =
  pk_user_id :: string
  pk_cred_id :: string
  pk_passkey :: 'p

definition new_passkey_record ::
  "('p \<Rightarrow> string) \<Rightarrow> (string \<Rightarrow> string) \<Rightarrow> string \<Rightarrow> 'p \<Rightarrow> 'p passkey_record" where
  "new_passkey_record cred_id base64_url user p =
     \<lparr>pk_user_id = user, pk_cred_id = base64_url (cred_id p), pk_passkey = p\<rparr>"

section \<open>The in-memory store\<close>

text \<open>
  A \<open>RwLock<HashMap<(String, String), PasskeyRecord>>\<close>: a cell of the world that holds the
  entries. Their order is the order the map iterates in, which the source leaves open.
\<close>

type_synonym 'p passkey_map = "((string \<times> string) \<times> 'p passkey_record) list"

record ('w, 'p) memory_cell =
  cell_get :: "'w \<Rightarrow> 'p passkey_map"
  cell_set :: "'p passkey_map \<Rightarrow> 'w \<Rightarrow> 'w"

definition pk_key :: "string \<Rightarrow> string \<Rightarrow> string \<times> string" where
  "pk_key user cred = (user, cred)"

definition unknown_passkey :: "'p passkey_record \<Rightarrow> proxy_error" where
  "unknown_passkey r =
     AuthenticationFailed (''unknown passkey credential '' @ pk_cred_id r @ '' for user ''
       @ pk_user_id r)"

definition mem_save_passkey :: "('w, 'p) memory_cell \<Rightarrow> 'p passkey_record \<Rightarrow> ('w, unit) proxy_io" where
  "mem_save_passkey C r w =
     (Ok (), cell_set C (AList.update (pk_key (pk_user_id r) (pk_cred_id r)) r (cell_get C w)) w)"

definition mem_get_passkeys ::
  "('w, 'p) memory_cell \<Rightarrow> string \<Rightarrow> ('w, 'p passkey_record list) proxy_io" where
  "mem_get_passkeys C user w =
     (Ok (map snd (filter (\<lambda>((uid, _), _). uid = user) (cell_get C w))), w)"

definition mem_update_passkey :: "('w, 'p) memory_cell \<Rightarrow> 'p passkey_record \<Rightarrow> ('w, unit) proxy_io" where
  "mem_update_passkey C r w =
     (let k = pk_key (pk_user_id r) (pk_cred_id r); m = cell_get C w in
      if map_of m k \<noteq> None then (Ok (), cell_set C (AList.update k r m) w)
      else (Err (unknown_passkey r), w))"

definition mem_delete_passkey ::
  "('w, 'p) memory_cell \<Rightarrow> string \<Rightarrow> string \<Rightarrow> ('w, unit) proxy_io" where
  "mem_delete_passkey C user cred w =
     (Ok (), cell_set C (AList.delete (pk_key user cred) (cell_get C w)) w)"

section \<open>The Postgres store\<close>

record 'p passkey_row =
  row_user_id :: string
  row_cred_id :: string
  row_passkey :: 'p

record ('w, 'p) passkey_pool =
  pk_execute :: "string \<Rightarrow> 'p sql_value list \<Rightarrow> ('w, nat) call"
  pk_fetch_all :: "string \<Rightarrow> 'p sql_value list \<Rightarrow> ('w, 'p passkey_row list) call"

definition record_of_row :: "'p passkey_row \<Rightarrow> 'p passkey_record" where
  "record_of_row row =
     \<lparr>pk_user_id = row_user_id row, pk_cred_id = row_cred_id row, pk_passkey = row_passkey row\<rparr>"

definition save_passkey_sql :: string where
  "save_passkey_sql = ''INSERT INTO passkeys (user_id, cred_id, passkey) VALUES ($1, $2, $3)''"

definition get_passkeys_sql :: string where
  "get_passkeys_sql =
     ''SELECT user_id, cred_id, passkey FROM passkeys WHERE user_id = $1 ORDER BY created_at''"

definition update_passkey_sql :: string where
  "update_passkey_sql =
     ''UPDATE passkeys SET passkey = $3, last_used_at = NOW() '' @
     ''WHERE user_id = $1 AND cred_id = $2''"

definition delete_passkey_sql :: string where
  "delete_passkey_sql = ''DELETE FROM passkeys WHERE user_id = $1 AND cred_id = $2''"

definition pg_save_passkey :: "('w, 'p) passkey_pool \<Rightarrow> 'p passkey_record \<Rightarrow> ('w, unit) proxy_io" where
  "pg_save_passkey D r =
     bind_io (call_io DatabaseError (pk_execute D save_passkey_sql
       [SqlText (pk_user_id r), SqlText (pk_cred_id r), SqlJson (pk_passkey r)])) (\<lambda>_. ret ())"

definition pg_get_passkeys ::
  "('w, 'p) passkey_pool \<Rightarrow> string \<Rightarrow> ('w, 'p passkey_record list) proxy_io" where
  "pg_get_passkeys D user =
     bind_io (call_io DatabaseError (pk_fetch_all D get_passkeys_sql [SqlText user])) (\<lambda>rows.
       ret (map record_of_row rows))"

definition pg_update_passkey :: "('w, 'p) passkey_pool \<Rightarrow> 'p passkey_record \<Rightarrow> ('w, unit) proxy_io" where
  "pg_update_passkey D r =
     bind_io (call_io DatabaseError (pk_execute D update_passkey_sql
       [SqlText (pk_user_id r), SqlText (pk_cred_id r), SqlJson (pk_passkey r)])) (\<lambda>affected.
       if affected = 0 then throw (unknown_passkey r) else ret ())"

definition pg_delete_passkey ::
  "('w, 'p) passkey_pool \<Rightarrow> string \<Rightarrow> string \<Rightarrow> ('w, unit) proxy_io" where
  "pg_delete_passkey D user cred =
     bind_io (call_io DatabaseError (pk_execute D delete_passkey_sql
       [SqlText user, SqlText cred])) (\<lambda>_. ret ())"

section \<open>The configured store\<close>

datatype ('w, 'p) passkey_store_handle =
    PostgresStore "('w, 'p) passkey_pool"
  | MemoryStore "('w, 'p) memory_cell"

fun save_passkey :: "('w, 'p) passkey_store_handle \<Rightarrow> 'p passkey_record \<Rightarrow> ('w, unit) proxy_io" where
  "save_passkey (PostgresStore D) r = pg_save_passkey D r"
| "save_passkey (MemoryStore C) r = mem_save_passkey C r"

fun get_passkeys ::
  "('w, 'p) passkey_store_handle \<Rightarrow> string \<Rightarrow> ('w, 'p passkey_record list) proxy_io" where
  "get_passkeys (PostgresStore D) user = pg_get_passkeys D user"
| "get_passkeys (MemoryStore C) user = mem_get_passkeys C user"

fun update_passkey :: "('w, 'p) passkey_store_handle \<Rightarrow> 'p passkey_record \<Rightarrow> ('w, unit) proxy_io" where
  "update_passkey (PostgresStore D) r = pg_update_passkey D r"
| "update_passkey (MemoryStore C) r = mem_update_passkey C r"

fun delete_passkey ::
  "('w, 'p) passkey_store_handle \<Rightarrow> string \<Rightarrow> string \<Rightarrow> ('w, unit) proxy_io" where
  "delete_passkey (PostgresStore D) user cred = pg_delete_passkey D user cred"
| "delete_passkey (MemoryStore C) user cred = mem_delete_passkey C user cred"

text \<open>
  \<open>pool_connect url conns timeout_secs\<close> is \<open>PgPoolOptions\<close>'s \<open>connect\<close>, and \<open>new_cell\<close> allocates an
  empty map (\<open>InMemoryPasskeyStore::new\<close>).
\<close>

definition pg_connect ::
  "(string \<Rightarrow> u32 \<Rightarrow> nat \<Rightarrow> ('w, ('w, 'p) passkey_pool) call) \<Rightarrow> string \<Rightarrow> u32
     \<Rightarrow> ('w, ('w, 'p) passkey_pool) proxy_io" where
  "pg_connect pool_connect url conns = call_io DatabaseError (pool_connect url conns 10)"

definition connect_passkey_store ::
  "(string \<Rightarrow> u32 \<Rightarrow> nat \<Rightarrow> ('w, ('w, 'p) passkey_pool) call)
     \<Rightarrow> ('w, ('w, 'p) memory_cell) read \<Rightarrow> passkey_store_kind \<Rightarrow> string \<Rightarrow> u32
     \<Rightarrow> ('w, ('w, 'p) passkey_store_handle) proxy_io" where
  "connect_passkey_store pool_connect new_cell kind url conns =
     (case kind of
        PostgresKind \<Rightarrow> bind_io (pg_connect pool_connect url conns) (\<lambda>D. ret (PostgresStore D))
      | MemoryKind \<Rightarrow> bind_io (read_io new_cell) (\<lambda>C. ret (MemoryStore C)))"

section \<open>Ceremonies\<close>

definition ceremony_err :: "string \<Rightarrow> proxy_error" where
  "ceremony_err e = AuthenticationFailed (''webauthn ceremony failed: '' @ e)"

definition new_webauthn ::
  "(string \<Rightarrow> string + 'url) \<Rightarrow> (string \<Rightarrow> 'url \<Rightarrow> string + 'b) \<Rightarrow> ('b \<Rightarrow> string \<Rightarrow> 'b)
     \<Rightarrow> ('b \<Rightarrow> string + 'wn) \<Rightarrow> webauthn_config \<Rightarrow> 'wn proxy_result" where
  "new_webauthn url_parse new_builder set_rp_name build c =
     bind_res (of_sum (\<lambda>e. AuthenticationFailed (''invalid webauthn rp_origin: '' @ e))
       (url_parse (rp_origin c))) (\<lambda>origin.
     bind_res (of_sum ceremony_err (new_builder (rp_id c) origin)) (\<lambda>b.
       of_sum ceremony_err (build (set_rp_name b (rp_name c)))))"

definition start_passkey_registration ::
  "('wn \<Rightarrow> uuid \<Rightarrow> string \<Rightarrow> string \<Rightarrow> string list option \<Rightarrow> ('w, 'challenge) call)
     \<Rightarrow> ('p \<Rightarrow> string) \<Rightarrow> 'wn \<Rightarrow> uuid \<Rightarrow> string \<Rightarrow> string \<Rightarrow> 'p list \<Rightarrow> ('w, 'challenge) proxy_io" where
  "start_passkey_registration lib cred_id wn user name display exclude =
     call_io ceremony_err (lib wn user name display (Some (map cred_id exclude)))"

definition finish_passkey_registration ::
  "('wn \<Rightarrow> 'response \<Rightarrow> 'state \<Rightarrow> string + 'p) \<Rightarrow> 'wn \<Rightarrow> 'response \<Rightarrow> 'state \<Rightarrow> 'p proxy_result" where
  "finish_passkey_registration lib wn response state =
     of_sum ceremony_err (lib wn response state)"

definition start_passkey_authentication ::
  "('wn \<Rightarrow> 'p list \<Rightarrow> ('w, 'challenge) call) \<Rightarrow> 'wn \<Rightarrow> 'p list \<Rightarrow> ('w, 'challenge) proxy_io" where
  "start_passkey_authentication lib wn passkeys =
     (if passkeys = []
      then throw (AuthenticationFailed ''no passkeys enrolled for this user'')
      else call_io ceremony_err (lib wn passkeys))"

definition finish_passkey_authentication ::
  "('wn \<Rightarrow> 'response \<Rightarrow> 'state \<Rightarrow> string + 'result) \<Rightarrow> 'wn \<Rightarrow> 'response \<Rightarrow> 'state
     \<Rightarrow> 'result proxy_result" where
  "finish_passkey_authentication lib wn response state =
     of_sum ceremony_err (lib wn response state)"

text \<open>The record is updated in place: the new record is returned with the outcome's world.\<close>

definition refresh_passkey ::
  "('p \<Rightarrow> 'result \<Rightarrow> 'p) \<Rightarrow> ('p passkey_record \<Rightarrow> ('w, unit) proxy_io) \<Rightarrow> 'p passkey_record
     \<Rightarrow> 'result \<Rightarrow> ('w, 'p passkey_record) proxy_io" where
  "refresh_passkey update_credential store_update r result =
     (let r' = r\<lparr>pk_passkey := update_credential (pk_passkey r) result\<rparr> in
      bind_io (store_update r') (\<lambda>_. ret r'))"

definition mint_passkey_jwt ::
  "'w platform \<Rightarrow> 'w jwt_lib \<Rightarrow> jwt_manager \<Rightarrow> string \<Rightarrow> string \<Rightarrow> string \<Rightarrow> u32
     \<Rightarrow> ('w, string) proxy_io" where
  "mint_passkey_jwt P J m user dev sid score = generate_token P J m user dev score True sid"

end
