(* ===== verification/Passkey_Store.thy ===== *)
theory Passkey_Store
  imports Passkeys
begin

text \<open>
  The contract of the trait \<open>PasskeyStore\<close> over the map from (user, credential id) to stored
  records, and the proofs that the in-memory store, the Postgres store and the configured handle
  provide it. What a failed call did is left open, except that an update of a credential that is
  not stored fails and changes nothing.
\<close>

type_synonym 'p credentials = "string \<times> string \<rightharpoonup> 'p passkey_record"

definition record_key :: "'p passkey_record \<Rightarrow> string \<times> string" where
  "record_key r = (pk_user_id r, pk_cred_id r)"

definition keyed_by_record :: "'p credentials \<Rightarrow> bool" where
  "keyed_by_record m \<longleftrightarrow> (\<forall>k r. m k = Some r \<longrightarrow> record_key r = k)"

lemma pk_key_record [simp]: "pk_key (pk_user_id r) (pk_cred_id r) = record_key r"
  by (simp add: pk_key_def record_key_def)

lemma keyed_by_record_upd:
  "keyed_by_record m \<Longrightarrow> keyed_by_record (m(record_key r \<mapsto> r))"
  "keyed_by_record m \<Longrightarrow> keyed_by_record (m(k := None))"
  by (auto simp: keyed_by_record_def)

locale passkey_store =
  fixes save :: "'p passkey_record \<Rightarrow> ('w, unit) proxy_io"
    and get :: "string \<Rightarrow> ('w, 'p passkey_record list) proxy_io"
    and update :: "'p passkey_record \<Rightarrow> ('w, unit) proxy_io"
    and delete :: "string \<Rightarrow> string \<Rightarrow> ('w, unit) proxy_io"
    and creds :: "'w \<Rightarrow> 'p credentials"
    and inv :: "'w \<Rightarrow> bool"
  assumes save_Ok: "save r w = (Ok v, w') \<Longrightarrow> inv w \<Longrightarrow>
      inv w' \<and> creds w' = (creds w)(record_key r \<mapsto> r)"
    and get_Ok: "get u w = (Ok rs, w') \<Longrightarrow> inv w \<Longrightarrow>
      inv w' \<and> creds w' = creds w \<and> distinct rs
        \<and> set rs = {r. creds w (record_key r) = Some r \<and> pk_user_id r = u}"
    and update_Ok: "update r w = (Ok v, w') \<Longrightarrow> inv w \<Longrightarrow>
      inv w' \<and> creds w (record_key r) \<noteq> None \<and> creds w' = (creds w)(record_key r \<mapsto> r)"
    and update_unknown: "update r w = (ru, w') \<Longrightarrow> inv w \<Longrightarrow> creds w (record_key r) = None \<Longrightarrow>
      ru \<noteq> Ok () \<and> creds w' = creds w"
    and delete_Ok: "delete u c w = (Ok v, w') \<Longrightarrow> inv w \<Longrightarrow>
      inv w' \<and> creds w' = (creds w)((u, c) := None)"
begin

lemma saved_got:
  assumes "save r w = (Ok v, w1)" "inv w" "get u w1 = (Ok rs, w2)"
  shows "r \<in> set rs \<longleftrightarrow> pk_user_id r = u"
  using save_Ok [OF assms(1,2)] get_Ok [OF assms(3)] by auto

lemma deleted_not_got:
  assumes "delete u c w = (Ok v, w1)" "inv w" "get u w1 = (Ok rs, w2)" "r \<in> set rs"
  shows "pk_cred_id r \<noteq> c"
  using delete_Ok [OF assms(1,2)] get_Ok [OF assms(3)] assms(4) by (auto simp: record_key_def)

text \<open>After a refresh the user's credentials are those before it, with the new counter.\<close>

lemma refreshed:
  assumes "refresh_passkey upd update r res w = (Ok r', w1)" "inv w"
    and "get u w1 = (Ok rs, w2)"
  shows "r' = r\<lparr>pk_passkey := upd (pk_passkey r) res\<rparr> \<and> creds w (record_key r) \<noteq> None
    \<and> (pk_user_id r = u \<longrightarrow> r' \<in> set rs)
    \<and> (\<forall>s. record_key s \<noteq> record_key r \<longrightarrow>
         (s \<in> set rs \<longleftrightarrow> creds w (record_key s) = Some s \<and> pk_user_id s = u))"
proof -
  let ?r = "r\<lparr>pk_passkey := upd (pk_passkey r) res\<rparr>"
  have u: "update ?r w = (Ok (), w1)" "r' = ?r"
    using assms(1) by (auto simp: refresh_passkey_def Let_def io_Ok)
  have key: "record_key ?r = record_key r" by (simp add: record_key_def)
  from update_Ok [OF u(1) assms(2)] have up: "inv w1" "creds w (record_key r) \<noteq> None"
    "creds w1 = (creds w)(record_key r \<mapsto> ?r)"
    by (simp_all add: key)
  have "set rs = {s. creds w1 (record_key s) = Some s \<and> pk_user_id s = u}"
    using get_Ok [OF assms(3) up(1)] by blast
  with up u key show ?thesis by auto
qed

end

section \<open>In memory\<close>

locale passkey_cell =
  fixes C :: "('w, 'p) memory_cell"
  assumes cell_get_set: "cell_get C (cell_set C m w) = m"

definition cell_creds :: "('w, 'p) memory_cell \<Rightarrow> 'w \<Rightarrow> 'p credentials" where
  "cell_creds C w = map_of (cell_get C w)"

definition cell_inv :: "('w, 'p) memory_cell \<Rightarrow> 'w \<Rightarrow> bool" where
  "cell_inv C w \<longleftrightarrow> distinct (map fst (cell_get C w)) \<and> keyed_by_record (cell_creds C w)"

lemma cell_entry_iff:
  assumes "cell_inv C w"
  shows "(k, r) \<in> set (cell_get C w) \<longleftrightarrow> k = record_key r \<and> cell_creds C w (record_key r) = Some r"
proof -
  have "(k, r) \<in> set (cell_get C w) \<longleftrightarrow> cell_creds C w k = Some r"
    using assms by (simp add: cell_inv_def cell_creds_def)
  moreover have "record_key r = k" if "cell_creds C w k = Some r"
    using assms that unfolding cell_inv_def keyed_by_record_def by blast
  ultimately show ?thesis by metis
qed

lemma mem_get_set:
  assumes "cell_inv C w"
  shows "set (map snd (filter (\<lambda>((uid, _), _). uid = u) (cell_get C w)))
    = {r. cell_creds C w (record_key r) = Some r \<and> pk_user_id r = u}"
proof -
  have "r \<in> set (map snd (filter (\<lambda>((uid, _), _). uid = u) (cell_get C w)))
      \<longleftrightarrow> (\<exists>k. (k, r) \<in> set (cell_get C w) \<and> fst k = u)" for r
    by force
  then show ?thesis
    by (auto simp: cell_entry_iff [OF assms] record_key_def)
qed

lemma mem_get_distinct:
  assumes "cell_inv C w"
  shows "distinct (map snd (filter Q (cell_get C w)))"
proof -
  have "inj_on snd (set (cell_get C w))"
    using cell_entry_iff [OF assms] by (metis inj_onI prod.collapse)
  moreover have "distinct (cell_get C w)"
    using assms by (simp add: cell_inv_def distinct_map)
  moreover have "set (filter Q (cell_get C w)) \<subseteq> set (cell_get C w)" by auto
  ultimately show ?thesis
    unfolding distinct_map by (blast intro: inj_on_subset distinct_filter)
qed

lemma cell_inv_set:
  assumes "cell_get C w' = m" "distinct (map fst m)" "keyed_by_record (map_of m)"
  shows "cell_inv C w'"
  using assms by (simp add: cell_inv_def cell_creds_def)

sublocale passkey_cell \<subseteq> mem: passkey_store "mem_save_passkey C" "mem_get_passkeys C"
  "mem_update_passkey C" "mem_delete_passkey C" "cell_creds C" "cell_inv C"
proof
  fix u w rs w'
  assume "mem_get_passkeys C u w = (Ok rs, w')" "cell_inv C w"
  then show "cell_inv C w' \<and> cell_creds C w' = cell_creds C w \<and> distinct rs
      \<and> set rs = {r. cell_creds C w (record_key r) = Some r \<and> pk_user_id r = u}"
    using mem_get_set [of C w u] mem_get_distinct [of C w]
    by (auto simp: mem_get_passkeys_def)
next
  fix u c w v w'
  assume "mem_delete_passkey C u c w = (Ok v, w')" "cell_inv C w"
  then show "cell_inv C w' \<and> cell_creds C w' = (cell_creds C w)((u, c) := None)"
    by (auto simp: mem_delete_passkey_def cell_inv_def cell_creds_def cell_get_set delete_conv'
        distinct_delete pk_key_def intro!: keyed_by_record_upd)
qed (auto simp: mem_save_passkey_def mem_update_passkey_def cell_inv_def
    cell_creds_def cell_get_set update_conv' distinct_update Let_def
    intro!: keyed_by_record_upd split: if_splits)

section \<open>In Postgres\<close>

text \<open>
  What Postgres does with the four statements on the \<open>passkeys\<close> table, whose primary key is
  (user, credential id), for a run in which no other client writes the table in between.
\<close>

locale passkey_sql =
  fixes D :: "('w, 'p) passkey_pool" and rows :: "'w \<Rightarrow> string \<times> string \<rightharpoonup> 'p"
  assumes insert_row: "pk_execute D save_passkey_sql [SqlText u, SqlText c, SqlJson p] w = (Inr cnt, w') \<Longrightarrow>
      rows w (u, c) = None \<and> rows w' = (rows w)((u, c) \<mapsto> p)"
    and select_rows: "pk_fetch_all D get_passkeys_sql [SqlText u] w = (Inr xs, w') \<Longrightarrow>
      rows w' = rows w \<and> distinct xs
        \<and> set xs = {x. row_user_id x = u \<and> rows w (u, row_cred_id x) = Some (row_passkey x)}"
    and update_row: "pk_execute D update_passkey_sql [SqlText u, SqlText c, SqlJson p] w = (Inr cnt, w') \<Longrightarrow>
      (case rows w (u, c) of
         None \<Rightarrow> cnt = 0 \<and> rows w' = rows w
       | Some q \<Rightarrow> cnt = 1 \<and> rows w' = (rows w)((u, c) \<mapsto> p))"
    and update_row_fails:
      "pk_execute D update_passkey_sql [SqlText u, SqlText c, SqlJson p] w = (Inl e, w') \<Longrightarrow>
      rows w (u, c) = None \<Longrightarrow> rows w' = rows w"
    and delete_row: "pk_execute D delete_passkey_sql [SqlText u, SqlText c] w = (Inr cnt, w') \<Longrightarrow>
      rows w' = (rows w)((u, c) := None)"

definition row_creds :: "('w \<Rightarrow> string \<times> string \<rightharpoonup> 'p) \<Rightarrow> 'w \<Rightarrow> 'p credentials" where
  "row_creds rows w k =
     map_option (\<lambda>p. \<lparr>pk_user_id = fst k, pk_cred_id = snd k, pk_passkey = p\<rparr>) (rows w k)"

lemma row_creds_upd:
  "rows w' = (rows w)((u, c) \<mapsto> p) \<Longrightarrow> row_creds rows w' =
     (row_creds rows w)((u, c) \<mapsto> \<lparr>pk_user_id = u, pk_cred_id = c, pk_passkey = p\<rparr>)"
  "rows w' = (rows w)(k := None) \<Longrightarrow> row_creds rows w' = (row_creds rows w)(k := None)"
  "rows w' = rows w \<Longrightarrow> row_creds rows w' = row_creds rows w"
  by (auto simp: row_creds_def fun_eq_iff)

lemma passkey_record_eta:
  "\<lparr>pk_user_id = pk_user_id r, pk_cred_id = pk_cred_id r, pk_passkey = pk_passkey r\<rparr>
     = (r :: 'p passkey_record)"
  by simp

lemma record_of_row_image:
  "record_of_row ` {x. row_user_id x = u \<and> rows w (u, row_cred_id x) = Some (row_passkey x)}
   = {r. row_creds rows w (record_key r) = Some r \<and> pk_user_id r = u}"
  (is "_ ` ?X = ?R")
proof
  show "?R \<subseteq> record_of_row ` ?X"
  proof
    fix r :: "'a passkey_record"
    assume "r \<in> ?R"
    then have "\<lparr>row_user_id = u, row_cred_id = pk_cred_id r, row_passkey = pk_passkey r\<rparr> \<in> ?X"
      "r = record_of_row \<lparr>row_user_id = u, row_cred_id = pk_cred_id r, row_passkey = pk_passkey r\<rparr>"
      by (auto simp: row_creds_def record_key_def record_of_row_def) (metis passkey_record.select_convs(3))
    then show "r \<in> record_of_row ` ?X" by (rule rev_image_eqI)
  qed
qed (auto simp: row_creds_def record_key_def record_of_row_def)

lemma inj_record_of_row: "inj_on record_of_row X"
  by (auto simp: inj_on_def record_of_row_def intro: passkey_row.equality)

lemma pg_update_passkey_steps:
  assumes "pg_update_passkey D r w = (ru, w')"
  obtains x where "pk_execute D update_passkey_sql [SqlText (pk_user_id r),
      SqlText (pk_cred_id r), SqlJson (pk_passkey r)] w = (x, w')"
    and "ru = Ok () \<Longrightarrow> \<exists>cnt. x = Inr cnt \<and> cnt \<noteq> 0"
proof -
  obtain x w1 where x: "pk_execute D update_passkey_sql [SqlText (pk_user_id r),
      SqlText (pk_cred_id r), SqlJson (pk_passkey r)] w = (x, w1)"
    by (cases "pk_execute D update_passkey_sql [SqlText (pk_user_id r),
      SqlText (pk_cred_id r), SqlJson (pk_passkey r)] w")
  from assms x have "w1 = w'" "ru = Ok () \<Longrightarrow> \<exists>cnt. x = Inr cnt \<and> cnt \<noteq> 0"
    by (cases x; auto simp: pg_update_passkey_def io_run split: if_splits)+
  with x that show thesis by blast
qed

context passkey_sql begin

lemma pg_get_contract:
  assumes "pg_get_passkeys D u w = (Ok rs, w')"
  shows "row_creds rows w' = row_creds rows w \<and> distinct rs
      \<and> set rs = {r. row_creds rows w (record_key r) = Some r \<and> pk_user_id r = u}"
proof -
  obtain xs where xs: "pk_fetch_all D get_passkeys_sql [SqlText u] w = (Inr xs, w')"
    "rs = map record_of_row xs"
    using assms by (auto simp: pg_get_passkeys_def io_Ok)
  note sel = select_rows [OF xs(1)]
  have "set rs = record_of_row ` set xs" by (simp add: xs(2))
  also have "\<dots> = {r. row_creds rows w (record_key r) = Some r \<and> pk_user_id r = u}"
    using sel record_of_row_image [of u rows w] by (simp only:)
  finally have "set rs = {r. row_creds rows w (record_key r) = Some r \<and> pk_user_id r = u}" .
  moreover have "distinct rs"
    using sel by (simp add: xs(2) distinct_map inj_record_of_row del: record_of_row_image)
  moreover have "row_creds rows w' = row_creds rows w"
    using sel by (intro row_creds_upd(3)) (rule conjunct1)
  ultimately show ?thesis by (intro conjI)
qed

lemma pg_update_unknown:
  assumes "pg_update_passkey D r w = (ru, w')" "row_creds rows w (record_key r) = None"
  shows "ru \<noteq> Ok () \<and> row_creds rows w' = row_creds rows w"
  using assms(1)
proof (rule pg_update_passkey_steps)
  fix x
  assume x: "pk_execute D update_passkey_sql [SqlText (pk_user_id r),
      SqlText (pk_cred_id r), SqlJson (pk_passkey r)] w = (x, w')"
    and ok: "ru = Ok () \<Longrightarrow> \<exists>cnt. x = Inr cnt \<and> cnt \<noteq> 0"
  have none: "rows w (pk_user_id r, pk_cred_id r) = None"
    using assms(2) by (simp add: row_creds_def record_key_def)
  have "rows w' = rows w \<and> ru \<noteq> Ok ()"
  proof (cases x)
    case (Inl e)
    with ok have "ru \<noteq> Ok ()" by auto
    with update_row_fails [OF x [unfolded Inl] none] show ?thesis by (intro conjI)
  next
    case (Inr cnt)
    from update_row [OF x [unfolded Inr]] none have "cnt = 0" "rows w' = rows w"
      by simp_all
    with ok Inr show ?thesis by auto
  qed
  with row_creds_upd(3) [of rows w' w] show ?thesis by blast
qed

lemma pg_update_known:
  assumes "pg_update_passkey D r w = (Ok (), w')"
  shows "row_creds rows w (record_key r) \<noteq> None
    \<and> row_creds rows w' = (row_creds rows w)(record_key r \<mapsto> r)"
  using assms
proof (rule pg_update_passkey_steps)
  fix x
  assume "pk_execute D update_passkey_sql [SqlText (pk_user_id r),
      SqlText (pk_cred_id r), SqlJson (pk_passkey r)] w = (x, w')"
    and "Ok () = (Ok () :: unit proxy_result) \<Longrightarrow> \<exists>cnt. x = Inr cnt \<and> cnt \<noteq> 0"
  then obtain cnt where "pk_execute D update_passkey_sql [SqlText (pk_user_id r),
      SqlText (pk_cred_id r), SqlJson (pk_passkey r)] w = (Inr cnt, w')" "cnt \<noteq> 0" by auto
  from update_row [OF this(1)] this(2) obtain q where
    "rows w (pk_user_id r, pk_cred_id r) = Some q"
    "rows w' = (rows w)((pk_user_id r, pk_cred_id r) \<mapsto> pk_passkey r)"
    by (auto split: option.splits)
  then show ?thesis
    using row_creds_upd(1) [of rows w' w "pk_user_id r" "pk_cred_id r" "pk_passkey r"]
    by (simp add: row_creds_def [of rows w] record_key_def passkey_record_eta)
qed

lemma pg_save_contract:
  assumes "pg_save_passkey D r w = (Ok (), w')"
  shows "row_creds rows w (record_key r) = None
    \<and> row_creds rows w' = (row_creds rows w)(record_key r \<mapsto> r)"
proof -
  obtain n where n: "pk_execute D save_passkey_sql [SqlText (pk_user_id r),
      SqlText (pk_cred_id r), SqlJson (pk_passkey r)] w = (Inr n, w')"
    using assms by (auto simp: pg_save_passkey_def io_Ok)
  from insert_row [OF n] show ?thesis
    using row_creds_upd(1) [of rows w' w "pk_user_id r" "pk_cred_id r" "pk_passkey r"]
    by (simp add: record_key_def row_creds_def [of rows w] passkey_record_eta)
qed

lemma pg_delete_contract:
  assumes "pg_delete_passkey D u c w = (Ok (), w')"
  shows "row_creds rows w' = (row_creds rows w)((u, c) := None)"
proof -
  obtain n where n: "pk_execute D delete_passkey_sql [SqlText u, SqlText c] w = (Inr n, w')"
    using assms by (auto simp: pg_delete_passkey_def io_Ok)
  from delete_row [OF n] show ?thesis by (rule row_creds_upd(2))
qed

end

sublocale passkey_sql \<subseteq> pg: passkey_store "pg_save_passkey D" "pg_get_passkeys D"
  "pg_update_passkey D" "pg_delete_passkey D" "row_creds rows" "\<lambda>_. True"
  using pg_get_contract pg_update_unknown pg_update_known pg_save_contract pg_delete_contract
  by unfold_locales simp_all

section \<open>The configured handle\<close>

text \<open>
  The handle delegates to the store it holds, so it provides the contract when that store is over
  a working cell or a working table; its abstraction is that of the store.
\<close>

definition handle_creds ::
  "('w \<Rightarrow> string \<times> string \<rightharpoonup> 'p) \<Rightarrow> ('w, 'p) passkey_store_handle \<Rightarrow> 'w \<Rightarrow> 'p credentials" where
  "handle_creds rows h =
     (case h of PostgresStore _ \<Rightarrow> row_creds rows | MemoryStore C \<Rightarrow> cell_creds C)"

definition handle_inv :: "('w, 'p) passkey_store_handle \<Rightarrow> 'w \<Rightarrow> bool" where
  "handle_inv h w = (case h of PostgresStore _ \<Rightarrow> True | MemoryStore C \<Rightarrow> cell_inv C w)"

locale configured_passkeys =
  fixes h :: "('w, 'p) passkey_store_handle" and rows :: "'w \<Rightarrow> string \<times> string \<rightharpoonup> 'p"
  assumes table_works: "h = PostgresStore D \<Longrightarrow> passkey_sql D rows"
    and cell_works: "h = MemoryStore C \<Longrightarrow> passkey_cell C"

context passkey_cell begin

lemma cell_provides: "passkey_store (mem_save_passkey C) (mem_get_passkeys C)
    (mem_update_passkey C) (mem_delete_passkey C) (cell_creds C) (cell_inv C)"
  by (rule mem.passkey_store_axioms)

end

context passkey_sql begin

lemma table_provides: "passkey_store (pg_save_passkey D) (pg_get_passkeys D)
    (pg_update_passkey D) (pg_delete_passkey D) (row_creds rows) (\<lambda>_. True)"
  by (rule pg.passkey_store_axioms)

end

lemma handle_functions:
  "save_passkey (PostgresStore D) = pg_save_passkey D"
  "save_passkey (MemoryStore C) = mem_save_passkey C"
  "get_passkeys (PostgresStore D) = pg_get_passkeys D"
  "get_passkeys (MemoryStore C) = mem_get_passkeys C"
  "update_passkey (PostgresStore D) = pg_update_passkey D"
  "update_passkey (MemoryStore C) = mem_update_passkey C"
  "delete_passkey (PostgresStore D) = pg_delete_passkey D"
  "delete_passkey (MemoryStore C) = mem_delete_passkey C"
  "handle_inv (PostgresStore D) = (\<lambda>_. True)"
  "handle_inv (MemoryStore C) = cell_inv C"
  by (simp_all add: fun_eq_iff handle_inv_def)

sublocale configured_passkeys \<subseteq> ps: passkey_store "save_passkey h" "get_passkeys h"
  "update_passkey h" "delete_passkey h" "handle_creds rows h" "handle_inv h"
proof (cases h)
  case (PostgresStore D)
  with passkey_sql.table_provides [OF table_works] show
    "passkey_store (save_passkey h) (get_passkeys h) (update_passkey h) (delete_passkey h)
       (handle_creds rows h) (handle_inv h)"
    by (simp add: handle_functions handle_creds_def)
next
  case (MemoryStore C)
  with passkey_cell.cell_provides [OF cell_works] show
    "passkey_store (save_passkey h) (get_passkeys h) (update_passkey h) (delete_passkey h)
       (handle_creds rows h) (handle_inv h)"
    by (simp add: handle_functions handle_creds_def)
qed

context configured_passkeys begin

lemmas handle_saved_got = ps.saved_got
  and handle_deleted_not_got = ps.deleted_not_got
  and handle_refreshed = ps.refreshed

lemma handle_provides: "passkey_store (save_passkey h) (get_passkeys h)
    (update_passkey h) (delete_passkey h) (handle_creds rows h) (handle_inv h)"
  by (rule ps.passkey_store_axioms)

text \<open>
  A second save of a stored credential: refused by the table, silently replacing in memory.
\<close>

lemma handle_duplicate:
  assumes "save_passkey h r w = (rs, w')" "handle_creds rows h w (record_key r) \<noteq> None"
  shows "case h of
      PostgresStore D \<Rightarrow> rs \<noteq> Ok ()
    | MemoryStore C \<Rightarrow> rs = Ok () \<and> handle_creds rows h w' (record_key r) = Some r"
proof (cases h)
  case (PostgresStore D)
  with assms passkey_sql.pg_save_contract [OF table_works, of D r w w'] show ?thesis
    by (auto simp: handle_functions handle_creds_def)
next
  case (MemoryStore C)
  with assms passkey_cell.cell_get_set [OF cell_works, of C] show ?thesis
    by (auto simp: mem_save_passkey_def handle_functions handle_creds_def cell_creds_def
        update_conv')
qed

end

section \<open>What callers of either store can rely on\<close>

text \<open>A process whose whole memory is the map.\<close>

definition map_cell :: "(nat passkey_map, nat) memory_cell" where
  "map_cell = \<lparr>cell_get = id, cell_set = (\<lambda>m _. m)\<rparr>"

definition sample_credential :: "nat passkey_record" where
  "sample_credential = \<lparr>pk_user_id = ''user-1'', pk_cred_id = ''dGVzdA'', pk_passkey = 7\<rparr>"

interpretation map_passkeys: passkey_cell map_cell
  by unfold_locales (simp add: map_cell_def)

interpretation map_handle: configured_passkeys "MemoryStore map_cell" "\<lambda>_ _. None"
  by unfold_locales (auto simp: map_cell_def)

text \<open>C33: Whichever store the configuration selects, a passkey that was saved is in the list of
  its user and of no other user, and a passkey that was deleted is in no later list.\<close>

theorem passkey_save_delete:
  assumes "configured_passkeys h rows" "handle_inv h w0"
    and "save_passkey h r w0 = (Ok (), w1)" "get_passkeys h u w1 = (Ok rs, w2)"
    and "delete_passkey h (pk_user_id r) (pk_cred_id r) w2 = (Ok (), w3)"
    and "get_passkeys h (pk_user_id r) w3 = (Ok rs', w4)"
  shows "(r \<in> set rs \<longleftrightarrow> u = pk_user_id r) \<and> pk_cred_id r \<notin> pk_cred_id ` set rs'"
proof -
  note contract = configured_passkeys.handle_provides [OF assms(1)]
  have inv: "handle_inv h w1" "handle_inv h w2"
    using passkey_store.save_Ok [OF contract assms(3,2)]
      passkey_store.get_Ok [OF contract assms(4)] by blast+
  show ?thesis
    using configured_passkeys.handle_saved_got [OF assms(1,3,2,4)]
      configured_passkeys.handle_deleted_not_got [OF assms(1,5) inv(2) assms(6)] by fastforce
qed

theorem passkey_save_delete_witness:
  "(sample_credential \<in> set [sample_credential] \<longleftrightarrow> ''user-1'' = pk_user_id sample_credential)
   \<and> pk_cred_id sample_credential \<notin> pk_cred_id ` set ([] :: nat passkey_record list)"
  by (rule passkey_save_delete [OF map_handle.configured_passkeys_axioms, of "[]" _
        "[((''user-1'', ''dGVzdA''), sample_credential)]" _ _
        "[((''user-1'', ''dGVzdA''), sample_credential)]" "[]" _ "[]"])
    (simp_all add: handle_functions cell_inv_def cell_creds_def keyed_by_record_def map_cell_def
      mem_save_passkey_def mem_get_passkeys_def mem_delete_passkey_def sample_credential_def pk_key_def)

text \<open>C36: Saving a credential that is already stored is an error in Postgres, whereas the
  in-memory store accepts it and replaces the stored passkey, sign counter included: the trait
  says (user, credential) is unique, the two stores disagree on a duplicate.\<close>

theorem passkey_duplicate_save:
  assumes "configured_passkeys h rows"
    and "save_passkey h r w = (rs, w')" "handle_creds rows h w (record_key r) \<noteq> None"
  shows "case h of
      PostgresStore D \<Rightarrow> rs \<noteq> Ok ()
    | MemoryStore C \<Rightarrow> rs = Ok () \<and> handle_creds rows h w' (record_key r) = Some r"
  using configured_passkeys.handle_duplicate [OF assms(1-3)] .

theorem passkey_duplicate_save_witness:
  "Ok () = (Ok () :: unit proxy_result)
   \<and> handle_creds (\<lambda>_ _. None) (MemoryStore map_cell)
       [((''user-1'', ''dGVzdA''), sample_credential\<lparr>pk_passkey := 0\<rparr>)]
       (record_key (sample_credential\<lparr>pk_passkey := 0\<rparr>))
     = Some (sample_credential\<lparr>pk_passkey := 0\<rparr>)"
  using passkey_duplicate_save [OF map_handle.configured_passkeys_axioms,
      of "sample_credential\<lparr>pk_passkey := 0\<rparr>" "[((''user-1'', ''dGVzdA''), sample_credential)]"
         "Ok ()" "[((''user-1'', ''dGVzdA''), sample_credential\<lparr>pk_passkey := 0\<rparr>)]"]
  by (simp add: handle_functions mem_save_passkey_def map_cell_def sample_credential_def
      handle_creds_def cell_creds_def record_key_def pk_key_def)

end
