(* ===== verification/Passkey_Claims.thy ===== *)
theory Passkey_Claims
  imports Passkey_Store
begin

text \<open>
  The authentication ceremony over the store the configuration selects: what it is started with,
  what the refresh after it leaves in the store, and what becomes of a credential that is deleted
  while its authentication is under way.
\<close>

section \<open>From the contract of the store\<close>

context passkey_store begin

text \<open>An authentication is started with the user's stored passkeys, if there are any.\<close>

lemma ceremony_starts:
  assumes "get u w = (Ok rs, w1)" "inv w"
  shows "start_passkey_authentication lib wn (map pk_passkey rs) w1 =
      (if \<exists>r. creds w (record_key r) = Some r \<and> pk_user_id r = u
       then call_io ceremony_err (lib wn (map pk_passkey rs)) w1
       else (Err (AuthenticationFailed ''no passkeys enrolled for this user''), w1))"
proof -
  have "rs \<noteq> [] \<longleftrightarrow> (\<exists>r. creds w (record_key r) = Some r \<and> pk_user_id r = u)"
    using get_Ok [OF assms] by (auto simp: set_empty [symmetric] simp del: set_empty)
  then show ?thesis
    by (auto simp: start_passkey_authentication_def throw_def)
qed

text \<open>A refresh that succeeds replaces the record it was called with, and that one only.\<close>

lemma refresh_Ok:
  assumes "refresh_passkey upd update r res w = (Ok r', w1)" "inv w"
  shows "r' = r\<lparr>pk_passkey := upd (pk_passkey r) res\<rparr> \<and> inv w1
    \<and> creds w1 = (creds w)(record_key r \<mapsto> r')"
proof -
  let ?r = "r\<lparr>pk_passkey := upd (pk_passkey r) res\<rparr>"
  have u: "update ?r w = (Ok (), w1)" "r' = ?r"
    using assms(1) by (auto simp: refresh_passkey_def Let_def io_Ok)
  have "record_key ?r = record_key r" by (simp add: record_key_def)
  with update_Ok [OF u(1) assms(2)] u(2) show ?thesis by simp
qed

lemma refresh_unknown:
  assumes "refresh_passkey upd update r res w = (a, w1)" "inv w" "creds w (record_key r) = None"
  shows "(\<forall>r'. a \<noteq> Ok r') \<and> creds w1 = creds w"
proof -
  let ?r = "r\<lparr>pk_passkey := upd (pk_passkey r) res\<rparr>"
  obtain b w2 where b: "update ?r w = (b, w2)" by fastforce
  have "creds w (record_key ?r) = None" using assms(3) by (simp add: record_key_def)
  from update_unknown [OF b assms(2) this] have "b \<noteq> Ok ()" "creds w2 = creds w" by blast+
  with b assms(1) show ?thesis
    by (cases b) (auto simp: refresh_passkey_def Let_def io_run)
qed

text \<open>The list of the user before and after.\<close>

lemma refreshed_list:
  assumes "get u w = (Ok rs, w1)" "inv w" "r \<in> set rs"
    and "refresh_passkey upd update r res w1 = (Ok r', w2)" "get u w2 = (Ok rs', w3)"
  shows "set rs' = insert (r\<lparr>pk_passkey := upd (pk_passkey r) res\<rparr>) (set rs - {r})"
proof -
  note before = get_Ok [OF assms(1,2)]
  with refresh_Ok [OF assms(4)] have r': "r' = r\<lparr>pk_passkey := upd (pk_passkey r) res\<rparr>" "inv w2"
    and creds: "creds w2 = (creds w)(record_key r \<mapsto> r')" by simp_all
  have key: "record_key r' = record_key r" "pk_user_id r' = u" "creds w (record_key r) = Some r"
    using before assms(3) r'(1) by (auto simp: record_key_def)
  have "set rs' = {s. creds w2 (record_key s) = Some s \<and> pk_user_id s = u}"
    using get_Ok [OF assms(5) r'(2)] by blast
  with creds key before r'(1) show ?thesis by auto
qed

lemma deleted_not_refreshed:
  assumes "delete (pk_user_id r) (pk_cred_id r) w = (Ok v, w1)" "inv w"
    and "refresh_passkey upd update r res w1 = (a, w2)"
  shows "(\<forall>r'. a \<noteq> Ok r') \<and> creds w2 = (creds w)(record_key r := None)"
proof -
  from delete_Ok [OF assms(1,2)] have "inv w1" "creds w1 = (creds w)(record_key r := None)"
    by (simp_all add: record_key_def)
  with refresh_unknown [OF assms(3)] show ?thesis by simp
qed

end

section \<open>For the configured store\<close>

text \<open>C34: A passkey authentication uses exactly the stored credentials of the user and refreshes
  exactly one of them, in Postgres and in memory. Started from the records that `get_passkeys`
  returned, it reaches the library with their passkeys when the user has a stored credential,
  and fails with "no passkeys enrolled for this user", calling nothing, when he has none. When
  `refresh_passkey` then succeeds for one of these records, the record it returns holds the
  passkey with the new counter, and a later list holds that record in place of the old one and
  otherwise what it held before.\<close>

theorem passkey_authentication:
  assumes "configured_passkeys h rows" "handle_inv h w0" "get_passkeys h u w0 = (Ok rs, w1)"
  shows "start_passkey_authentication lib wn (map pk_passkey rs) w1 =
      (if \<exists>r. handle_creds rows h w0 (record_key r) = Some r \<and> pk_user_id r = u
       then call_io ceremony_err (lib wn (map pk_passkey rs)) w1
       else (Err (AuthenticationFailed ''no passkeys enrolled for this user''), w1))
    \<and> (r \<in> set rs \<and> refresh_passkey upd (update_passkey h) r res w1 = (Ok r', w2)
         \<and> get_passkeys h u w2 = (Ok rs', w3) \<longrightarrow>
       r' = r\<lparr>pk_passkey := upd (pk_passkey r) res\<rparr> \<and> set rs' = insert r' (set rs - {r}))"
proof -
  note store = configured_passkeys.handle_provides [OF assms(1)]
  have "r' = r\<lparr>pk_passkey := upd (pk_passkey r) res\<rparr> \<and> set rs' = insert r' (set rs - {r})"
    if "r \<in> set rs" "refresh_passkey upd (update_passkey h) r res w1 = (Ok r', w2)"
      "get_passkeys h u w2 = (Ok rs', w3)"
    using passkey_store.refreshed_list [OF store assms(3,2) that]
      passkey_store.refresh_Ok [OF store that(2)] passkey_store.get_Ok [OF store assms(3,2)] by simp
  with passkey_store.ceremony_starts [OF store assms(3,2), of lib wn] show ?thesis by blast
qed

theorem passkey_authentication_witness:
  "start_passkey_authentication (\<lambda>_ ps w. (Inr (sum_list ps), w)) () [7 :: nat]
     [((''user-1'', ''dGVzdA''), sample_credential)] =
   (Ok 7, [((''user-1'', ''dGVzdA''), sample_credential)])
   \<and> set [sample_credential\<lparr>pk_passkey := 8\<rparr>] =
     insert (sample_credential\<lparr>pk_passkey := 8\<rparr>) (set [sample_credential] - {sample_credential})"
proof -
  let ?w = "[((''user-1'', ''dGVzdA''), sample_credential)]"
  let ?w' = "[((''user-1'', ''dGVzdA''), sample_credential\<lparr>pk_passkey := 8\<rparr>)]"
  note cell = handle_functions cell_inv_def cell_creds_def keyed_by_record_def map_cell_def
    mem_get_passkeys_def mem_update_passkey_def sample_credential_def pk_key_def record_key_def
    refresh_passkey_def handle_creds_def bind_io_def ret_def Let_def
  have pre: "handle_inv (MemoryStore map_cell) ?w"
    "get_passkeys (MemoryStore map_cell) ''user-1'' ?w = (Ok [sample_credential], ?w)"
    "refresh_passkey (+) (update_passkey (MemoryStore map_cell)) sample_credential 1 ?w
      = (Ok (sample_credential\<lparr>pk_passkey := 8\<rparr>), ?w')"
    "get_passkeys (MemoryStore map_cell) ''user-1'' ?w' = (Ok [sample_credential\<lparr>pk_passkey := 8\<rparr>], ?w')"
    by (simp_all add: cell)
  have "handle_creds (\<lambda>_ _. None) (MemoryStore map_cell) ?w (record_key sample_credential)
      = Some sample_credential \<and> pk_user_id sample_credential = ''user-1''"
    by (simp add: cell)
  then have "\<exists>r. handle_creds (\<lambda>_ _. None) (MemoryStore map_cell) ?w (record_key r) = Some r
      \<and> pk_user_id r = ''user-1''" by blast
  note ex = this
  note auth = passkey_authentication [OF map_handle.configured_passkeys_axioms pre(1,2),
      of "\<lambda>_ ps w. (Inr (sum_list ps), w)" "()" sample_credential "(+)" 1]
  have "start_passkey_authentication (\<lambda>_ ps w. (Inr (sum_list ps), w)) ()
      (map pk_passkey [sample_credential]) ?w
      = call_io ceremony_err (\<lambda>w. (Inr (sum_list (map pk_passkey [sample_credential])), w)) ?w"
    using auth [THEN conjunct1] ex by (simp only: if_True)
  then have "start_passkey_authentication (\<lambda>_ ps w. (Inr (sum_list ps), w)) () [7 :: nat] ?w = (Ok 7, ?w)"
    by (simp add: sample_credential_def call_io_def)
  moreover have "set [sample_credential\<lparr>pk_passkey := 8\<rparr>] =
      insert (sample_credential\<lparr>pk_passkey := 8\<rparr>) (set [sample_credential] - {sample_credential})"
    using auth [THEN conjunct2, THEN mp, OF conjI [OF _ conjI [OF pre(3,4)]]] by simp
  ultimately show ?thesis ..
qed

text \<open>C35: A credential that was deleted does not come back. If it is deleted between the start of
  an authentication and the `refresh_passkey` at its end, the refresh does not succeed, whatever
  record and result it is called with, and the stored credentials are those before the deletion
  without the deleted one: neither store re-creates a row on update.\<close>

theorem passkey_not_resurrected:
  assumes "configured_passkeys h rows" "handle_inv h w0"
    and "delete_passkey h (pk_user_id r) (pk_cred_id r) w0 = (Ok (), w1)"
    and "refresh_passkey upd (update_passkey h) r res w1 = (a, w2)"
  shows "(\<forall>r'. a \<noteq> Ok r')
    \<and> handle_creds rows h w2 = (handle_creds rows h w0)(record_key r := None)"
  by (rule passkey_store.deleted_not_refreshed [OF configured_passkeys.handle_provides [OF assms(1)]
        assms(3,2,4)])

theorem passkey_not_resurrected_witness:
  "(\<forall>r'. (Err (unknown_passkey (sample_credential\<lparr>pk_passkey := 8\<rparr>)) :: nat passkey_record proxy_result) \<noteq> Ok r')
   \<and> handle_creds (\<lambda>_ _. None) (MemoryStore map_cell) [] =
     (handle_creds (\<lambda>_ _. None) (MemoryStore map_cell)
       [((''user-1'', ''dGVzdA''), sample_credential)])(record_key sample_credential := None)"
  by (rule passkey_not_resurrected [OF map_handle.configured_passkeys_axioms, of
        "[((''user-1'', ''dGVzdA''), sample_credential)]" sample_credential "[]" "(+)" 1])
    (simp_all add: handle_functions cell_inv_def cell_creds_def keyed_by_record_def map_cell_def
      mem_delete_passkey_def mem_update_passkey_def sample_credential_def pk_key_def record_key_def
      refresh_passkey_def bind_io_def Let_def)

end
