(* ===== verification/Redis.thy ===== *)
theory Redis
  imports Platform
begin

text \<open>
  Redis as the proxy uses it, through \<^verbatim>\<open>redis::AsyncCommands\<close>: one field per
  command, a parameter of every operation that calls it. What Redis documents of the commands
  is the locale \<open>redis_kv\<close> for string keys with an expiry and \<open>redis_counter\<close> for counters,
  both for a run in which no other client writes the same keys between two commands. A command
  that fails may or may not have been carried out. The laws speak of the keys the proxy uses each
  command on: those beginning \<open>session:\<close> hold strings, those beginning \<open>ratelimit:\<close> counters.

  A scan returns the keys the iterator yielded and whether it ran to the end:
  \<open>AsyncIter::next_item\<close> answers \<open>None\<close> both at the end of the keyspace and on an error.
\<close>

record 'w redis =
  redis_get :: "string \<Rightarrow> ('w, string option) call"
  redis_set_ex :: "string \<Rightarrow> string \<Rightarrow> u64 \<Rightarrow> ('w, unit) call"
  redis_del :: "string \<Rightarrow> ('w, unit) call"
  redis_scan_match :: "string \<Rightarrow> ('w, string list \<times> bool) call"
  redis_incr :: "string \<Rightarrow> int \<Rightarrow> ('w, int) call"
  redis_expire :: "string \<Rightarrow> int \<Rightarrow> ('w, unit) call"

section \<open>String keys\<close>

text \<open>
  The entries of a world are the stored strings with their deadlines. An entry is live before
  its deadline and gone from then on.
\<close>

type_synonym entries = "string \<rightharpoonup> string \<times> instant"

definition live :: "entries \<Rightarrow> instant \<Rightarrow> string \<rightharpoonup> string" where
  "live e t k = (case e k of Some (v, d) \<Rightarrow> if t < d then Some v else None | None \<Rightarrow> None)"

lemma live_None [simp]: "e k = None \<Longrightarrow> live e t k = None"
  by (simp add: live_def)

lemma live_SomeD: "live e t k = Some v \<Longrightarrow> \<exists>d. e k = Some (v, d) \<and> t < d"
  by (auto simp: live_def split: option.splits prod.splits if_splits)

lemma live_earlier: "live e t k = Some v \<Longrightarrow> t' \<le> t \<Longrightarrow> live e t' k = Some v"
  by (auto simp: live_def split: option.splits prod.splits if_splits)

text \<open>\<open>SETEX k v ttl\<close> carried out at some moment between the two worlds.\<close>

definition stores ::
  "('w \<Rightarrow> entries) \<Rightarrow> ('w \<Rightarrow> instant) \<Rightarrow> string \<Rightarrow> string \<Rightarrow> u64 \<Rightarrow> 'w \<Rightarrow> 'w \<Rightarrow> bool" where
  "stores ent tm k v ttl w w' \<longleftrightarrow>
     (\<exists>t. tm w \<le> t \<and> t \<le> tm w' \<and> ent w' = (ent w)(k \<mapsto> (v, t + uint ttl * nanos_per_second)))"

text \<open>Nothing stored changes and server time does not run backwards.\<close>

definition quiet :: "('w \<Rightarrow> entries) \<Rightarrow> ('w \<Rightarrow> instant) \<Rightarrow> 'w \<Rightarrow> 'w \<Rightarrow> bool" where
  "quiet ent tm w w' \<longleftrightarrow> ent w' = ent w \<and> tm w \<le> tm w'"

lemma reflp_quiet: "reflp (quiet ent tm)"
  by (simp add: reflp_def quiet_def)

lemma transp_quiet: "transp (quiet ent tm)"
  by (auto simp: transp_def quiet_def)

locale redis_kv =
  fixes R :: "'w redis"
    and ent :: "'w \<Rightarrow> entries"
    and tm :: "'w \<Rightarrow> instant"
  assumes get_quiet: "redis_get R k w = (r, w') \<Longrightarrow> quiet ent tm w w'"
    and get_reads: "redis_get R k w = (Inr x, w') \<Longrightarrow> prefix ''session:'' k \<Longrightarrow>
      \<exists>t. tm w \<le> t \<and> t \<le> tm w' \<and> x = live (ent w) t k"
    and set_ex_stores: "redis_set_ex R k v ttl w = (Inr u, w') \<Longrightarrow> prefix ''session:'' k \<Longrightarrow>
      stores ent tm k v ttl w w'"
    and set_ex_fails: "redis_set_ex R k v ttl w = (Inl e, w') \<Longrightarrow> prefix ''session:'' k \<Longrightarrow>
      quiet ent tm w w' \<or> stores ent tm k v ttl w w'"
    and del_removes: "redis_del R k w = (Inr u, w') \<Longrightarrow> prefix ''session:'' k \<Longrightarrow>
      ent w' = (ent w)(k := None) \<and> tm w \<le> tm w'"
    and del_fails: "redis_del R k w = (Inl e, w') \<Longrightarrow> prefix ''session:'' k \<Longrightarrow>
      (ent w' = ent w \<or> ent w' = (ent w)(k := None)) \<and> tm w \<le> tm w'"
    and scan_quiet: "redis_scan_match R (''session:'' @ ''*'') w = (q, w') \<Longrightarrow> quiet ent tm w w'"
    and scan_yields: "redis_scan_match R (''session:'' @ ''*'') w = (Inr (ks, complete), w') \<Longrightarrow>
      k \<in> set ks \<Longrightarrow> prefix ''session:'' k"
    and scan_covers: "redis_scan_match R (''session:'' @ ''*'') w = (Inr (ks, True), w') \<Longrightarrow>
      prefix ''session:'' k \<Longrightarrow> live (ent w) (tm w') k = Some v \<Longrightarrow> k \<in> set ks"
begin

lemma within_get: "moves (quiet ent tm) (redis_get R k)"
  by (rule withinI) (rule get_quiet)

lemma within_scan: "moves (quiet ent tm) (redis_scan_match R (''session:'' @ ''*''))"
  by (rule withinI) (rule scan_quiet)

lemma time_set_ex: "redis_set_ex R k v ttl w = (r, w') \<Longrightarrow> prefix ''session:'' k \<Longrightarrow> tm w \<le> tm w'"
  using set_ex_stores [of k v ttl w _ w'] set_ex_fails [of k v ttl w _ w']
  by (cases r) (force simp: stores_def quiet_def)+

lemma time_del: "redis_del R k w = (r, w') \<Longrightarrow> prefix ''session:'' k \<Longrightarrow> tm w \<le> tm w'"
  using del_removes [of k w _ w'] del_fails [of k w _ w'] by (cases r) auto

end

section \<open>Counters\<close>

text \<open>A counter key holds an integer and, once \<open>EXPIRE\<close> was called, a deadline.\<close>

type_synonym counters = "string \<rightharpoonup> int \<times> instant option"

definition counter_at :: "counters \<Rightarrow> instant \<Rightarrow> string \<rightharpoonup> int \<times> instant option" where
  "counter_at c t k =
     (case c k of
        Some (n, Some d) \<Rightarrow> if t < d then Some (n, Some d) else None
      | x \<Rightarrow> x)"

definition incremented :: "counters \<Rightarrow> instant \<Rightarrow> string \<Rightarrow> int \<Rightarrow> int \<times> instant option" where
  "incremented c t k by_n =
     (case counter_at c t k of Some (n, d) \<Rightarrow> (n + by_n, d) | None \<Rightarrow> (by_n, None))"

locale redis_counter =
  fixes R :: "'w redis"
    and ctr :: "'w \<Rightarrow> counters"
    and tm :: "'w \<Rightarrow> instant"
  assumes incr_counts: "redis_incr R k n w = (Inr c, w') \<Longrightarrow> prefix ''ratelimit:'' k \<Longrightarrow>
      \<exists>t. tm w \<le> t \<and> t \<le> tm w' \<and> fst (incremented (ctr w) t k n) = c
        \<and> ctr w' = (ctr w)(k \<mapsto> incremented (ctr w) t k n)"
    and expire_sets: "redis_expire R k secs w = (Inr u, w') \<Longrightarrow> prefix ''ratelimit:'' k \<Longrightarrow>
      \<exists>t. tm w \<le> t \<and> t \<le> tm w' \<and>
        ctr w' = (case counter_at (ctr w) t k of
            Some (n, d) \<Rightarrow> (ctr w)(k \<mapsto> (n, Some (t + secs * nanos_per_second)))
          | None \<Rightarrow> ctr w)"
begin

lemma incr_time: "redis_incr R k n w = (Inr c, w') \<Longrightarrow> prefix ''ratelimit:'' k \<Longrightarrow> tm w \<le> tm w'"
  using incr_counts by fastforce

lemma expire_time:
  "redis_expire R k secs w = (Inr u, w') \<Longrightarrow> prefix ''ratelimit:'' k \<Longrightarrow> tm w \<le> tm w'"
  using expire_sets by fastforce

end

end
