(* ===== verification/Session.thy ===== *)
theory Session
  imports Redis
begin

text \<open>
  \<^verbatim>\<open>src/src/auth/session.rs\<close>: a session, and the manager that keeps the
  sessions in Redis under \<open>session:<id>\<close> as JSON text. What the manager offers its callers is
  the locale \<open>session_store\<close> (theory Session_Store), which the manager's operations provide.
\<close>

record session =
  sess_id :: string
  sess_user_id :: string
  sess_device_id :: string
  created_at :: instant
  expires_at :: instant
  last_activity :: instant
  sess_ip_address :: string
  sess_user_agent :: string
  sess_mfa_verified :: bool
  sess_risk_score :: u32

text \<open>\<open>serde_json::to_string\<close> and \<open>from_str\<close> at type \<open>Session\<close>.\<close>

record session_codec =
  session_to_json :: "session \<Rightarrow> string + string"
  session_of_json :: "string \<Rightarrow> string + session"

record 'w session_manager =
  sm_platform :: "'w platform"
  sm_redis :: "'w redis"
  sm_codec :: session_codec
  session_duration_minutes :: int

definition new_session ::
  "'w platform \<Rightarrow> string \<Rightarrow> string \<Rightarrow> string \<Rightarrow> string \<Rightarrow> int \<Rightarrow> ('w, session) proxy_io" where
  "new_session P user dev ip ua dur =
     bind_io (read_io (utc_now P)) (\<lambda>now.
       case plus_minutes now dur of
         None \<Rightarrow> lift_res Panic
       | Some ends \<Rightarrow>
           bind_io (read_io (uuid_v4 P)) (\<lambda>i.
             ret \<lparr>sess_id = i, sess_user_id = user, sess_device_id = dev, created_at = now,
                  expires_at = ends, last_activity = now, sess_ip_address = ip,
                  sess_user_agent = ua, sess_mfa_verified = False, sess_risk_score = 0\<rparr>))"

definition is_expired :: "'w platform \<Rightarrow> session \<Rightarrow> ('w, bool) read" where
  "is_expired P s w = (case utc_now P w of (now, w') \<Rightarrow> (expires_at s < now, w'))"

definition update_activity :: "'w platform \<Rightarrow> session \<Rightarrow> ('w, session) read" where
  "update_activity P s w = (case utc_now P w of (now, w') \<Rightarrow> (s\<lparr>last_activity := now\<rparr>, w'))"

definition session_key :: "string \<Rightarrow> string" where
  "session_key i = ''session:'' @ i"

definition serialize_session :: "'w session_manager \<Rightarrow> session \<Rightarrow> ('w, string) proxy_io" where
  "serialize_session M s = lift_res (of_sum SerializationError (session_to_json (sm_codec M) s))"

text \<open>\<open>ttl as u64\<close> keeps the bits of the wrapped \<open>i64\<close> product.\<close>

definition create_session ::
  "'w session_manager \<Rightarrow> string \<Rightarrow> string \<Rightarrow> string \<Rightarrow> string \<Rightarrow> ('w, session) proxy_io" where
  "create_session M user dev ip ua =
     bind_io (new_session (sm_platform M) user dev ip ua (session_duration_minutes M))
       (\<lambda>s. bind_io (serialize_session M s) (\<lambda>text.
         let ttl = word_of_int (session_duration_minutes M * 60) in
         bind_io (call_io RedisError (redis_set_ex (sm_redis M) (session_key (sess_id s)) text ttl))
           (\<lambda>_. ret s)))"

definition update_session :: "'w session_manager \<Rightarrow> session \<Rightarrow> ('w, unit) proxy_io" where
  "update_session M s =
     bind_io (serialize_session M s) (\<lambda>text.
     bind_io (read_io (utc_now (sm_platform M))) (\<lambda>now.
       let ttl = num_seconds (expires_at s - now) in
       if ttl > 0
       then call_io RedisError
              (redis_set_ex (sm_redis M) (session_key (sess_id s)) text (word_of_int ttl))
       else ret ()))"

definition delete_session :: "'w session_manager \<Rightarrow> string \<Rightarrow> ('w, unit) proxy_io" where
  "delete_session M i = call_io RedisError (redis_del (sm_redis M) (session_key i))"

definition get_session :: "'w session_manager \<Rightarrow> string \<Rightarrow> ('w, session) proxy_io" where
  "get_session M i =
     bind_io (call_io RedisError (redis_get (sm_redis M) (session_key i))) (\<lambda>data.
       case data of
         Some text \<Rightarrow>
           bind_io (lift_res (of_sum SerializationError (session_of_json (sm_codec M) text))) (\<lambda>s.
           bind_io (read_io (is_expired (sm_platform M) s)) (\<lambda>expired.
             if expired
             then bind_io (delete_session M i) (\<lambda>_. throw (InvalidSession ''Session expired''))
             else
               bind_io (read_io (update_activity (sm_platform M) s)) (\<lambda>s'.
               bind_io (update_session M s') (\<lambda>_. ret s'))))
       | None \<Rightarrow> throw (InvalidSession ''Session not found''))"

definition scan_session_keys :: "'w session_manager \<Rightarrow> ('w, string list) proxy_io" where
  "scan_session_keys M =
     bind_io (call_io RedisError (redis_scan_match (sm_redis M) ''session:*'')) (\<lambda>r. ret (fst r))"

text \<open>\<open>if let Ok(Some(data)) = redis.get(&key).await\<close>: an error counts as no data.\<close>

definition get_or_skip :: "'w session_manager \<Rightarrow> string \<Rightarrow> ('w, string option) read" where
  "get_or_skip M k w =
     (case redis_get (sm_redis M) k w of (Inr v, w') \<Rightarrow> (v, w') | (Inl _, w') \<Rightarrow> (None, w'))"

fun collect_sessions ::
  "'w session_manager \<Rightarrow> string \<Rightarrow> string list \<Rightarrow> session list \<Rightarrow> ('w, session list) proxy_io" where
  "collect_sessions M user [] acc = ret acc"
| "collect_sessions M user (k # ks) acc =
     bind_io (read_io (get_or_skip M k)) (\<lambda>data.
       case data of
         Some text \<Rightarrow>
           (case session_of_json (sm_codec M) text of
              Inr s \<Rightarrow>
                if sess_user_id s = user then
                  bind_io (read_io (is_expired (sm_platform M) s)) (\<lambda>expired.
                    collect_sessions M user ks (if \<not> expired then acc @ [s] else acc))
                else collect_sessions M user ks acc
            | Inl _ \<Rightarrow> collect_sessions M user ks acc)
       | None \<Rightarrow> collect_sessions M user ks acc)"

definition get_user_sessions :: "'w session_manager \<Rightarrow> string \<Rightarrow> ('w, session list) proxy_io" where
  "get_user_sessions M user =
     bind_io (scan_session_keys M) (\<lambda>keys. collect_sessions M user keys [])"

fun delete_sessions :: "'w session_manager \<Rightarrow> session list \<Rightarrow> ('w, unit) proxy_io" where
  "delete_sessions M [] = ret ()"
| "delete_sessions M (s # ss) =
     bind_io (delete_session M (sess_id s)) (\<lambda>_. delete_sessions M ss)"

definition revoke_user_sessions :: "'w session_manager \<Rightarrow> string \<Rightarrow> ('w, nat) proxy_io" where
  "revoke_user_sessions M user =
     bind_io (get_user_sessions M user) (\<lambda>ss.
       let count = length ss in
       bind_io (delete_sessions M ss) (\<lambda>_. ret count))"

end
