(* ===== verification/Reference_Text.thy ===== *)
theory Reference_Text
  imports Auth Session
begin

text \<open>
  Text formats for the reference services: a list of strings as one string, integers as text, and
  with them a session, a set of claims and a token. They stand where \<open>serde_json\<close> and
  \<open>jsonwebtoken\<close> stand in the proxy, and are proved to read back what they wrote.
\<close>

section \<open>Strings and lists of strings\<close>

definition put_string :: "string \<Rightarrow> string" where
  "put_string s = concat (map (\<lambda>c. [CHR ''x'', c]) s) @ [CHR ''.'']"

fun take_string :: "string \<Rightarrow> (string \<times> string) option" where
  "take_string [] = None"
| "take_string (m # r) =
     (if m = CHR ''.'' then Some ([], r)
      else (case r of
              [] \<Rightarrow> None
            | c # r' \<Rightarrow> map_option (\<lambda>(s, t). (c # s, t)) (take_string r')))"

definition put_strings :: "string list \<Rightarrow> string" where
  "put_strings ss = concat (map put_string ss)"

fun take_strings :: "nat \<Rightarrow> string \<Rightarrow> string list option" where
  "take_strings 0 t = (if t = [] then Some [] else None)"
| "take_strings (Suc n) t =
     (case take_string t of
        Some (s, r) \<Rightarrow> map_option (\<lambda>ss. s # ss) (take_strings n r)
      | None \<Rightarrow> None)"

lemma take_put_string: "take_string (put_string s @ t) = Some (s, t)"
  by (induction s) (simp_all add: put_string_def)

lemma take_put_strings: "take_strings (length ss) (put_strings ss) = Some ss"
  by (induction ss) (simp_all add: put_strings_def take_put_string)

section \<open>Integers\<close>

fun bits :: "nat \<Rightarrow> string" where
  "bits n = (if n = 0 then [] else (if odd n then CHR ''1'' else CHR ''0'') # bits (n div 2))"

declare bits.simps [simp del]

fun of_bits :: "string \<Rightarrow> nat" where
  "of_bits [] = 0"
| "of_bits (c # cs) = (if c = CHR ''1'' then 1 else 0) + 2 * of_bits cs"

definition put_int :: "int \<Rightarrow> string" where
  "put_int i = (if i < 0 then CHR ''-'' else CHR ''+'') # bits (nat \<bar>i\<bar>)"

definition take_int :: "string \<Rightarrow> int" where
  "take_int s = (if s \<noteq> [] \<and> hd s = CHR ''-'' then - int (of_bits (tl s)) else int (of_bits (tl s)))"

definition put_bool :: "bool \<Rightarrow> string" where
  "put_bool b = (if b then ''1'' else ''0'')"

definition take_bool :: "string \<Rightarrow> bool" where
  "take_bool s \<longleftrightarrow> s = ''1''"

lemma of_bits_bits: "of_bits (bits n) = n"
proof (induction n rule: bits.induct)
  case (1 n)
  show ?case
  proof (cases "n = 0")
    case False
    have "of_bits (bits n) = (if odd n then 1 else 0) + 2 * of_bits (bits (n div 2))"
      using False by (simp add: bits.simps [of n])
    also have "\<dots> = (if odd n then 1 else 0) + 2 * (n div 2)" using 1 False by simp
    also have "\<dots> = n" by presburger
    finally show ?thesis .
  qed (simp add: bits.simps)
qed

lemma take_put_int [simp]: "take_int (put_int i) = i"
  by (simp add: take_int_def put_int_def of_bits_bits)

lemma take_put_bool [simp]: "take_bool (put_bool b) = b"
  by (simp add: take_bool_def put_bool_def)

section \<open>Sessions\<close>

definition put_session :: "session \<Rightarrow> string" where
  "put_session s = put_strings [sess_id s, sess_user_id s, sess_device_id s,
     put_int (created_at s), put_int (expires_at s), put_int (last_activity s),
     sess_ip_address s, sess_user_agent s, put_bool (sess_mfa_verified s),
     put_int (uint (sess_risk_score s))]"

definition take_session :: "string \<Rightarrow> session option" where
  "take_session t =
     (case take_strings 10 t of
        Some [i, u, d, c, e, l, ip, ua, m, r] \<Rightarrow>
          Some \<lparr>sess_id = i, sess_user_id = u, sess_device_id = d, created_at = take_int c,
            expires_at = take_int e, last_activity = take_int l, sess_ip_address = ip,
            sess_user_agent = ua, sess_mfa_verified = take_bool m,
            sess_risk_score = word_of_int (take_int r)\<rparr>
      | _ \<Rightarrow> None)"

lemma take_put_session: "take_session (put_session s) = Some s"
  using take_put_strings [of "[sess_id s, sess_user_id s, sess_device_id s,
     put_int (created_at s), put_int (expires_at s), put_int (last_activity s),
     sess_ip_address s, sess_user_agent s, put_bool (sess_mfa_verified s),
     put_int (uint (sess_risk_score s))]"]
  by (simp add: put_session_def take_session_def numeral_eq_Suc del: take_strings.simps)

definition reference_codec :: session_codec where
  "reference_codec =
     \<lparr>session_to_json = (\<lambda>s. Inr (put_session s)),
      session_of_json = (\<lambda>t. case take_session t of Some s \<Rightarrow> Inr s | None \<Rightarrow> Inl ''bad session'')\<rparr>"

section \<open>Tokens\<close>

text \<open>A token is its claims and the secret it was signed with.\<close>

definition put_token :: "string \<Rightarrow> claims \<Rightarrow> string" where
  "put_token k c = put_strings [k, sub c, put_int (exp_at c), put_int (iat c), jti c,
     clm_session_id c, clm_device_id c, put_int (uint (clm_risk_score c)),
     put_bool (clm_mfa_verified c)]"

definition take_token :: "string \<Rightarrow> string \<Rightarrow> claims option" where
  "take_token k t =
     (case take_strings 9 t of
        Some [k', u, e, i, j, s, d, r, m] \<Rightarrow>
          (if k' = k then
             Some \<lparr>sub = u, exp_at = take_int e, iat = take_int i, jti = j, clm_session_id = s,
               clm_device_id = d, clm_risk_score = word_of_int (take_int r),
               clm_mfa_verified = take_bool m\<rparr>
           else None)
      | _ \<Rightarrow> None)"

lemma take_put_token: "take_token k (put_token k c) = Some c"
  using take_put_strings [of "[k, sub c, put_int (exp_at c), put_int (iat c), jti c,
     clm_session_id c, clm_device_id c, put_int (uint (clm_risk_score c)),
     put_bool (clm_mfa_verified c)]"]
  by (simp add: put_token_def take_token_def numeral_eq_Suc del: take_strings.simps)

end
