(* ===== verification/Session_Store.thy ===== *)
theory Session_Store
  imports Session
begin

text \<open>
  The contract of the session manager. \<open>session_store\<close> is what the request handlers rely on:
  how each operation moves the map from session ids to stored sessions, whatever its outcome.
  \<open>session_services\<close> is what the manager itself relies on: Redis (\<open>redis_kv\<close>), a clock and a
  random source that leave Redis alone, and a JSON codec that reads back what it wrote. The
  \<open>sublocale\<close> proves that the manager's operations provide the contract.
\<close>

text \<open>Two states of one session: only the activity stamp differs.\<close>

definition same_session :: "session \<Rightarrow> session \<Rightarrow> bool" where
  "same_session s s' \<longleftrightarrow> (\<exists>t. s' = s\<lparr>last_activity := t\<rparr>)"

lemma same_session_refl [simp, intro]: "same_session s s"
  unfolding same_session_def by (rule exI [of _ "last_activity s"]) simp

lemma same_session_trans: "same_session a b \<Longrightarrow> same_session b c \<Longrightarrow> same_session a c"
  by (auto simp: same_session_def)

lemma same_sessionD:
  "same_session s s' \<Longrightarrow> sess_id s' = sess_id s \<and> sess_user_id s' = sess_user_id s
     \<and> sess_device_id s' = sess_device_id s \<and> created_at s' = created_at s
     \<and> expires_at s' = expires_at s \<and> sess_ip_address s' = sess_ip_address s
     \<and> sess_user_agent s' = sess_user_agent s
     \<and> sess_mfa_verified s' = sess_mfa_verified s \<and> sess_risk_score s' = sess_risk_score s"
  by (auto simp: same_session_def)

text \<open>Server time has not run backwards.\<close>

definition later :: "('w \<Rightarrow> instant) \<Rightarrow> 'w \<Rightarrow> 'w \<Rightarrow> bool" where
  "later tm w w' \<longleftrightarrow> tm w \<le> tm w'"

lemma later_preorder: "reflp (later tm)" "transp (later tm)"
  by (auto simp: later_def reflp_def transp_def)

locale session_store =
  fixes create :: "string \<Rightarrow> string \<Rightarrow> string \<Rightarrow> string \<Rightarrow> ('w, session) proxy_io"
    and get :: "string \<Rightarrow> ('w, session) proxy_io"
    and update :: "session \<Rightarrow> ('w, unit) proxy_io"
    and delete :: "string \<Rightarrow> ('w, unit) proxy_io"
    and revoke :: "string \<Rightarrow> ('w, nat) proxy_io"
    and stored :: "'w \<Rightarrow> string \<rightharpoonup> session"
    and inv :: "'w \<Rightarrow> bool"
    and tm :: "'w \<Rightarrow> instant"
  assumes create_effect: "create u d ip ua w = (rc, w') \<Longrightarrow> inv w \<Longrightarrow>
      inv w' \<and> (stored w' = stored w \<or> (\<exists>s. sess_user_id s = u \<and> \<not> sess_mfa_verified s
        \<and> stored w' = (stored w)(sess_id s \<mapsto> s)))"
    and create_Ok: "create u d ip ua w = (Ok s, w') \<Longrightarrow> inv w \<Longrightarrow>
      stored w' = (stored w)(sess_id s \<mapsto> s) \<and> sess_user_id s = u \<and> sess_device_id s = d
        \<and> sess_ip_address s = ip \<and> sess_user_agent s = ua \<and> \<not> sess_mfa_verified s"
    and get_effect: "get i w = (rg, w') \<Longrightarrow> inv w \<Longrightarrow>
      inv w' \<and> (stored w' = stored w \<or> stored w' = (stored w)(i := None)
        \<or> (\<exists>s s'. stored w i = Some s \<and> same_session s s' \<and> stored w' = (stored w)(i \<mapsto> s')))"
    and get_Ok: "get i w = (Ok s, w') \<Longrightarrow> inv w \<Longrightarrow>
      \<exists>s0. stored w i = Some s0 \<and> same_session s0 s \<and> sess_id s = i \<and> tm w \<le> expires_at s"
    and update_effect: "update s w = (ru, w') \<Longrightarrow> inv w \<Longrightarrow>
      inv w' \<and> (stored w' = stored w \<or> stored w' = (stored w)(sess_id s \<mapsto> s))"
    and delete_effect: "delete i w = (rd, w') \<Longrightarrow> inv w \<Longrightarrow>
      inv w' \<and> (stored w' = stored w \<or> stored w' = (stored w)(i := None))"
    and delete_Ok: "delete i w = (Ok v, w') \<Longrightarrow> inv w \<Longrightarrow> stored w' = (stored w)(i := None)"
    and revoke_effect: "revoke u w = (rv, w') \<Longrightarrow> inv w \<Longrightarrow>
      inv w' \<and> (\<forall>i. stored w' i = stored w i
        \<or> (stored w' i = None \<and> (\<exists>s. stored w i = Some s \<and> sess_user_id s = u)))"
begin

text \<open>A session that is not stored cannot be got, and getting does not bring it back.\<close>

definition gone :: "string \<Rightarrow> 'w \<Rightarrow> bool" where
  "gone i w \<longleftrightarrow> inv w \<and> stored w i = None"

lemma delete_gone: "delete i w = (Ok v, w') \<Longrightarrow> inv w \<Longrightarrow> gone i w'"
  using delete_Ok delete_effect by (fastforce simp: gone_def)

lemma gone_get:
  assumes "get j w = (r, w')" "gone i w"
  shows "gone i w' \<and> (i = j \<longrightarrow> (\<forall>s. r \<noteq> Ok s))"
  using get_effect [OF assms(1)] get_Ok [of j w _ w'] assms by (auto simp: gone_def)

lemma gone_update: "update s w = (r, w') \<Longrightarrow> gone i w \<Longrightarrow> sess_id s \<noteq> i \<Longrightarrow> gone i w'"
  using update_effect [of s w r w'] by (auto simp: gone_def)

lemma gone_delete: "delete j w = (r, w') \<Longrightarrow> gone i w \<Longrightarrow> gone i w'"
  using delete_effect [of j w r w'] by (auto simp: gone_def)

lemma gone_revoke: "revoke u w = (r, w') \<Longrightarrow> gone i w \<Longrightarrow> gone i w'"
  using revoke_effect [of u w r w'] unfolding gone_def by (metis option.distinct(1))

text \<open>Getting a session never changes whom it belongs to, and never prolongs it.\<close>

lemma get_keeps:
  assumes "get i w = (r, w')" "inv w" "stored w' j = Some s'"
  shows "\<exists>s. stored w j = Some s \<and> same_session s s'"
  using get_effect [OF assms(1,2)] assms(3) by (auto split: if_splits)

end

section \<open>The manager provides it\<close>

definition stored_session ::
  "'w session_manager \<Rightarrow> ('w \<Rightarrow> entries) \<Rightarrow> 'w \<Rightarrow> string \<rightharpoonup> session" where
  "stored_session M ent w i =
     (case ent w (session_key i) of
        Some (js, _) \<Rightarrow>
          (case session_of_json (sm_codec M) js of Inr s \<Rightarrow> Some s | Inl _ \<Rightarrow> None)
      | None \<Rightarrow> None)"

text \<open>Every session key holds the JSON of a session with that id.\<close>

definition well_keyed :: "'w session_manager \<Rightarrow> ('w \<Rightarrow> entries) \<Rightarrow> 'w \<Rightarrow> bool" where
  "well_keyed M ent w \<longleftrightarrow>
     (\<forall>i js d. ent w (session_key i) = Some (js, d) \<longrightarrow>
        (\<exists>s. session_of_json (sm_codec M) js = Inr s \<and> sess_id s = i))"

lemma session_key_inject [simp]: "session_key i = session_key j \<longleftrightarrow> i = j"
  by (simp add: session_key_def)

lemma session_key_ns [simp]: "prefix ''session:'' (session_key i)"
  by (simp add: session_key_def)

lemma prefix_session_key: "prefix ''session:'' k \<longleftrightarrow> (\<exists>i. k = session_key i)"
  by (auto simp: session_key_def prefix_def)

lemma stored_session_quiet:
  "quiet ent tm w w' \<Longrightarrow> stored_session M ent w' = stored_session M ent w"
  "quiet ent tm w w' \<Longrightarrow> well_keyed M ent w' = well_keyed M ent w"
  by (auto simp: quiet_def stored_session_def well_keyed_def fun_eq_iff)

lemma stored_session_Some_iff:
  "stored_session M ent w i = Some s \<longleftrightarrow>
     (\<exists>js d. ent w (session_key i) = Some (js, d) \<and> session_of_json (sm_codec M) js = Inr s)"
  by (auto simp: stored_session_def split: option.splits sum.splits)

lemma well_keyed_id: "well_keyed M ent w \<Longrightarrow> stored_session M ent w i = Some s \<Longrightarrow> sess_id s = i"
  by (fastforce simp: stored_session_Some_iff well_keyed_def)

lemma stored_session_remove:
  assumes "ent w' = (ent w)(session_key i := None)"
  shows "stored_session M ent w' = (stored_session M ent w)(i := None)"
    "well_keyed M ent w \<Longrightarrow> well_keyed M ent w'"
  using assms by (auto simp: stored_session_def well_keyed_def fun_eq_iff)

lemma stored_session_put:
  assumes "ent w' = (ent w)(session_key (sess_id s) \<mapsto> (js, d))"
    and "session_of_json (sm_codec M) js = Inr s"
  shows "stored_session M ent w' = (stored_session M ent w)(sess_id s \<mapsto> s)"
    "well_keyed M ent w \<Longrightarrow> well_keyed M ent w'"
  using assms by (auto simp: stored_session_def well_keyed_def fun_eq_iff)

locale session_services = redis_kv "sm_redis M" ent tm
  for M :: "'w session_manager" and ent :: "'w \<Rightarrow> entries" and tm :: "'w \<Rightarrow> instant" +
  assumes now_quiet: "utc_now (sm_platform M) w = (t, w') \<Longrightarrow> quiet ent tm w w'"
    and now_reads: "utc_now (sm_platform M) w = (t, w') \<Longrightarrow> tm w \<le> t \<and> t \<le> tm w'"
    and uuid_quiet: "uuid_v4 (sm_platform M) w = (i, w') \<Longrightarrow> quiet ent tm w w'"
    and codec_round_trip: "session_to_json (sm_codec M) s = Inr js \<Longrightarrow>
      session_of_json (sm_codec M) js = Inr s"
begin

text \<open>The laws of the commands at session keys.\<close>

lemmas key_reads = get_reads [OF _ session_key_ns]
lemmas key_stores = set_ex_stores [OF _ session_key_ns] and key_stores_fails = set_ex_fails [OF _ session_key_ns]
lemmas key_removes = del_removes [OF _ session_key_ns] and key_removes_fails = del_fails [OF _ session_key_ns]
lemmas key_time = time_set_ex [OF _ session_key_ns] time_del [OF _ session_key_ns]

lemma set_session_effect:
  assumes "redis_set_ex (sm_redis M) (session_key (sess_id s)) js ttl w = (r, w')"
    and "session_to_json (sm_codec M) s = Inr js" "well_keyed M ent w"
  shows "well_keyed M ent w' \<and> (stored_session M ent w' = stored_session M ent w
      \<or> stored_session M ent w' = (stored_session M ent w)(sess_id s \<mapsto> s))"
proof (cases "quiet ent tm w w'")
  case True
  with assms(3) show ?thesis by (simp add: stored_session_quiet)
next
  case False
  with key_stores [of _ js ttl w _ w'] key_stores_fails [of _ js ttl w _ w'] assms(1)
  have "stores ent tm (session_key (sess_id s)) js ttl w w'"
    by (cases r) auto
  then obtain d where "ent w' = (ent w)(session_key (sess_id s) \<mapsto> (js, d))"
    by (auto simp: stores_def)
  from stored_session_put [OF this codec_round_trip [OF assms(2)]] assms(3) show ?thesis by simp
qed

lemma set_session_Ok:
  assumes "redis_set_ex (sm_redis M) (session_key (sess_id s)) js ttl w = (Inr u, w')"
    and "session_to_json (sm_codec M) s = Inr js"
  shows "stored_session M ent w' = (stored_session M ent w)(sess_id s \<mapsto> s)"
  using key_stores [OF assms(1)] stored_session_put(1) [OF _ codec_round_trip [OF assms(2)]]
  by (auto simp: stores_def)

end

text \<open>What each operation of the manager does to the stored sessions.\<close>

context session_services begin

lemma within_now: "moves (quiet ent tm) (utc_now (sm_platform M))"
  by (rule withinI) (rule now_quiet)

lemma within_uuid: "moves (quiet ent tm) (uuid_v4 (sm_platform M))"
  by (rule withinI) (rule uuid_quiet)

lemma within_new_session: "moves (quiet ent tm) (new_session (sm_platform M) u d ip ua dur)"
  unfolding new_session_def
  by (auto intro!: within_bind transp_quiet within_read within_now within_uuid within_pure
      reflp_quiet split: option.split)

lemma within_platform [io_within]:
  "moves (quiet ent tm) (is_expired (sm_platform M) s)"
  "moves (quiet ent tm) (update_activity (sm_platform M) s)"
  by (auto simp: is_expired_def update_activity_def moves_def split: prod.splits intro: now_quiet)

lemma update_session_effect:
  assumes "update_session M s w = (r, w')" "well_keyed M ent w"
  shows "well_keyed M ent w' \<and> (stored_session M ent w' = stored_session M ent w
      \<or> stored_session M ent w' = (stored_session M ent w)(sess_id s \<mapsto> s))"
proof (cases "session_to_json (sm_codec M) s")
  case (Inl e)
  with assms show ?thesis by (simp add: update_session_def serialize_session_def throw_def)
next
  case (Inr js)
  obtain now w1 where now: "utc_now (sm_platform M) w = (now, w1)"
    by (cases "utc_now (sm_platform M) w")
  note q = stored_session_quiet [OF now_quiet [OF now]]
  show ?thesis
  proof (cases "num_seconds (expires_at s - now) > 0")
    case True
    with Inr now assms(1) obtain r' where
      "redis_set_ex (sm_redis M) (session_key (sess_id s)) js
         (word_of_int (num_seconds (expires_at s - now))) w1 = (r', w')"
      by (auto simp: update_session_def serialize_session_def bind_io_def read_io_def call_io_def
          Let_def split: prod.splits)
    from set_session_effect [OF this Inr] assms(2) q show ?thesis by simp
  next
    case False
    with Inr now assms(1) have "w' = w1"
      by (simp add: update_session_def serialize_session_def bind_io_def read_io_def ret_def)
    with q assms(2) show ?thesis by simp
  qed
qed

lemma delete_session_effect:
  assumes "delete_session M i w = (r, w')" "well_keyed M ent w"
  shows "well_keyed M ent w' \<and> (stored_session M ent w' = stored_session M ent w
      \<or> stored_session M ent w' = (stored_session M ent w)(i := None))"
proof -
  obtain c where "redis_del (sm_redis M) (session_key i) w = (c, w')"
    using assms(1) by (auto simp: delete_session_def call_io_def split: prod.splits)
  then have "ent w' = ent w \<or> ent w' = (ent w)(session_key i := None)"
    using key_removes [of _ w _ w'] key_removes_fails [of _ w _ w'] by (cases c) auto
  then show ?thesis
    using assms(2) stored_session_remove [of ent w' w i M]
    by (auto simp: well_keyed_def stored_session_def fun_eq_iff)
qed

lemma delete_session_Ok:
  assumes "delete_session M i w = (Ok u, w')"
  shows "stored_session M ent w' = (stored_session M ent w)(i := None)"
proof -
  have "redis_del (sm_redis M) (session_key i) w = (Inr u, w')"
    using assms by (simp add: delete_session_def io_Ok)
  then show ?thesis
    using key_removes stored_session_remove(1) [of ent w' w i M] by blast
qed

lemma create_session_steps:
  assumes "create_session M u d ip ua w = (r, w')"
  obtains (failed) w1 where "quiet ent tm w w1" "w' = w1" "\<And>s. r \<noteq> Ok s"
  | (stored) s w1 js c where
      "new_session (sm_platform M) u d ip ua (session_duration_minutes M) w = (Ok s, w1)"
      "quiet ent tm w w1" "session_to_json (sm_codec M) s = Inr js"
      "redis_set_ex (sm_redis M) (session_key (sess_id s)) js
        (word_of_int (session_duration_minutes M * 60)) w1 = (c, w')"
      "\<And>s'. r = Ok s' \<Longrightarrow> s' = s \<and> c = Inr ()"
proof -
  obtain rs w1 where n:
    "new_session (sm_platform M) u d ip ua (session_duration_minutes M) w = (rs, w1)"
    by (cases "new_session (sm_platform M) u d ip ua (session_duration_minutes M) w")
  note q = withinD [OF within_new_session n]
  show thesis
  proof (cases "\<exists>s js. rs = Ok s \<and> session_to_json (sm_codec M) s = Inr js")
    case False
    have "w' = w1 \<and> (\<forall>s. r \<noteq> Ok s)"
      using False assms n
      by (cases rs; cases "session_to_json (sm_codec M) (case rs of Ok s \<Rightarrow> s)")
        (auto simp: create_session_def serialize_session_def bind_io_def throw_def lift_res_def)
    with q failed show thesis by blast
  next
    case True
    then obtain s js where s: "rs = Ok s" "session_to_json (sm_codec M) s = Inr js" by blast
    obtain c w2 where c: "redis_set_ex (sm_redis M) (session_key (sess_id s)) js
        (word_of_int (session_duration_minutes M * 60)) w1 = (c, w2)"
      by (cases "redis_set_ex (sm_redis M) (session_key (sess_id s)) js
        (word_of_int (session_duration_minutes M * 60)) w1")
    have "w2 = w'" "\<And>s'. r = Ok s' \<Longrightarrow> s' = s \<and> c = Inr ()"
      using assms n s c
      by (cases c; auto simp: create_session_def serialize_session_def bind_io_def call_io_def
          ret_def Let_def)+
    with n s c q stored show thesis by blast
  qed
qed

lemma new_session_fields:
  "new_session P u d ip ua dur w = (Ok s, w') \<Longrightarrow>
     sess_user_id s = u \<and> sess_device_id s = d \<and> sess_ip_address s = ip \<and> sess_user_agent s = ua
     \<and> \<not> sess_mfa_verified s \<and> sess_risk_score s = 0
     \<and> expires_at s = created_at s + dur * 60 * nanos_per_second"
  by (auto simp: new_session_def plus_minutes_def io_Ok io_cases dest!: plus_seconds_Some)

lemma create_session_effect:
  assumes "create_session M u d ip ua w = (r, w')" "well_keyed M ent w"
  shows "well_keyed M ent w' \<and> (stored_session M ent w' = stored_session M ent w
      \<or> (\<exists>s. sess_user_id s = u \<and> \<not> sess_mfa_verified s
           \<and> stored_session M ent w' = (stored_session M ent w)(sess_id s \<mapsto> s)))"
  using assms(1)
proof (cases rule: create_session_steps)
  case failed
  with assms(2) stored_session_quiet [OF failed(1), of M] show ?thesis by simp
next
  case (stored s w1 js c)
  note q = stored_session_quiet [OF stored(2), of M]
  show ?thesis
    using set_session_effect [OF stored(4,3)] q assms(2) new_session_fields [OF stored(1)] by metis
qed

lemma create_session_Ok:
  assumes "create_session M u d ip ua w = (Ok s, w')"
  shows "stored_session M ent w' = (stored_session M ent w)(sess_id s \<mapsto> s)
    \<and> sess_user_id s = u \<and> sess_device_id s = d \<and> sess_ip_address s = ip
    \<and> sess_user_agent s = ua \<and> \<not> sess_mfa_verified s"
  using assms
proof (cases rule: create_session_steps)
  case (stored s1 w1 js c)
  note q = stored_session_quiet [OF stored(2), of M]
  from stored have "s = s1" "c = Inr ()" by auto
  with set_session_Ok [OF _ stored(3), of _ w1 "()" w'] stored(4) q
    new_session_fields [OF stored(1)]
  show ?thesis by simp
qed auto

text \<open>
  Getting: a miss or an unreadable text changes nothing; an expired session is deleted; a live
  one is stamped and stored again.
\<close>

lemma get_session_steps:
  assumes "get_session M i w = (r, w')"
  obtains (failed) w1 where "quiet ent tm w w1" "w' = w1" "\<And>s. r \<noteq> Ok s"
  | (expired) w1 js d s rd where "quiet ent tm w w1" "ent w (session_key i) = Some (js, d)"
      "session_of_json (sm_codec M) js = Inr s" "delete_session M i w1 = (rd, w')" "\<And>s. r \<noteq> Ok s"
  | (refreshed) w1 js d s t ru where "quiet ent tm w w1" "ent w (session_key i) = Some (js, d)"
      "session_of_json (sm_codec M) js = Inr s" "tm w \<le> expires_at s"
      "update_session M (s\<lparr>last_activity := t\<rparr>) w1 = (ru, w')"
      "\<And>s'. r = Ok s' \<Longrightarrow> s' = s\<lparr>last_activity := t\<rparr> \<and> ru = Ok ()"
      "tm w \<le> t" "t \<le> tm w1"
proof -
  obtain c w0 where g: "redis_get (sm_redis M) (session_key i) w = (c, w0)"
    by (cases "redis_get (sm_redis M) (session_key i) w")
  note q0 = get_quiet [OF g]
  show thesis
  proof (cases "\<exists>js s. c = Inr (Some js) \<and> session_of_json (sm_codec M) js = Inr s")
    case False
    have "w' = w0 \<and> (\<forall>s. r \<noteq> Ok s)"
    proof (cases c)
      case (Inl e)
      with g assms show ?thesis by (auto simp: get_session_def bind_io_def call_io_def)
    next
      case (Inr v)
      with False g assms show ?thesis
        by (cases v; cases "session_of_json (sm_codec M) (the v)")
          (auto simp: get_session_def bind_io_def call_io_def throw_def lift_res_def)
    qed
    with q0 failed show thesis by blast
  next
    case True
    then obtain js s where c: "c = Inr (Some js)" and dec: "session_of_json (sm_codec M) js = Inr s"
      by blast
    from key_reads [OF g [unfolded c]] obtain d where e: "ent w (session_key i) = Some (js, d)"
      by (metis live_SomeD)
    obtain now w1 where now: "utc_now (sm_platform M) w0 = (now, w1)"
      by (cases "utc_now (sm_platform M) w0")
    have q1: "quiet ent tm w w1"
      using q0 now_quiet [OF now] by (rule transpD [OF transp_quiet])
    show thesis
    proof (cases "expires_at s < now")
      case True
      obtain rd w2 where "delete_session M i w1 = (rd, w2)" by (cases "delete_session M i w1")
      then have "delete_session M i w1 = (rd, w')" "\<And>s. r \<noteq> Ok s"
        using assms g c dec now True
        by (auto simp: get_session_def bind_io_def call_io_def read_io_def is_expired_def throw_def
            split: outcome.splits)
      with q1 e dec expired show thesis by blast
    next
      case False
      obtain t w2 where t: "utc_now (sm_platform M) w1 = (t, w2)"
        by (cases "utc_now (sm_platform M) w1")
      have q2: "quiet ent tm w w2"
        using q1 now_quiet [OF t] by (rule transpD [OF transp_quiet])
      obtain ru w3 where u: "update_session M (s\<lparr>last_activity := t\<rparr>) w2 = (ru, w3)"
        by (cases "update_session M (s\<lparr>last_activity := t\<rparr>) w2")
      have "update_session M (s\<lparr>last_activity := t\<rparr>) w2 = (ru, w')"
        "\<And>s'. r = Ok s' \<Longrightarrow> s' = s\<lparr>last_activity := t\<rparr> \<and> ru = Ok ()"
        using assms g c dec now t u False
        by (auto simp: get_session_def bind_io_def call_io_def read_io_def is_expired_def
            update_activity_def ret_def split: outcome.splits)
      moreover have "tm w \<le> expires_at s"
        using False now_reads [OF now] q0 by (simp add: quiet_def)
      moreover have "tm w \<le> t" "t \<le> tm w2"
        using now_reads [OF t] q1 by (simp_all add: quiet_def)
      ultimately show thesis using q2 e dec refreshed by blast
    qed
  qed
qed

lemma get_session_effect:
  assumes "get_session M i w = (r, w')" "well_keyed M ent w"
  shows "well_keyed M ent w' \<and> (stored_session M ent w' = stored_session M ent w
      \<or> stored_session M ent w' = (stored_session M ent w)(i := None)
      \<or> (\<exists>s s'. stored_session M ent w i = Some s \<and> same_session s s'
           \<and> stored_session M ent w' = (stored_session M ent w)(i \<mapsto> s')))"
  using assms(1)
proof (cases rule: get_session_steps)
  case failed
  with assms(2) stored_session_quiet [OF failed(1), of M] show ?thesis by simp
next
  case expired
  with delete_session_effect [OF expired(4)] assms(2) stored_session_quiet [OF expired(1), of M]
  show ?thesis by auto
next
  case (refreshed w1 js d s t ru)
  have s: "stored_session M ent w i = Some s"
    using refreshed by (simp add: stored_session_def)
  have "sess_id (s\<lparr>last_activity := t\<rparr>) = i"
    using well_keyed_id [OF assms(2) s] by simp
  moreover have "same_session s (s\<lparr>last_activity := t\<rparr>)"
    by (auto simp: same_session_def)
  ultimately show ?thesis
    using update_session_effect [OF refreshed(5)] assms(2) s
      stored_session_quiet [OF refreshed(1), of M] by metis
qed

lemma get_session_Ok:
  assumes "get_session M i w = (Ok s, w')" "well_keyed M ent w"
  shows "\<exists>s0. stored_session M ent w i = Some s0 \<and> same_session s0 s \<and> sess_id s = i
    \<and> tm w \<le> expires_at s"
  using assms(1)
proof (cases rule: get_session_steps)
  case (refreshed w1 js d s0 t ru)
  have s0: "stored_session M ent w i = Some s0"
    using refreshed by (simp add: stored_session_def)
  with refreshed well_keyed_id [OF assms(2) s0] show ?thesis
    by (auto simp: same_session_def)
qed auto

text \<open>
  Listing a user's sessions reads only. Every session listed is stored and belongs to the user;
  and when every read is answered, every stored session of the user that is still live when the
  listing ends is listed.
\<close>

lemma within_get_or_skip: "moves (quiet ent tm) (get_or_skip M k)"
  using get_quiet [of k]
  by (auto simp: moves_def get_or_skip_def split: prod.splits sum.splits)

lemma within_collect: "moves (quiet ent tm) (collect_sessions M u ks acc)"
proof (induction ks arbitrary: acc)
  case Nil
  show ?case by (simp add: within_pure reflp_quiet)
next
  case (Cons k ks)
  then show ?case
    by (auto intro!: within_bind transp_quiet within_read within_get_or_skip within_platform
        split: option.split sum.split)
qed

lemma collect_Cons_steps:
  assumes "collect_sessions M u (k # ks) acc w = (Ok ss, w')"
  obtains v w1 acc1 w2 where "get_or_skip M k w = (v, w1)" "quiet ent tm w w1" "quiet ent tm w1 w2"
    "collect_sessions M u ks acc1 w2 = (Ok ss, w')"
    "acc1 = acc \<or> (\<exists>js s. v = Some js \<and> session_of_json (sm_codec M) js = Inr s
       \<and> sess_user_id s = u \<and> acc1 = acc @ [s])"
    "\<And>js s. v = Some js \<Longrightarrow> session_of_json (sm_codec M) js = Inr s \<Longrightarrow> sess_user_id s = u
       \<Longrightarrow> tm w2 \<le> expires_at s \<Longrightarrow> acc1 = acc @ [s]"
proof -
  obtain v w1 where v: "get_or_skip M k w = (v, w1)" by (cases "get_or_skip M k w")
  note q1 = withinD [OF within_get_or_skip v]
  have refl: "quiet ent tm w1 w1" by (simp add: quiet_def)
  show thesis
  proof (cases "\<exists>js s. v = Some js \<and> session_of_json (sm_codec M) js = Inr s \<and> sess_user_id s = u")
    case False
    have "collect_sessions M u ks acc w1 = (Ok ss, w')"
      using assms v False by (auto simp: io_Ok split: option.splits sum.splits if_splits)
    with v q1 refl False show thesis by (intro that [of v w1 w1 acc]) auto
  next
    case True
    then obtain js s where js: "v = Some js" "session_of_json (sm_codec M) js = Inr s"
      "sess_user_id s = u" by blast
    obtain now w2 where now: "utc_now (sm_platform M) w1 = (now, w2)"
      by (cases "utc_now (sm_platform M) w1")
    have "collect_sessions M u ks (if \<not> expires_at s < now then acc @ [s] else acc) w2 = (Ok ss, w')"
      using assms v js now by (simp add: bind_io_def read_io_def is_expired_def)
    with v q1 js now_quiet [OF now] now_reads [OF now] show thesis
      by (intro that [of v w1 w2 "if \<not> expires_at s < now then acc @ [s] else acc"]) auto
  qed
qed

lemma collect_sound:
  "collect_sessions M u ks acc w = (Ok ss, w') \<Longrightarrow>
     (\<And>k. k \<in> set ks \<Longrightarrow> prefix ''session:'' k) \<Longrightarrow> s \<in> set ss \<Longrightarrow>
     s \<in> set acc \<or> (\<exists>k js d. k \<in> set ks \<and> ent w k = Some (js, d)
       \<and> session_of_json (sm_codec M) js = Inr s \<and> sess_user_id s = u)"
proof (induction ks arbitrary: acc w)
  case Nil
  then show ?case by (simp add: io_Ok)
next
  case (Cons k ks)
  have ns: "prefix ''session:'' k" "\<And>k'. k' \<in> set ks \<Longrightarrow> prefix ''session:'' k'"
    using Cons.prems(2) by simp_all
  from Cons.prems(1) show ?case
  proof (rule collect_Cons_steps)
    fix v w1 acc1 w2
    assume v: "get_or_skip M k w = (v, w1)" and q: "quiet ent tm w w1" "quiet ent tm w1 w2"
      and rest: "collect_sessions M u ks acc1 w2 = (Ok ss, w')"
      and acc1: "acc1 = acc \<or> (\<exists>js s. v = Some js \<and> session_of_json (sm_codec M) js = Inr s
        \<and> sess_user_id s = u \<and> acc1 = acc @ [s])"
    have e: "ent w2 = ent w" using q by (simp add: quiet_def)
    have stored: "\<exists>d. ent w k = Some (js, d)" if js: "v = Some js" for js
    proof -
      have "redis_get (sm_redis M) k w = (Inr (Some js), w1)"
        using v js by (auto simp: get_or_skip_def split: prod.splits sum.splits)
      from get_reads [OF this ns(1)] obtain t where "live (ent w) t k = Some js" by metis
      from live_SomeD [OF this] show ?thesis by blast
    qed
    with Cons.IH [OF rest ns(2) Cons.prems(3)] acc1 e show ?thesis
      by (metis UnE empty_iff empty_set insert_iff list.simps(15) set_append)
  qed
qed

lemma collect_complete:
  assumes "\<And>k w. \<exists>v w'. redis_get (sm_redis M) k w = (Inr v, w')"
  shows "collect_sessions M u ks acc w = (Ok ss, w') \<Longrightarrow>
    (\<And>k. k \<in> set ks \<Longrightarrow> prefix ''session:'' k) \<Longrightarrow>
    s \<in> set acc \<or> (\<exists>k js. k \<in> set ks \<and> live (ent w) (tm w') k = Some js
      \<and> session_of_json (sm_codec M) js = Inr s \<and> sess_user_id s = u \<and> tm w' \<le> expires_at s)
    \<Longrightarrow> s \<in> set ss"
proof (induction ks arbitrary: acc w)
  case Nil
  then show ?case by (simp add: io_Ok)
next
  case (Cons k ks)
  have ns: "prefix ''session:'' k" "\<And>k'. k' \<in> set ks \<Longrightarrow> prefix ''session:'' k'"
    using Cons.prems(2) by simp_all
  from Cons.prems(1) show ?case
  proof (rule collect_Cons_steps)
    fix v w1 acc1 w2
    assume v: "get_or_skip M k w = (v, w1)" and q: "quiet ent tm w w1" "quiet ent tm w1 w2"
      and rest: "collect_sessions M u ks acc1 w2 = (Ok ss, w')"
      and acc1: "acc1 = acc \<or> (\<exists>js s. v = Some js \<and> session_of_json (sm_codec M) js = Inr s
        \<and> sess_user_id s = u \<and> acc1 = acc @ [s])"
      and take: "\<And>js s. v = Some js \<Longrightarrow> session_of_json (sm_codec M) js = Inr s
        \<Longrightarrow> sess_user_id s = u \<Longrightarrow> tm w2 \<le> expires_at s \<Longrightarrow> acc1 = acc @ [s]"
    have e: "ent w2 = ent w" "tm w1 \<le> tm w2" using q by (simp_all add: quiet_def)
    have t: "tm w2 \<le> tm w'" using withinD [OF within_collect rest] by (simp add: quiet_def)
    have "v = Some js" if "live (ent w) (tm w') k = Some js" for js
    proof -
      obtain v' w0 where g: "redis_get (sm_redis M) k w = (Inr v', w0)" using assms by blast
      with v have "v' = v" "w0 = w1" by (auto simp: get_or_skip_def)
      with get_reads [OF g ns(1)] obtain t0 where "t0 \<le> tm w1" "v = live (ent w) t0 k" by blast
      with live_earlier [OF that, of t0] e t show ?thesis by simp
    qed
    with Cons.prems(3) acc1 take e t
    have "s \<in> set acc1 \<or> (\<exists>k js. k \<in> set ks \<and> live (ent w2) (tm w') k = Some js
      \<and> session_of_json (sm_codec M) js = Inr s \<and> sess_user_id s = u \<and> tm w' \<le> expires_at s)"
      by fastforce
    with Cons.IH [OF rest ns(2)] show ?thesis by blast
  qed
qed

lemma delete_sessions_effect:
  "delete_sessions M ss w = (r, w') \<Longrightarrow> well_keyed M ent w \<Longrightarrow>
     well_keyed M ent w' \<and> (\<forall>i. stored_session M ent w' i = stored_session M ent w i
       \<or> (stored_session M ent w' i = None \<and> i \<in> sess_id ` set ss))
     \<and> (r = Ok () \<longrightarrow> (\<forall>i \<in> sess_id ` set ss. stored_session M ent w' i = None))"
proof (induction ss arbitrary: w)
  case Nil
  then show ?case by (simp add: ret_def)
next
  case (Cons s ss)
  obtain rd w1 where d: "delete_session M (sess_id s) w = (rd, w1)"
    by (cases "delete_session M (sess_id s) w")
  note e = delete_session_effect [OF d Cons.prems(2)]
  show ?case
  proof (cases rd)
    case (Ok u)
    have rest: "delete_sessions M ss w1 = (r, w')"
      using Cons.prems(1) d Ok by (simp add: bind_io_def)
    from Cons.IH [OF rest] e have ih: "well_keyed M ent w'"
      "\<And>i. stored_session M ent w' i = stored_session M ent w1 i
        \<or> (stored_session M ent w' i = None \<and> i \<in> sess_id ` set ss)"
      "r = Ok () \<Longrightarrow> \<forall>i \<in> sess_id ` set ss. stored_session M ent w' i = None"
      by auto
    have d1: "stored_session M ent w1 = (stored_session M ent w)(sess_id s := None)"
      using delete_session_Ok d Ok by blast
    show ?thesis
      using ih d1 by (auto simp: fun_upd_def split: if_splits) metis+
  next
    case (Err x)
    with Cons.prems(1) d e show ?thesis by (auto simp: bind_io_def)
  next
    case Panic
    with Cons.prems(1) d e show ?thesis by (auto simp: bind_io_def)
  qed
qed

lemma within_get_user_sessions: "moves (quiet ent tm) (get_user_sessions M u)"
proof -
  have "moves (quiet ent tm) (redis_scan_match (sm_redis M) ''session:*'')"
    using within_scan by simp
  then show ?thesis
    unfolding get_user_sessions_def scan_session_keys_def
    by (auto intro!: within_bind transp_quiet within_call within_pure reflp_quiet within_collect)
qed

lemma get_user_sessions_steps:
  assumes "get_user_sessions M u w = (Ok ss, w')"
  obtains ks complete w1 where "redis_scan_match (sm_redis M) (''session:'' @ ''*'') w = (Inr (ks, complete), w1)"
    "quiet ent tm w w1" "collect_sessions M u ks [] w1 = (Ok ss, w')"
  using assms scan_quiet [of w]
  by (fastforce simp: get_user_sessions_def scan_session_keys_def io_Ok)

lemma get_user_sessions_sound:
  assumes "get_user_sessions M u w = (Ok ss, w')" "well_keyed M ent w" "s \<in> set ss"
  shows "stored_session M ent w (sess_id s) = Some s \<and> sess_user_id s = u"
  using assms(1)
proof (rule get_user_sessions_steps)
  fix ks complete w1
  assume scan: "redis_scan_match (sm_redis M) (''session:'' @ ''*'') w = (Inr (ks, complete), w1)"
    and q: "quiet ent tm w w1" and c: "collect_sessions M u ks [] w1 = (Ok ss, w')"
  from collect_sound [OF c _ assms(3)] scan_yields [OF scan] obtain k js d where k: "k \<in> set ks"
    "ent w1 k = Some (js, d)" "session_of_json (sm_codec M) js = Inr s" "sess_user_id s = u"
    by auto
  from scan_yields [OF scan k(1)] obtain i where "k = session_key i"
    by (auto simp: prefix_session_key)
  with k q have "stored_session M ent w i = Some s"
    by (simp add: quiet_def stored_session_Some_iff)
  with k well_keyed_id [OF assms(2) this] show ?thesis by simp
qed

lemma get_user_sessions_complete:
  assumes "\<And>k w. \<exists>v w'. redis_get (sm_redis M) k w = (Inr v, w')"
    and "\<And>p w ks c w'. redis_scan_match (sm_redis M) p w = (Inr (ks, c), w') \<Longrightarrow> c"
    and "get_user_sessions M u w = (Ok ss, w')"
    and "live (ent w) (tm w') (session_key i) = Some js" "session_of_json (sm_codec M) js = Inr s"
    and "sess_user_id s = u" "tm w' \<le> expires_at s"
  shows "s \<in> set ss"
  using assms(3)
proof (rule get_user_sessions_steps)
  fix ks complete w1
  assume scan: "redis_scan_match (sm_redis M) (''session:'' @ ''*'') w = (Inr (ks, complete), w1)"
    and q: "quiet ent tm w w1" and c: "collect_sessions M u ks [] w1 = (Ok ss, w')"
  have "complete" by (rule assms(2) [OF scan])
  have "tm w1 \<le> tm w'" using withinD [OF within_collect c] by (simp add: quiet_def)
  with assms(4) have "live (ent w) (tm w1) (session_key i) = Some js" by (rule live_earlier)
  with scan \<open>complete\<close> have "session_key i \<in> set ks"
    using scan_covers [of w ks w1 "session_key i" js]
    by (simp add: session_key_def)
  moreover have "live (ent w1) (tm w') (session_key i) = Some js"
    using q assms(4) by (simp add: quiet_def)
  ultimately show ?thesis
    using collect_complete [OF assms(1) c scan_yields [OF scan]] assms(5-7) by blast
qed

lemma revoke_user_sessions_effect:
  assumes "revoke_user_sessions M u w = (r, w')" "well_keyed M ent w"
  shows "well_keyed M ent w' \<and> (\<forall>i. stored_session M ent w' i = stored_session M ent w i
      \<or> (stored_session M ent w' i = None
         \<and> (\<exists>s. stored_session M ent w i = Some s \<and> sess_user_id s = u)))"
proof -
  obtain rs w1 where g: "get_user_sessions M u w = (rs, w1)"
    by (cases "get_user_sessions M u w")
  note q = stored_session_quiet [OF withinD [OF within_get_user_sessions g], of M]
  show ?thesis
  proof (cases "\<exists>ss. rs = Ok ss")
    case True
    then obtain ss where ss: "rs = Ok ss" by blast
    obtain rd w2 where d: "delete_sessions M ss w1 = (rd, w2)" by (cases "delete_sessions M ss w1")
    have "w2 = w'"
      using assms(1) g ss d
      by (auto simp: revoke_user_sessions_def bind_io_def ret_def split: outcome.splits)
    moreover have "\<exists>s. stored_session M ent w i = Some s \<and> sess_user_id s = u"
      if "i \<in> sess_id ` set ss" for i
      using get_user_sessions_sound [OF g [unfolded ss] assms(2)] that by auto
    ultimately show ?thesis
      using delete_sessions_effect [OF d] assms(2) q by metis
  next
    case False
    with g assms(1) have "w1 = w'"
      by (cases rs) (auto simp: revoke_user_sessions_def bind_io_def)
    with q assms(2) show ?thesis by auto
  qed
qed

lemma revoke_user_sessions_steps:
  assumes "revoke_user_sessions M u w = (Ok n, w')"
  obtains ss w1 where "get_user_sessions M u w = (Ok ss, w1)" "quiet ent tm w w1"
    "delete_sessions M ss w1 = (Ok (), w')" "n = length ss"
  using assms withinD [OF within_get_user_sessions]
  by (fastforce simp: revoke_user_sessions_def io_Ok)

text \<open>Server time does not run backwards in any operation.\<close>

lemma quiet_later: "moves (quiet ent tm) m \<Longrightarrow> moves (later tm) m"
  by (auto simp: moves_def quiet_def later_def)

lemma quiet_time: "quiet ent tm w w' \<Longrightarrow> tm w \<le> tm w'"
  by (simp add: quiet_def)

lemma within_later_calls:
  "moves (later tm) (redis_set_ex (sm_redis M) (session_key i) v ttl)"
  "moves (later tm) (redis_del (sm_redis M) (session_key i))"
  "moves (later tm) (redis_get (sm_redis M) k)" "moves (later tm) (utc_now (sm_platform M))"
  by (rule withinI; simp add: later_def; erule key_time
        get_quiet [THEN quiet_time] now_quiet [THEN quiet_time])+

lemma within_later_update: "moves (later tm) (update_session M s)"
  unfolding update_session_def serialize_session_def Let_def
  by (intro within_bind within_pure within_read within_call within_if within_later_calls later_preorder)

lemma within_later_delete: "moves (later tm) (delete_session M i)"
  unfolding delete_session_def by (intro within_call within_later_calls)

lemma within_later_delete_sessions: "moves (later tm) (delete_sessions M ss)"
  by (induction ss)
    (auto intro!: within_bind within_pure within_later_delete later_preorder)

lemma time_delete_sessions: "delete_sessions M ss w = (r, w') \<Longrightarrow> tm w \<le> tm w'"
  using withinD [OF within_later_delete_sessions] by (simp add: later_def)

lemma get_session_live:
  assumes "get_session M i w = (Ok s, w')"
  obtains js s0 t where "tm w \<le> t" "live (ent w) t (session_key i) = Some js"
    "session_of_json (sm_codec M) js = Inr s0" "same_session s0 s" "tm w \<le> expires_at s0"
proof -
  obtain c w0 where g: "redis_get (sm_redis M) (session_key i) w = (c, w0)"
    by (cases "redis_get (sm_redis M) (session_key i) w")
  obtain js where js: "c = Inr (Some js)"
  proof (cases "\<exists>js. c = Inr (Some js)")
    case False
    with g assms that show thesis
      by (cases c; cases "case c of Inr v \<Rightarrow> v")
        (auto simp: get_session_def bind_io_def call_io_def throw_def)
  qed (use that in blast)
  from key_reads [OF g [unfolded js]] obtain t where t: "tm w \<le> t"
    "live (ent w) t (session_key i) = Some js" by metis
  from assms show thesis
  proof (cases rule: get_session_steps)
    case (refreshed w1 js' d s0 u ru)
    with t live_SomeD [OF t(2)] have "js' = js" by auto
    with refreshed t that show thesis by (auto simp: same_session_def)
  qed auto
qed

lemma get_session_keeps:
  assumes "get_session M i w = (Ok s, w')" "well_keyed M ent w"
  shows "stored_session M ent w' = stored_session M ent w
    \<or> stored_session M ent w' = (stored_session M ent w)(i \<mapsto> s)"
  using assms(1)
proof (cases rule: get_session_steps)
  case (refreshed w1 js d s0 t ru)
  then have "stored_session M ent w i = Some s0" by (simp add: stored_session_def)
  from well_keyed_id [OF assms(2) this] have "sess_id s = i" using refreshed by simp
  moreover have "update_session M s w1 = (ru, w')" using refreshed by simp
  ultimately show ?thesis
    using update_session_effect [of s w1 ru w'] assms(2)
      stored_session_quiet [OF refreshed(1), of M] by metis
qed auto

lemma delete_sessions_entries:
  "delete_sessions M ss w = (r, w') \<Longrightarrow> ent w' k = ent w k \<or> ent w' k = None"
proof (induction ss arbitrary: w)
  case Nil
  then show ?case by (simp add: ret_def)
next
  case (Cons s ss)
  obtain rd w1 where d: "delete_session M (sess_id s) w = (rd, w1)"
    by (cases "delete_session M (sess_id s) w")
  then obtain c where "redis_del (sm_redis M) (session_key (sess_id s)) w = (c, w1)"
    by (auto simp: delete_session_def call_io_def split: prod.splits)
  then have "ent w1 = ent w \<or> ent w1 = (ent w)(session_key (sess_id s) := None)"
    using key_removes [of _ w _ w1] key_removes_fails [of _ w _ w1] by (cases c) blast+
  then have 1: "ent w1 k = ent w k \<or> ent w1 k = None" by (auto split: if_splits)
  show ?case
  proof (cases rd)
    case (Ok u)
    with Cons.prems d have "delete_sessions M ss w1 = (r, w')" by (simp add: bind_io_def)
    from Cons.IH [OF this] 1 show ?thesis by metis
  qed (use Cons.prems d 1 in \<open>auto simp: bind_io_def\<close>)
qed

text \<open>
  After a revocation that read everything, no session of the user can be got until a new one is
  stored.
\<close>

lemma revoke_leaves_none:
  assumes "\<And>k w. \<exists>v w'. redis_get (sm_redis M) k w = (Inr v, w')"
    and "\<And>p w ks c w'. redis_scan_match (sm_redis M) p w = (Inr (ks, c), w') \<Longrightarrow> c"
    and "well_keyed M ent w" "revoke_user_sessions M u w = (Ok n, w1)"
    and "quiet ent tm w1 w2" "get_session M i w2 = (Ok s, w3)"
  shows "sess_user_id s \<noteq> u"
proof
  assume u: "sess_user_id s = u"
  from assms(4) obtain ss wg where g: "get_user_sessions M u w = (Ok ss, wg)"
    and q: "quiet ent tm w wg" and d: "delete_sessions M ss wg = (Ok (), w1)"
    by (rule revoke_user_sessions_steps)
  from assms(6) obtain js s0 t where t: "tm w2 \<le> t" "live (ent w2) t (session_key i) = Some js"
    "session_of_json (sm_codec M) js = Inr s0" "same_session s0 s" "tm w2 \<le> expires_at s0"
    by (rule get_session_live)
  have wk: "well_keyed M ent wg" using assms(3) stored_session_quiet(2) [OF q, of M] by simp
  have time: "tm wg \<le> tm w1" using time_delete_sessions [OF d] .
  have ent2: "ent w2 = ent w1" "tm w1 \<le> tm w2" using assms(5) by (simp_all add: quiet_def)
  from live_SomeD [OF t(2)] delete_sessions_entries [OF d, of "session_key i"] ent2
  have same: "ent w1 (session_key i) = ent wg (session_key i)" by auto
  have "live (ent w2) (tm wg) (session_key i) = Some js"
    using t(1) time ent2 by (intro live_earlier [OF t(2)]) linarith
  then have "live (ent w) (tm wg) (session_key i) = Some js"
    using same ent2 q by (simp add: live_def quiet_def)
  moreover have "sess_user_id s0 = u" "tm wg \<le> expires_at s0"
    using u t time ent2 by (auto simp: same_session_def)
  ultimately have "s0 \<in> set ss"
    by (intro get_user_sessions_complete [OF assms(1) _ g _ t(3)]) (erule assms(2))
  moreover have "stored_session M ent wg i = Some s0"
    using live_SomeD [OF t(2)] same ent2 t(3) by (auto simp: stored_session_def)
  with well_keyed_id [OF wk this] have "sess_id s0 = i" by simp
  ultimately have "stored_session M ent w1 i = None"
    using delete_sessions_effect [OF d wk] by auto
  moreover have "stored_session M ent w1 i = Some s0"
    using live_SomeD [OF t(2)] ent2 t(3) by (auto simp: stored_session_def)
  ultimately show False by simp
qed

text \<open>A session that was just created can be got while it has not expired.\<close>

lemma created_before:
  assumes "new_session (sm_platform M) u d ip ua dur w = (Ok s, w')"
  shows "created_at s \<le> tm w'"
proof -
  obtain now w1 where now: "utc_now (sm_platform M) w = (now, w1)"
    by (cases "utc_now (sm_platform M) w")
  obtain i w2 where i: "uuid_v4 (sm_platform M) w1 = (i, w2)"
    by (cases "uuid_v4 (sm_platform M) w1")
  have "created_at s = now \<and> w' = w2"
    using assms now i
    by (cases "plus_minutes now dur") (auto simp: new_session_def io_run)
  with now_reads [OF now] quiet_time [OF uuid_quiet [OF i]] show ?thesis by simp
qed

lemma created_live:
  assumes "create_session M u d ip ua w = (Ok s, w1)" "quiet ent tm w1 w2"
    and "0 < session_duration_minutes M" "session_duration_minutes M * 60 < 2 ^ 64"
    and "t < expires_at s"
  obtains js where "live (ent w2) t (session_key (sess_id s)) = Some js"
    "session_of_json (sm_codec M) js = Inr s"
  using assms(1)
proof (cases rule: create_session_steps)
  case (stored s' wn js c)
  let ?ttl = "word_of_int (session_duration_minutes M * 60) :: u64"
  from stored have s: "s = s'" and c: "c = Inr ()" by auto
  have ttl: "uint ?ttl = session_duration_minutes M * 60"
    unfolding uint_word_of_int using assms(3,4) by simp
  from key_stores [OF stored(4) [unfolded c]] obtain t0 where t0: "tm wn \<le> t0"
    "ent w1 = (ent wn)(session_key (sess_id s) \<mapsto> (js, t0 + uint ?ttl * nanos_per_second))"
    by (auto simp: stores_def s)
  have "created_at s \<le> tm wn"
    using stored(1) s created_before by blast
  moreover have "expires_at s = created_at s + session_duration_minutes M * 60 * nanos_per_second"
    using new_session_fields [OF stored(1)] s by simp
  ultimately have "t < t0 + uint ?ttl * nanos_per_second" using assms(5) t0 ttl by simp
  moreover have "ent w2 = ent w1" using assms(2) by (simp add: quiet_def)
  ultimately show thesis
    using that codec_round_trip [OF stored(3)] t0 s by (auto simp: live_def)
qed auto

lemma get_session_later:
  assumes "get_session M i w = (r, w')" "redis_get (sm_redis M) (session_key i) w = (Inr v, w1)"
  shows "tm w1 \<le> tm w'"
proof -
  have "\<exists>K. get_session M i = bind_io (call_io RedisError (redis_get (sm_redis M) (session_key i))) K
      \<and> (\<forall>v. moves (later tm) (K v))"
    unfolding get_session_def
    by (intro exI conjI, rule refl)
      (auto intro!: within_bind within_pure within_if within_read within_later_delete
        within_later_update later_preorder within_platform [THEN quiet_later] split: option.split)
  then obtain K where "get_session M i w = K v w1" "moves (later tm) (K v)"
    using assms(2) by (auto simp: bind_io_def call_io_def)
  with assms(1) withinD [of "later tm" "K v" w1 r w'] show ?thesis by (simp add: later_def)
qed

lemma update_session_result:
  "update_session M s w = (r, w') \<Longrightarrow>
     r = Ok () \<or> (\<exists>e. r = Err (RedisError e)) \<or> (\<exists>e. r = Err (SerializationError e))"
  by (cases "session_to_json (sm_codec M) s")
    (auto simp: update_session_def serialize_session_def io_run of_sum_def Let_def
      split: prod.splits sum.splits if_splits)

lemma created_got:
  assumes "create_session M u d ip ua w = (Ok s, w1)" "quiet ent tm w1 w2"
    and "0 < session_duration_minutes M" "session_duration_minutes M * 60 < 2 ^ 64"
    and "get_session M (sess_id s) w2 = (r, w3)" "tm w3 < expires_at s"
  shows "(\<exists>s'. r = Ok s' \<and> same_session s s') \<or> (\<exists>e. r = Err (RedisError e))
    \<or> (\<exists>e. r = Err (SerializationError e))"
proof -
  obtain c w4 where g: "redis_get (sm_redis M) (session_key (sess_id s)) w2 = (c, w4)"
    by (cases "redis_get (sm_redis M) (session_key (sess_id s)) w2")
  show ?thesis
  proof (cases c)
    case (Inl e)
    with g assms(5) show ?thesis by (auto simp: get_session_def bind_io_def call_io_def)
  next
    case (Inr v)
    from key_reads [OF g [unfolded Inr]] obtain t where
      t: "t \<le> tm w4" "v = live (ent w2) t (session_key (sess_id s))" by blast
    have "t < expires_at s"
      using t(1) get_session_later [OF assms(5) g [unfolded Inr]] assms(6) by linarith
    from created_live [OF assms(1-4) this] obtain js where
      "live (ent w2) t (session_key (sess_id s)) = Some js"
      and js: "session_of_json (sm_codec M) js = Inr s" by blast
    with t have v: "v = Some js" by simp
    obtain now w5 where now: "utc_now (sm_platform M) w4 = (now, w5)"
      by (cases "utc_now (sm_platform M) w4")
    obtain rd w6 where d: "delete_session M (sess_id s) w5 = (rd, w6)"
      by (cases "delete_session M (sess_id s) w5")
    obtain t1 w7 where t1: "utc_now (sm_platform M) w5 = (t1, w7)"
      by (cases "utc_now (sm_platform M) w5")
    obtain ru w8 where u: "update_session M (s\<lparr>last_activity := t1\<rparr>) w7 = (ru, w8)"
      by (cases "update_session M (s\<lparr>last_activity := t1\<rparr>) w7")
    show ?thesis
    proof (cases "expires_at s < now")
      case True
      with assms(5) g Inr v js now d have "w3 = w6"
        by (auto simp: get_session_def bind_io_def call_io_def read_io_def is_expired_def throw_def
            split: outcome.splits)
      with withinD [OF within_later_delete d] now_reads [OF now] True assms(6) show ?thesis
        by (simp add: later_def)
    next
      case False
      with assms(5) g Inr v js now t1 u have
        "r = (case ru of Ok _ \<Rightarrow> Ok (s\<lparr>last_activity := t1\<rparr>) | Err e \<Rightarrow> Err e | Panic \<Rightarrow> Panic)"
        by (auto simp: get_session_def bind_io_def call_io_def read_io_def is_expired_def
            update_activity_def ret_def split: outcome.splits)
      with update_session_result [OF u] show ?thesis by (auto simp: same_session_def)
    qed
  qed
qed

text \<open>
  A writer that read the session before it was deleted brings it back: the interleaving GET,
  DEL, SETEX of \<open>get_session\<close> with a \<open>delete_session\<close> of another request.
\<close>

lemma stale_update:
  assumes "update_session M s w = (Ok (), w')" "tm w' + nanos_per_second \<le> expires_at s"
  shows "stored_session M ent w' = (stored_session M ent w)(sess_id s \<mapsto> s)"
proof -
  obtain js where js: "session_to_json (sm_codec M) s = Inr js"
    using assms(1) by (auto simp: update_session_def serialize_session_def io_Ok of_sum_Ok_iff)
  obtain now w1 where now: "utc_now (sm_platform M) w = (now, w1)"
    by (cases "utc_now (sm_platform M) w")
  have rest: "(if num_seconds (expires_at s - now) > 0
      then call_io RedisError (redis_set_ex (sm_redis M) (session_key (sess_id s)) js
        (word_of_int (num_seconds (expires_at s - now)))) else ret ()) w1 = (Ok (), w')"
    using assms(1) js now
    by (simp add: update_session_def serialize_session_def bind_io_def read_io_def Let_def)
  then have "tm w1 \<le> tm w'"
    by (auto simp: io_Ok intro: key_time split: if_splits)
  with now_reads [OF now] assms(2) have "nanos_per_second \<le> expires_at s - now" by linarith
  moreover from this have "0 \<le> expires_at s - now" using nanos_per_second_pos by linarith
  ultimately have "num_seconds (expires_at s - now) = (expires_at s - now) div nanos_per_second"
    "0 < (expires_at s - now) div nanos_per_second"
    by (simp_all add: num_seconds_def rust_div_pos pos_imp_zdiv_pos_iff del: diff_ge_0_iff_ge)
  then have "num_seconds (expires_at s - now) > 0" by (simp only:)
  with rest have "redis_set_ex (sm_redis M) (session_key (sess_id s)) js
      (word_of_int (num_seconds (expires_at s - now))) w1 = (Inr (), w')"
    by (simp add: io_Ok)
  from set_session_Ok [OF this js] stored_session_quiet(1) [OF now_quiet [OF now], of M]
  show ?thesis by simp
qed

end

sublocale session_services \<subseteq> ss: session_store "create_session M" "get_session M"
  "update_session M" "delete_session M" "revoke_user_sessions M" "stored_session M ent"
  "well_keyed M ent" tm
  by unfold_locales
    (erule create_session_Ok delete_session_Ok
      | erule (1) create_session_effect get_session_effect get_session_Ok update_session_effect
          delete_session_effect revoke_user_sessions_effect)+

context session_services begin

lemma manager_provides: "session_store (create_session M) (get_session M) (update_session M)
    (delete_session M) (revoke_user_sessions M) (stored_session M ent) (well_keyed M ent) tm"
  by (rule ss.session_store_axioms)

end

end
