(* ===== verification/Json.thy ===== *)
theory Json
  imports Errors "HOL-Library.List_Lexorder" "HOL-Library.Char_ord"
begin

text \<open>
  JSON values. The crate is built without \<open>preserve_order\<close>, so an object of \<open>serde_json::Value\<close>
  is a \<open>BTreeMap\<close>: its entries are sorted by key and each key occurs once (\<open>json_obj\<close> builds
  one from the entries of a \<open>json!\<close> literal). A struct is written with its fields in the order
  they are declared. Numbers are the integers the source puts in.
\<close>

datatype json =
    JNull
  | JBool bool
  | JNum int
  | JStr string
  | JArr "json list"
  | JObj "(string \<times> json) list"

text \<open>\<open>Map::insert\<close>: replaces the value of a key, or puts a new one at its place.\<close>

fun obj_insert :: "string \<Rightarrow> 'j \<Rightarrow> (string \<times> 'j) list \<Rightarrow> (string \<times> 'j) list" where
  "obj_insert k v [] = [(k, v)]"
| "obj_insert k v ((k', v') # xs) =
     (if k = k' then (k, v) # xs
      else if k < k' then (k, v) # (k', v') # xs
      else (k', v') # obj_insert k v xs)"

lemma map_of_obj_insert: "sorted (map fst xs) \<Longrightarrow> map_of (obj_insert k v xs) = (map_of xs)(k \<mapsto> v)"
  by (induction xs rule: obj_insert.induct) (auto simp: fun_eq_iff)

lemma obj_insert_keys: "fst ` set (obj_insert k v xs) = insert k (fst ` set xs)"
  by (induction k v xs rule: obj_insert.induct) auto

lemma obj_insert_sorted:
  "sorted_wrt (<) (map fst xs) \<Longrightarrow> sorted_wrt (<) (map fst (obj_insert k v xs))"
proof (induction k v xs rule: obj_insert.induct)
  case (2 k v k' v' xs)
  have "k' < a" if "a \<in> fst ` set (obj_insert k v xs)" "\<not> k < k'" "k \<noteq> k'" for a
    using that 2(2) by (auto simp: obj_insert_keys)
  with 2 show ?case by (force dest: less_trans)
qed simp

definition json_obj :: "(string \<times> json) list \<Rightarrow> json" where
  "json_obj xs = JObj (fold (\<lambda>(k, v). obj_insert k v) xs [])"

text \<open>\<open>serde_json\<close>'s writer, a parameter of the operations that serialize.\<close>

type_synonym json_writer = "json \<Rightarrow> string + string"

end
