(* ===== verification/Http.thy ===== *)
theory Http
  imports Json Session
begin

text \<open>
  HTTP as \<^verbatim>\<open>src/src/proxy/mod.rs\<close> uses it: requests, responses, the responses the
  proxy builds itself, and JSON bodies. Header names are the lower-case names hyper normalises to
  and values are bytes, in the order they arrived. A body is collected by a call that may fail.
  \<open>hyper\<close> is a parameter: reading a header value as text, parsing a URI, the builder's check of
  a request, and sending a request upstream.
\<close>

record 'w request =
  req_method :: string
  req_path :: string
  req_path_and_query :: "string option"
  req_headers :: "(string \<times> string) list"
  req_body :: "('w, string) call"

record response =
  resp_status :: u16
  resp_headers :: "(string \<times> string) list"
  resp_body :: string

record upstream_request =
  up_method :: string
  up_uri :: string
  up_headers :: "(string \<times> string) list"
  up_body :: string

record 'w upstream_response =
  ur_status :: u16
  ur_headers :: "(string \<times> string) list"
  ur_body :: "('w, string) call"

record 'w http =
  header_to_str :: "string \<Rightarrow> string option"
  parse_uri :: "string \<Rightarrow> string option"
  builder_accepts :: "upstream_request \<Rightarrow> bool"
  http_send :: "upstream_request \<Rightarrow> ('w, 'w upstream_response) call"

text \<open>\<open>headers.get(name).and_then(|v| v.to_str().ok())\<close>: the first value of the name.\<close>

definition header_text :: "'w http \<Rightarrow> 'w request \<Rightarrow> string \<Rightarrow> string option" where
  "header_text H req name = Option.bind (map_of (req_headers req) name) (header_to_str H)"

definition unwrap_or :: "'a option \<Rightarrow> 'a \<Rightarrow> 'a" where
  "unwrap_or x d = (case x of Some a \<Rightarrow> a | None \<Rightarrow> d)"

definition collect_body :: "('w, string) call \<Rightarrow> ('w, string) proxy_io" where
  "collect_body b = call_io (\<lambda>_. InternalError) b"

section \<open>Responses\<close>

text \<open>
  \<open>Response::builder\<close> fails only on an invalid status or header, and every status and header here
  is a constant of the source, so the fallbacks after \<open>body(...)\<close> are never taken.
\<close>

definition text_response :: "u16 \<Rightarrow> string \<Rightarrow> response" where
  "text_response status body = \<lparr>resp_status = status, resp_headers = [], resp_body = body\<rparr>"

definition json_headers :: "(string \<times> string) list" where
  "json_headers = [(''content-type'', ''application/json'')]"

definition json_response :: "json_writer \<Rightarrow> u16 \<Rightarrow> json \<Rightarrow> response proxy_result" where
  "json_response js status body =
     bind_res (of_sum SerializationError (js body)) (\<lambda>bytes.
       Ok \<lparr>resp_status = status, resp_headers = json_headers, resp_body = bytes\<rparr>)"

definition status_from_u16 :: "u16 \<Rightarrow> u16 option" where
  "status_from_u16 c = (if 100 \<le> c \<and> c < 1000 then Some c else None)"

definition error_response :: "json_writer \<Rightarrow> proxy_error \<Rightarrow> response" where
  "error_response js err =
     (let status = unwrap_or (status_from_u16 (status_code err)) 500;
          body = json_obj [(''error'', JStr (error_text err))]
      in \<lparr>resp_status = status, resp_headers = json_headers,
          resp_body = (case js body of Inr bytes \<Rightarrow> bytes | Inl _ \<Rightarrow> [])\<rparr>)"

lemma error_response_status: "resp_status (error_response js e) = status_code e"
  using status_code_cases [of e]
  by (elim disjE) (simp_all add: error_response_def status_from_u16_def unwrap_or_def)

lemma json_response_Ok_iff:
  "json_response js st body = Ok r \<longleftrightarrow>
     (\<exists>b. js body = Inr b \<and> r = \<lparr>resp_status = st, resp_headers = json_headers, resp_body = b\<rparr>)"
  by (auto simp: json_response_def bind_res_Ok_iff of_sum_Ok_iff)

text \<open>An error is answered with its own status code, always one of 401, 403, 429, 500 and 502,
  never a success, with a JSON body that carries only the error's text under the key \<open>error\<close>
  (or nothing, if it cannot be written).\<close>

lemma error_response_is_error:
  "resp_status (error_response js e) = status_code e
   \<and> resp_status (error_response js e) \<in> {401, 403, 429, 500, 502}
   \<and> resp_headers (error_response js e) = [(''content-type'', ''application/json'')]
   \<and> (case js (JObj [(''error'', JStr (error_text e))]) of
        Inr bytes \<Rightarrow> resp_body (error_response js e) = bytes
      | Inl _ \<Rightarrow> resp_body (error_response js e) = [])"
  using status_code_cases [of e] error_response_status [of js e]
  by (auto simp: error_response_def json_headers_def json_obj_def split: sum.split)

end
