(* ===== verification/Mfa.thy ===== *)
theory Mfa
  imports Platform
begin

text \<open>
  \<^verbatim>\<open>src/src/auth/mfa.rs\<close>: TOTP secrets and codes. \<open>totp-rs\<close> is a parameter:
  base32 decoding of a secret, the checks of \<open>TOTP::new\<close>, and the comparison with the codes of
  the current time. \<open>rand\<close>'s \<open>gen_range(0..n)\<close> is the parameter \<open>gen_range\<close>.
\<close>

record mfa_config =
  mfa_cfg_enabled :: bool
  algorithm :: string
  digits :: nat
  step :: u64

definition default_mfa_config :: mfa_config where
  "default_mfa_config = \<lparr>mfa_cfg_enabled = True, algorithm = ''SHA1'', digits = 6, step = 30\<rparr>"

text \<open>A \<open>TOTP\<close> value: SHA1, the digits, the skew, the step and the secret bytes.\<close>

record totp =
  totp_digits :: nat
  totp_skew :: nat
  totp_step :: u64
  totp_secret :: string

record 'w totp_lib =
  gen_range :: "nat \<Rightarrow> ('w, nat) read"
  base32_decode :: "string \<Rightarrow> string option"
  totp_validate :: "totp \<Rightarrow> string + unit"
  totp_check_current :: "totp \<Rightarrow> string \<Rightarrow> ('w, bool) call"
  totp_generate_current :: "totp \<Rightarrow> ('w, string) call"

definition charset :: string where
  "charset = ''ABCDEFGHIJKLMNOPQRSTUVWXYZ234567''"

text \<open>One character per draw; indexing the character set out of range panics.\<close>

primrec random_chars :: "'w totp_lib \<Rightarrow> nat \<Rightarrow> ('w, string) proxy_io" where
  "random_chars T 0 = ret []"
| "random_chars T (Suc n) =
     bind_io (read_io (gen_range T (length charset))) (\<lambda>idx.
     bind_io (if idx < length charset then ret (charset ! idx) else lift_res Panic) (\<lambda>c.
     bind_io (random_chars T n) (\<lambda>cs. ret (c # cs))))"

definition generate_secret :: "'w totp_lib \<Rightarrow> ('w, string) proxy_io" where
  "generate_secret T = random_chars T 32"

definition generate_qr_url :: "string \<Rightarrow> string \<Rightarrow> string \<Rightarrow> string proxy_result" where
  "generate_qr_url secret account issuer =
     Ok (''otpauth://totp/'' @ issuer @ '':'' @ account @ ''?secret='' @ secret
         @ ''&issuer='' @ issuer)"

text \<open>\<open>Secret::Encoded(secret).to_bytes().unwrap()\<close> panics on a secret that is not base32.\<close>

definition new_totp :: "'w totp_lib \<Rightarrow> mfa_config \<Rightarrow> string \<Rightarrow> totp proxy_result" where
  "new_totp T c secret =
     (case base32_decode T secret of
        None \<Rightarrow> Panic
      | Some bytes \<Rightarrow>
          let t = \<lparr>totp_digits = digits c, totp_skew = 1, totp_step = step c, totp_secret = bytes\<rparr>
          in bind_res (of_sum AuthenticationFailed (totp_validate T t)) (\<lambda>_. Ok t))"

definition verify_token :: "'w totp_lib \<Rightarrow> mfa_config \<Rightarrow> string \<Rightarrow> string \<Rightarrow> ('w, bool) proxy_io" where
  "verify_token T c secret token =
     bind_io (lift_res (new_totp T c secret)) (\<lambda>totp.
     bind_io (call_io AuthenticationFailed (totp_check_current T totp token)) (\<lambda>is_valid.
       if \<not> is_valid then throw InvalidMfaToken else ret True))"

definition generate_current_token ::
  "'w totp_lib \<Rightarrow> mfa_config \<Rightarrow> string \<Rightarrow> ('w, string) proxy_io" where
  "generate_current_token T c secret =
     bind_io (lift_res (new_totp T c secret)) (\<lambda>totp.
       call_io AuthenticationFailed (totp_generate_current T totp))"

record mfa_enrollment_response =
  enrol_secret :: string
  qr_code_url :: string
  manual_entry_key :: string

section \<open>Codes\<close>

lemma new_totp_Ok_iff:
  "new_totp T c s = Ok t \<longleftrightarrow>
     (\<exists>b. base32_decode T s = Some b \<and> totp_validate T t = Inr ()
       \<and> t = \<lparr>totp_digits = digits c, totp_skew = 1, totp_step = step c, totp_secret = b\<rparr>)"
  by (auto simp: new_totp_def Let_def bind_res_Ok_iff of_sum_Ok_iff split: option.splits)

lemma verify_token_Ok_iff:
  "verify_token T c s tok w = (Ok b, w') \<longleftrightarrow>
     b \<and> (\<exists>t. new_totp T c s = Ok t \<and> totp_check_current T t tok w = (Inr True, w'))"
  by (auto simp: verify_token_def io_Ok io_cases)

text \<open>A TOTP code is verified only by the library's check for the secret's bytes with the
  configured digits and step, one step of skew, at the current time; the answer is never \<open>false\<close>
  (a wrong code is the error \<open>InvalidMfaToken\<close>), and the verification panics exactly when
  the stored secret is not base32.\<close>

theorem verify_token_outcomes:
  "(\<nexists>w'. verify_token T c s tok w = (Ok False, w'))
   \<and> (\<forall>w'. verify_token T c s tok w = (Ok True, w') \<longleftrightarrow>
        (\<exists>b. base32_decode T s = Some b
          \<and> totp_validate T \<lparr>totp_digits = digits c, totp_skew = 1, totp_step = step c,
               totp_secret = b\<rparr> = Inr ()
          \<and> totp_check_current T \<lparr>totp_digits = digits c, totp_skew = 1, totp_step = step c,
               totp_secret = b\<rparr> tok w = (Inr True, w')))
   \<and> (fst (verify_token T c s tok w) = Panic \<longleftrightarrow> base32_decode T s = None)"
proof (intro conjI allI)
  show "fst (verify_token T c s tok w) = Panic \<longleftrightarrow> base32_decode T s = None"
    by (auto simp: verify_token_def new_totp_def io_run Let_def of_sum_def
        split: option.splits sum.splits prod.splits)
qed (auto simp: verify_token_Ok_iff new_totp_Ok_iff)

section \<open>Secrets\<close>

lemma random_chars_Ok:
  "random_chars T n w = (Ok s, w') \<Longrightarrow> length s = n \<and> set s \<subseteq> set charset"
  by (induction n arbitrary: w s) (fastforce simp: io_Ok io_cases)+

lemma random_chars_total:
  assumes "\<And>n w. 0 < n \<Longrightarrow> fst (gen_range T n w) < n"
  shows "\<exists>s w'. random_chars T n w = (Ok s, w')"
proof (induction n arbitrary: w)
  case (Suc n)
  obtain i w1 where i: "gen_range T (length charset) w = (i, w1)"
    by (cases "gen_range T (length charset) w")
  have "i < length charset"
    using assms [of "length charset" w] i by (simp add: charset_def)
  moreover obtain s w' where "random_chars T n w1 = (Ok s, w')" using Suc by blast
  ultimately show ?case using i by (simp add: io_run)
qed (simp add: ret_def)

text \<open>C39: Enrolment always produces a secret of 32 characters of the base32 alphabet: it neither
  fails nor panics. If the decoder accepts 32 characters of that alphabet (RFC 4648: 20 bytes),
  verifying a code against a generated secret never panics.\<close>

theorem generated_secret_usable:
  assumes "\<And>n w. 0 < n \<Longrightarrow> fst (gen_range T n w) < n"
    and "\<And>s. length s = 32 \<Longrightarrow> set s \<subseteq> set charset \<Longrightarrow> base32_decode T s \<noteq> None"
  shows "\<exists>s w'. generate_secret T w = (Ok s, w') \<and> length s = 32 \<and> set s \<subseteq> set charset
    \<and> (\<forall>c tok w1. fst (verify_token T c s tok w1) \<noteq> Panic)"
proof -
  obtain s w' where s: "random_chars T 32 w = (Ok s, w')"
    using random_chars_total [OF assms(1)] by blast
  with random_chars_Ok [OF s] have "base32_decode T s \<noteq> None" by (simp add: assms(2))
  then have "fst (verify_token T c s tok w1) \<noteq> Panic" for c tok w1
    by (auto simp: verify_token_def new_totp_def io_run Let_def of_sum_def
        split: option.splits sum.splits prod.splits)
  with s random_chars_Ok [OF s] show ?thesis by (auto simp: generate_secret_def)
qed

text \<open>A generator that steps through the alphabet and a decoder that keeps the characters.\<close>

definition sample_totp :: "nat totp_lib" where
  "sample_totp = \<lparr>gen_range = (\<lambda>n w. (w mod n, w + 5)),
     base32_decode = (\<lambda>s. if list_all (\<lambda>c. c \<in> set charset) s then Some s else None),
     totp_validate = (\<lambda>t. if length (totp_secret t) < 16 then Inl ''secret too short'' else Inr ()),
     totp_check_current = (\<lambda>t s w. (Inr (s = take (totp_digits t) (totp_secret t)), w)),
     totp_generate_current = (\<lambda>t w. (Inr (take (totp_digits t) (totp_secret t)), w))\<rparr>"

theorem generated_secret_usable_witness:
  "\<exists>s w'. generate_secret sample_totp 3 = (Ok s, w') \<and> length s = 32 \<and> set s \<subseteq> set charset
    \<and> (\<forall>c tok w1. fst (verify_token sample_totp c s tok w1) \<noteq> Panic)"
  by (rule generated_secret_usable) (auto simp: sample_totp_def list_all_iff)

end
