(* ===== verification/Audit_Log.thy ===== *)
theory Audit_Log
  imports Db Json
begin

text \<open>
  \<^verbatim>\<open>src/src/audit/mod.rs\<close>: audit events and the logger that inserts them into
  \<open>audit_log\<close>. \<open>event_type_text\<close> and \<open>outcome_text\<close> are the names the \<open>rename_all\<close>
  attributes give the enumerations. The \<open>tracing\<close> line is not modelled.
\<close>

datatype event_type =
    Authentication
  | Authorization
  | AccessGranted
  | AccessDenied
  | MfaVerification
  | SessionCreated
  | SessionExpired
  | RiskEvaluation
  | PolicyEvaluation
  | DeviceRegistration
  | AnomalyDetected

datatype audit_outcome = Success | Failure | Blocked

record audit_event =
  ev_id :: string
  ev_timestamp :: instant
  ev_type :: event_type
  ev_user_id :: "string option"
  ev_device_id :: "string option"
  ev_ip_address :: string
  ev_resource :: string
  ev_action :: string
  ev_outcome :: audit_outcome
  ev_risk_score :: "u32 option"
  ev_metadata :: json

definition new_event ::
  "'w platform \<Rightarrow> event_type \<Rightarrow> string option \<Rightarrow> string option \<Rightarrow> string \<Rightarrow> string \<Rightarrow> string
     \<Rightarrow> audit_outcome \<Rightarrow> ('w, audit_event) read" where
  "new_event P ty user dev ip res act out w =
     (let (i, w1) = uuid_v4 P w;
          (now, w2) = utc_now P w1
      in (\<lparr>ev_id = i, ev_timestamp = now, ev_type = ty, ev_user_id = user, ev_device_id = dev,
           ev_ip_address = ip, ev_resource = res, ev_action = act, ev_outcome = out,
           ev_risk_score = None, ev_metadata = JObj []\<rparr>, w2))"

definition with_risk_score :: "audit_event \<Rightarrow> u32 \<Rightarrow> audit_event" where
  "with_risk_score e score = e\<lparr>ev_risk_score := Some score\<rparr>"

definition with_metadata :: "audit_event \<Rightarrow> json \<Rightarrow> audit_event" where
  "with_metadata e m = e\<lparr>ev_metadata := m\<rparr>"

fun event_type_text :: "event_type \<Rightarrow> string" where
  "event_type_text Authentication = ''authentication''"
| "event_type_text Authorization = ''authorization''"
| "event_type_text AccessGranted = ''access_granted''"
| "event_type_text AccessDenied = ''access_denied''"
| "event_type_text MfaVerification = ''mfa_verification''"
| "event_type_text SessionCreated = ''session_created''"
| "event_type_text SessionExpired = ''session_expired''"
| "event_type_text RiskEvaluation = ''risk_evaluation''"
| "event_type_text PolicyEvaluation = ''policy_evaluation''"
| "event_type_text DeviceRegistration = ''device_registration''"
| "event_type_text AnomalyDetected = ''anomaly_detected''"

fun outcome_text :: "audit_outcome \<Rightarrow> string" where
  "outcome_text Success = ''success''"
| "outcome_text Failure = ''failure''"
| "outcome_text Blocked = ''blocked''"

definition json_str :: "json option \<Rightarrow> string" where
  "json_str v = (case v of Some (JStr s) \<Rightarrow> s | _ \<Rightarrow> ''unknown'')"

definition fold_device_id :: "string option \<Rightarrow> json \<Rightarrow> json" where
  "fold_device_id dev m =
     (case dev of
        None \<Rightarrow> m
      | Some d \<Rightarrow>
          (case m of
             JObj xs \<Rightarrow> JObj (obj_insert ''device_id'' (JStr d) xs)
           | _ \<Rightarrow> JObj [(''device_id'', JStr d)]))"

definition audit_insert_sql :: string where
  "audit_insert_sql =
     ''INSERT INTO audit_log (id, event_type, user_id, ip_address, resource, action, outcome, '' @
     ''risk_score, metadata) VALUES ($1, $2, $3, $4::inet, $5, $6, $7, $8, $9)''"

definition option_value :: "('a \<Rightarrow> 'j sql_value) \<Rightarrow> 'a option \<Rightarrow> 'j sql_value" where
  "option_value f x = (case x of Some a \<Rightarrow> f a | None \<Rightarrow> SqlNull)"

definition parse_or_fresh :: "'w platform \<Rightarrow> string \<Rightarrow> ('w, uuid) read" where
  "parse_or_fresh P s w = (case parse_uuid P s of Some i \<Rightarrow> (i, w) | None \<Rightarrow> uuid_v4 P w)"

definition audit_binds :: "'w platform \<Rightarrow> audit_event \<Rightarrow> uuid \<Rightarrow> json sql_value list" where
  "audit_binds P e event_id =
     [SqlUuid event_id,
      SqlText (json_str (Some (JStr (event_type_text (ev_type e))))),
      option_value SqlUuid (Option.bind (ev_user_id e) (parse_uuid P)),
      SqlText (if parse_ip P (ev_ip_address e) \<noteq> None then ev_ip_address e else ''0.0.0.0''),
      SqlText (ev_resource e),
      SqlText (ev_action e),
      SqlText (json_str (Some (JStr (outcome_text (ev_outcome e))))),
      option_value SqlInt (ev_risk_score e),
      SqlJson (fold_device_id (ev_device_id e) (ev_metadata e))]"

definition log_event ::
  "'w platform \<Rightarrow> ('w, json) postgres \<Rightarrow> audit_event \<Rightarrow> ('w, string, unit) io" where
  "log_event P D e =
     bind_io (read_io (parse_or_fresh P (ev_id e))) (\<lambda>event_id.
     bind_io (call_io id (pg_execute D audit_insert_sql (audit_binds P e event_id))) (\<lambda>_.
       ret ()))"

definition log_authentication ::
  "'w platform \<Rightarrow> ('w, json) postgres \<Rightarrow> string \<Rightarrow> string \<Rightarrow> string \<Rightarrow> bool
     \<Rightarrow> ('w, string, unit) io" where
  "log_authentication P D user dev ip ok =
     bind_io (read_io (new_event P Authentication (Some user) (Some dev) ip ''/auth/login''
                ''authenticate'' (if ok then Success else Failure)))
       (log_event P D)"

definition log_authorization ::
  "'w platform \<Rightarrow> ('w, json) postgres \<Rightarrow> string \<Rightarrow> string \<Rightarrow> string \<Rightarrow> string \<Rightarrow> bool \<Rightarrow> u32
     \<Rightarrow> ('w, string, unit) io" where
  "log_authorization P D user ip res act allowed score =
     bind_io (read_io (new_event P Authorization (Some user) None ip res act
                (if allowed then Success else Blocked)))
       (\<lambda>e. log_event P D (with_risk_score e score))"

definition log_risk_evaluation ::
  "'w platform \<Rightarrow> ('w, json) postgres \<Rightarrow> string \<Rightarrow> string \<Rightarrow> string \<Rightarrow> u32 \<Rightarrow> json
     \<Rightarrow> ('w, string, unit) io" where
  "log_risk_evaluation P D user dev ip score fs =
     bind_io (read_io (new_event P RiskEvaluation (Some user) (Some dev) ip ''/''
                ''evaluate_risk'' Success))
       (\<lambda>e. log_event P D (with_metadata (with_risk_score e score) fs))"

section \<open>What is recorded\<close>

lemma json_str_JStr [simp]: "json_str (Some (JStr s)) = s"
  by (simp add: json_str_def)

text \<open>Folding the device id into the metadata loses nothing: the column is an object whose
  \<open>device_id\<close> is the event's device, every other key of an object given as metadata keeps its
  value, and the keys stay sorted and distinct, as an object's keys are.\<close>

theorem fold_device_id_keeps:
  assumes "sorted_wrt (<) (map fst xs)"
  shows "\<exists>ys. fold_device_id (Some d) (JObj xs) = JObj ys
    \<and> map_of ys = (map_of xs)(''device_id'' \<mapsto> JStr d) \<and> sorted_wrt (<) (map fst ys)"
  using assms obj_insert_sorted [OF assms] map_of_obj_insert [of xs]
  by (simp add: fold_device_id_def strict_sorted_imp_sorted)

theorem fold_device_id_keeps_witness:
  "\<exists>ys. fold_device_id (Some ''dev-1'') (JObj [(''factors'', JArr []), (''total'', JNum 20)]) = JObj ys
    \<and> map_of ys = (map_of [(''factors'', JArr []), (''total'', JNum 20)])(''device_id'' \<mapsto> JStr ''dev-1'')
    \<and> sorted_wrt (<) (map fst ys)"
  by (rule fold_device_id_keeps) code_simp

end
