(* ===== verification/Float64.thy ===== *)
theory Float64
  imports Prelude "HOL-Library.Log_Nat"
begin

text \<open>
  What the policy engine uses of \<open>f64\<close>: \<open>str::parse::<f64>\<close> and the comparisons \<open><\<close> and
  \<open>>\<close>. A finite double is a multiple of \<open>2 ^ -1074\<close>, held as that multiple, so comparing
  doubles compares integers; the two zeros compare equal and are one value here. Parsing
  rounds the decimal to the nearest double, ties to even, and overflows to infinity.
\<close>

datatype f64 = NaN | PosInf | NegInf | Finite int

fun f64_less :: "f64 \<Rightarrow> f64 \<Rightarrow> bool" where
  "f64_less NaN _ = False"
| "f64_less _ NaN = False"
| "f64_less PosInf _ = False"
| "f64_less _ NegInf = False"
| "f64_less NegInf _ = True"
| "f64_less _ PosInf = True"
| "f64_less (Finite a) (Finite b) = (a < b)"

definition f64_greater :: "f64 \<Rightarrow> f64 \<Rightarrow> bool" where
  "f64_greater a b = f64_less b a"

section \<open>Rounding\<close>

definition round_half_even :: "nat \<Rightarrow> nat \<Rightarrow> nat" where
  "round_half_even n d =
     (let q = n div d; r = n mod d
      in if 2 * r < d \<or> (2 * r = d \<and> even q) then q else q + 1)"

text \<open>
  \<open>num / den\<close> in units of \<open>2 ^ -1074\<close>: exact steps of one unit below \<open>2 ^ 53\<close> units, then
  53 significant bits.
\<close>

definition round_units :: "nat \<Rightarrow> nat \<Rightarrow> nat" where
  "round_units num den =
     (let q = num div den in
      if q < 2 ^ 53 then round_half_even num den
      else let k = floorlog 2 q - 53 in round_half_even num (den * 2 ^ k) * 2 ^ k)"

definition f64_of_decimal :: "bool \<Rightarrow> nat \<Rightarrow> int \<Rightarrow> f64" where
  "f64_of_decimal neg m e =
     (let u = (if 0 \<le> e then round_units (m * 10 ^ nat e * 2 ^ 1074) 1
               else round_units (m * 2 ^ 1074) (10 ^ nat (- e)))
      in if 2 ^ 2098 \<le> u then (if neg then NegInf else PosInf)
         else Finite (if neg then - int u else int u))"

section \<open>Parsing\<close>

definition is_digit :: "char \<Rightarrow> bool" where
  "is_digit c \<longleftrightarrow> 48 \<le> (of_char c :: nat) \<and> (of_char c :: nat) \<le> 57"

definition digits_value :: "string \<Rightarrow> nat" where
  "digits_value ds = foldl (\<lambda>n c. 10 * n + (of_char c - 48)) 0 ds"

definition parse_exponent :: "string \<Rightarrow> int option" where
  "parse_exponent s =
     (case s of
        [] \<Rightarrow> Some 0
      | c # r \<Rightarrow>
          if c = CHR ''e'' \<or> c = CHR ''E'' then
            let neg = (r \<noteq> [] \<and> hd r = CHR ''-'');
                ds = (if r \<noteq> [] \<and> (hd r = CHR ''-'' \<or> hd r = CHR ''+'') then tl r else r)
            in if ds \<noteq> [] \<and> list_all is_digit ds
               then Some (if neg then - int (digits_value ds) else int (digits_value ds))
               else None
          else None)"

definition parse_number :: "string \<Rightarrow> (nat \<times> int) option" where
  "parse_number s =
     (let ip = takeWhile is_digit s;
          r = dropWhile is_digit s;
          dot = (r \<noteq> [] \<and> hd r = CHR ''.'');
          fp = (if dot then takeWhile is_digit (tl r) else []);
          r' = (if dot then dropWhile is_digit (tl r) else r)
      in if ip = [] \<and> fp = [] then None
         else map_option (\<lambda>e. (digits_value (ip @ fp), e - int (length fp))) (parse_exponent r'))"

definition parse_f64 :: "string \<Rightarrow> f64 option" where
  "parse_f64 s =
     (if s = [] then None
      else
        let neg = (hd s = CHR ''-'');
            t = (if hd s = CHR ''-'' \<or> hd s = CHR ''+'' then tl s else s)
        in case parse_number t of
             Some (m, e) \<Rightarrow> Some (f64_of_decimal neg m e)
           | None \<Rightarrow>
               let l = ascii_lower t in
               if l = ''nan'' then Some NaN
               else if l = ''inf'' \<or> l = ''infinity'' then Some (if neg then NegInf else PosInf)
               else None)"

definition f64_or_zero :: "string \<Rightarrow> f64" where
  "f64_or_zero s = (case parse_f64 s of Some x \<Rightarrow> x | None \<Rightarrow> Finite 0)"

end
