(* ===== verification/Policy.thy ===== *)
theory Policy
  imports Errors Float64
begin

text \<open>
  \<^verbatim>\<open>src/src/policy/mod.rs\<close>: the policy engine. The declarative reading of
  a decision (\<open>decides\<close>) is the specification the loop of \<open>evaluate\<close> is proved to implement.
\<close>

record policy_context =
  pc_user_id :: string
  pc_resource :: string
  pc_action :: string
  pc_attributes :: "string \<rightharpoonup> string"

record policy_decision =
  allowed :: bool
  reason :: string
  required_permissions :: "string list"

datatype policy_effect = Allow | Deny

datatype operator = Equals | NotEquals | Contains | GreaterThan | LessThan

record condition =
  attribute :: string
  operator_of :: operator
  operand :: string

record policy_rule =
  resource_pattern :: string
  actions :: "string list"
  conditions :: "condition list"
  rule_effect :: policy_effect

record policy =
  policy_id :: string
  policy_name :: string
  policy_description :: string
  rules :: "policy_rule list"

record policy_engine =
  policies :: "policy list"
  default_deny :: bool

definition new_policy_engine :: "bool \<Rightarrow> policy_engine" where
  "new_policy_engine dd = \<lparr>policies = [], default_deny = dd\<rparr>"

definition add_policy :: "policy \<Rightarrow> policy_engine \<Rightarrow> policy_engine" where
  "add_policy p eng = eng\<lparr>policies := policies eng @ [p]\<rparr>"

definition matches_resource :: "string \<Rightarrow> string \<Rightarrow> bool" where
  "matches_resource pat res =
     (if pat = ''*'' then True
      else case strip_suffix_char pat CHR ''*'' of
             Some p \<Rightarrow> starts_with res p
           | None \<Rightarrow> pat = res)"

definition condition_holds :: "condition \<Rightarrow> string \<Rightarrow> bool" where
  "condition_holds c v =
     (case operator_of c of
        Equals \<Rightarrow> v = operand c
      | NotEquals \<Rightarrow> v \<noteq> operand c
      | Contains \<Rightarrow> contains v (operand c)
      | GreaterThan \<Rightarrow> f64_greater (f64_or_zero v) (f64_or_zero (operand c))
      | LessThan \<Rightarrow> f64_less (f64_or_zero v) (f64_or_zero (operand c)))"

fun evaluate_conditions :: "condition list \<Rightarrow> (string \<rightharpoonup> string) \<Rightarrow> bool" where
  "evaluate_conditions [] attrs = True"
| "evaluate_conditions (c # cs) attrs =
     (case attrs (attribute c) of
        Some v \<Rightarrow> if \<not> condition_holds c v then False else evaluate_conditions cs attrs
      | None \<Rightarrow> False)"

text \<open>The loop's state: \<open>allow_found\<close>, \<open>deny_found\<close>, \<open>reasons\<close>.\<close>

type_synonym verdict = "bool \<times> bool \<times> string list"

definition apply_rule :: "policy_context \<Rightarrow> string \<Rightarrow> policy_rule \<Rightarrow> verdict \<Rightarrow> verdict" where
  "apply_rule ctx pname r v =
     (case v of (allow_found, deny_found, reasons) \<Rightarrow>
        if matches_resource (resource_pattern r) (pc_resource ctx)
           \<and> pc_action ctx \<in> set (actions r)
        then if evaluate_conditions (conditions r) (pc_attributes ctx)
             then (case rule_effect r of
                     Allow \<Rightarrow> (True, deny_found, reasons @ [''Allowed by policy: '' @ pname])
                   | Deny \<Rightarrow> (allow_found, True, reasons @ [''Denied by policy: '' @ pname]))
             else v
        else v)"

definition apply_policy :: "policy_context \<Rightarrow> policy \<Rightarrow> verdict \<Rightarrow> verdict" where
  "apply_policy ctx p v = fold (apply_rule ctx (policy_name p)) (rules p) v"

definition evaluate :: "policy_engine \<Rightarrow> policy_context \<Rightarrow> policy_decision proxy_result" where
  "evaluate eng ctx =
     (case fold (apply_policy ctx) (policies eng) (False, False, []) of
        (allow_found, deny_found, reasons) \<Rightarrow>
          if deny_found then
            Ok \<lparr>allowed = False, reason = join_with ''; '' reasons, required_permissions = []\<rparr>
          else if allow_found then
            Ok \<lparr>allowed = True, reason = join_with ''; '' reasons, required_permissions = []\<rparr>
          else if default_deny eng then
            Ok \<lparr>allowed = False, reason = ''No matching policy - default deny'',
                required_permissions = []\<rparr>
          else
            Ok \<lparr>allowed = True, reason = ''No matching policy - default allow'',
                required_permissions = []\<rparr>)"

section \<open>Specification\<close>

definition rule_applies :: "policy_context \<Rightarrow> policy_rule \<Rightarrow> bool" where
  "rule_applies ctx r \<longleftrightarrow>
     matches_resource (resource_pattern r) (pc_resource ctx) \<and> pc_action ctx \<in> set (actions r)
     \<and> (\<forall>c \<in> set (conditions r). \<exists>v. pc_attributes ctx (attribute c) = Some v \<and> condition_holds c v)"

definition engine_rules :: "policy_engine \<Rightarrow> policy_rule set" where
  "engine_rules eng = (\<Union>p \<in> set (policies eng). set (rules p))"

definition decides :: "policy_engine \<Rightarrow> policy_context \<Rightarrow> bool" where
  "decides eng ctx \<longleftrightarrow>
     (let applying = {r \<in> engine_rules eng. rule_applies ctx r} in
      if \<exists>r \<in> applying. rule_effect r = Deny then False
      else if \<exists>r \<in> applying. rule_effect r = Allow then True
      else \<not> default_deny eng)"

lemma evaluate_conditions_iff:
  "evaluate_conditions cs attrs \<longleftrightarrow>
     (\<forall>c \<in> set cs. \<exists>v. attrs (attribute c) = Some v \<and> condition_holds c v)"
  by (induction cs) (auto split: option.splits)

lemma apply_rule_found:
  "fst (apply_rule ctx n r v) \<longleftrightarrow> fst v \<or> (rule_applies ctx r \<and> rule_effect r = Allow)"
  "fst (snd (apply_rule ctx n r v)) \<longleftrightarrow> fst (snd v) \<or> (rule_applies ctx r \<and> rule_effect r = Deny)"
  by (auto simp: apply_rule_def rule_applies_def evaluate_conditions_iff
      split: prod.splits policy_effect.splits)

lemma fold_rules_found:
  "fst (fold (apply_rule ctx n) rs v) \<longleftrightarrow>
     fst v \<or> (\<exists>r \<in> set rs. rule_applies ctx r \<and> rule_effect r = Allow)"
  "fst (snd (fold (apply_rule ctx n) rs v)) \<longleftrightarrow>
     fst (snd v) \<or> (\<exists>r \<in> set rs. rule_applies ctx r \<and> rule_effect r = Deny)"
  by (induction rs arbitrary: v) (auto simp: apply_rule_found)

lemma fold_policies_found:
  "fst (fold (apply_policy ctx) ps v) \<longleftrightarrow>
     fst v \<or> (\<exists>p \<in> set ps. \<exists>r \<in> set (rules p). rule_applies ctx r \<and> rule_effect r = Allow)"
  "fst (snd (fold (apply_policy ctx) ps v)) \<longleftrightarrow>
     fst (snd v) \<or> (\<exists>p \<in> set ps. \<exists>r \<in> set (rules p). rule_applies ctx r \<and> rule_effect r = Deny)"
  by (induction ps arbitrary: v) (auto simp: apply_policy_def fold_rules_found)

lemma evaluate_decides: "\<exists>d. evaluate eng ctx = Ok d \<and> allowed d = decides eng ctx"
proof -
  obtain a dn rs where v: "fold (apply_policy ctx) (policies eng) (False, False, []) = (a, dn, rs)"
    by (metis prod_cases3)
  have "a \<longleftrightarrow> (\<exists>r \<in> engine_rules eng. rule_applies ctx r \<and> rule_effect r = Allow)"
    "dn \<longleftrightarrow> (\<exists>r \<in> engine_rules eng. rule_applies ctx r \<and> rule_effect r = Deny)"
    using fold_policies_found [of ctx "policies eng" "(False, False, [])"] v
    by (auto simp: engine_rules_def)
  with v show ?thesis by (auto simp: evaluate_def decides_def Let_def)
qed

lemma evaluate_Ok_iff: "evaluate eng ctx = Ok d \<Longrightarrow> allowed d \<longleftrightarrow> decides eng ctx"
  using evaluate_decides [of eng ctx] by auto

lemma decides_set:
  "engine_rules eng = engine_rules eng' \<Longrightarrow> default_deny eng = default_deny eng'
     \<Longrightarrow> decides eng ctx = decides eng' ctx"
  by (simp only: decides_def)

lemma engine_rules_add [simp]:
  "engine_rules (add_policy p eng) = engine_rules eng \<union> set (rules p)"
  by (auto simp: engine_rules_def add_policy_def)

section \<open>Properties\<close>

text \<open>C15: the loop of \<open>evaluate\<close> implements the declarative decision. It never fails, and it
  allows a request exactly when no applying rule denies it and either an applying rule allows
  it or no rule applies under a default-allow engine.\<close>

theorem evaluate_implements_decides:
  "\<exists>d. evaluate eng ctx = Ok d \<and> allowed d = decides eng ctx"
  by (rule evaluate_decides)

text \<open>C37: the decision does not depend on the order of policies and rules, on how rules are
  grouped into policies or on duplicates: two engines with the same set of rules and the same
  default decide alike.\<close>

theorem evaluate_order_independent:
  assumes "engine_rules eng = engine_rules eng'" "default_deny eng = default_deny eng'"
    and "evaluate eng ctx = Ok d" "evaluate eng' ctx = Ok d'"
  shows "allowed d = allowed d'"
  using evaluate_Ok_iff [OF assms(3)] evaluate_Ok_iff [OF assms(4)] decides_set [OF assms(1,2)]
  by simp

definition read_rule :: policy_rule where
  "read_rule = \<lparr>resource_pattern = ''/api/*'', actions = [''get''], conditions = [],
     rule_effect = Allow\<rparr>"

definition secret_rule :: policy_rule where
  "secret_rule = \<lparr>resource_pattern = ''/api/secret'', actions = [''get''], conditions = [],
     rule_effect = Deny\<rparr>"

definition policy_of :: "string \<Rightarrow> policy_rule list \<Rightarrow> policy" where
  "policy_of n rs = \<lparr>policy_id = n, policy_name = n, policy_description = [], rules = rs\<rparr>"

definition get_ctx :: "string \<Rightarrow> policy_context" where
  "get_ctx res = \<lparr>pc_user_id = ''u'', pc_resource = res, pc_action = ''get'',
     pc_attributes = Map.empty\<rparr>"

lemmas policy_example_defs = read_rule_def secret_rule_def policy_of_def get_ctx_def
  evaluate_def apply_policy_def apply_rule_def matches_resource_def strip_suffix_char_def
  starts_with_def add_policy_def new_policy_engine_def

theorem evaluate_order_independent_witness:
  "\<exists>d d'. evaluate \<lparr>policies = [policy_of ''a'' [read_rule, secret_rule]], default_deny = True\<rparr>
        (get_ctx ''/api/secret'') = Ok d
     \<and> evaluate \<lparr>policies = [policy_of ''b'' [secret_rule], policy_of ''c'' [read_rule]],
          default_deny = True\<rparr> (get_ctx ''/api/secret'') = Ok d'
     \<and> allowed d = allowed d' \<and> \<not> allowed d"
proof -
  let ?e = "\<lparr>policies = [policy_of ''a'' [read_rule, secret_rule]], default_deny = True\<rparr>"
  let ?e' = "\<lparr>policies = [policy_of ''b'' [secret_rule], policy_of ''c'' [read_rule]],
    default_deny = True\<rparr>"
  obtain d where d: "evaluate ?e (get_ctx ''/api/secret'') = Ok d" "\<not> allowed d"
    by (simp add: policy_example_defs)
  obtain d' where d': "evaluate ?e' (get_ctx ''/api/secret'') = Ok d'"
    by (simp add: policy_example_defs)
  have "engine_rules ?e = engine_rules ?e'"
    by (auto simp: engine_rules_def policy_of_def)
  from evaluate_order_independent [OF this _ d(1) d'] d d' show ?thesis by auto
qed

text \<open>Deny rules only restrict. Adding a policy whose rules all deny never allows a request
  that the engine denied before, whatever its default.\<close>

theorem deny_policy_only_restricts:
  assumes "\<forall>r \<in> set (rules p). rule_effect r = Deny"
    and "evaluate (add_policy p eng) ctx = Ok d'" "allowed d'"
    and "evaluate eng ctx = Ok d"
  shows "allowed d"
proof -
  have "decides (add_policy p eng) ctx"
    using evaluate_Ok_iff [OF assms(2)] assms(3) by simp
  with assms(1) have "decides eng ctx"
    by (auto simp: decides_def add_policy_def Let_def engine_rules_def split: if_splits)
  with evaluate_Ok_iff [OF assms(4)] show ?thesis by simp
qed

theorem deny_policy_only_restricts_witness:
  "\<exists>d d'. evaluate (add_policy (policy_of ''d'' [secret_rule])
        \<lparr>policies = [policy_of ''a'' [read_rule]], default_deny = True\<rparr>) (get_ctx ''/api/x'') = Ok d'
     \<and> evaluate \<lparr>policies = [policy_of ''a'' [read_rule]], default_deny = True\<rparr> (get_ctx ''/api/x'')
         = Ok d \<and> allowed d"
proof -
  let ?e = "\<lparr>policies = [policy_of ''a'' [read_rule]], default_deny = True\<rparr>"
  obtain d where d: "evaluate ?e (get_ctx ''/api/x'') = Ok d"
    by (simp add: policy_example_defs)
  obtain d' where d': "evaluate (add_policy (policy_of ''d'' [secret_rule]) ?e) (get_ctx ''/api/x'')
      = Ok d'" "allowed d'"
    by (simp add: policy_example_defs)
  have "\<forall>r \<in> set (rules (policy_of ''d'' [secret_rule])). rule_effect r = Deny"
    by (simp add: policy_of_def secret_rule_def)
  from deny_policy_only_restricts [OF this d' d] d d' show ?thesis by blast
qed

text \<open>wildcard matching. A pattern matches its own text; a pattern that ends in a star
  matches every resource that starts with the text before the star; nothing else matches.\<close>

lemma matches_resource_iff:
  "matches_resource pat res \<longleftrightarrow>
     (\<exists>p. pat = p @ ''*'' \<and> (\<exists>t. res = p @ t)) \<or> ((\<nexists>p. pat = p @ ''*'') \<and> pat = res)"
  by (auto simp: matches_resource_def starts_with_iff strip_suffix_char_Some_iff
      strip_suffix_char_None_iff split: option.splits)

end
