(* ===== verification/Device.thy ===== *)
theory Device
  imports Platform
begin

text \<open>
  \<^verbatim>\<open>src/src/auth/device.rs\<close>: the fingerprint of the device a request
  comes from, the platform and browser read off the user agent, and the trust score with
  its two adjustments. The contract both adjustments keep is the locale
  \<open>trust_adjustment\<close>.
\<close>

record device_metadata =
  screen_resolution :: "string option"
  timezone :: "string option"
  language :: "string option"
  platform_version :: "string option"
  hardware_concurrency :: "u32 option"

definition no_metadata :: device_metadata where
  "no_metadata = \<lparr>screen_resolution = None, timezone = None, language = None,
     platform_version = None, hardware_concurrency = None\<rparr>"

record device_fingerprint =
  dev_id :: string
  dev_user_id :: string
  fingerprint_hash :: string
  dev_user_agent :: string
  dev_ip_address :: string
  dev_platform :: string
  dev_browser :: string
  trust_score :: u32
  is_trusted :: bool
  first_seen :: instant
  last_seen :: instant
  dev_metadata :: device_metadata

section \<open>Construction\<close>

definition opt_text :: "string option \<Rightarrow> string" where
  "opt_text x = (case x of Some s \<Rightarrow> s | None \<Rightarrow> [])"

text \<open>The hasher is fed piece by piece, which hashes the concatenation.\<close>

definition generate_hash ::
  "(string \<Rightarrow> string) \<Rightarrow> string \<Rightarrow> string \<Rightarrow> device_metadata \<Rightarrow> string" where
  "generate_hash sha ua ip m =
     sha (ua @ ip @ opt_text (screen_resolution m) @ opt_text (timezone m) @ opt_text (language m))"

definition parse_user_agent :: "string \<Rightarrow> string \<times> string" where
  "parse_user_agent ua =
     ((if contains ua ''Windows'' then ''Windows''
       else if contains ua ''Mac'' then ''macOS''
       else if contains ua ''Linux'' then ''Linux''
       else if contains ua ''Android'' then ''Android''
       else if contains ua ''iOS'' then ''iOS''
       else ''Unknown''),
      (if contains ua ''Chrome'' then ''Chrome''
       else if contains ua ''Firefox'' then ''Firefox''
       else if contains ua ''Safari'' then ''Safari''
       else if contains ua ''Edge'' then ''Edge''
       else ''Unknown''))"

text \<open>The fields are evaluated in the order of the struct expression.\<close>

definition new_device ::
  "'w platform \<Rightarrow> string \<Rightarrow> string \<Rightarrow> string \<Rightarrow> device_metadata
     \<Rightarrow> ('w, device_fingerprint) read" where
  "new_device P user ua ip m w =
     (let h = generate_hash (sha256_hex P) ua ip m;
          (plat, brow) = parse_user_agent ua;
          (i, w1) = uuid_v4 P w;
          (t1, w2) = utc_now P w1;
          (t2, w3) = utc_now P w2
      in (\<lparr>dev_id = i, dev_user_id = user, fingerprint_hash = h, dev_user_agent = ua,
           dev_ip_address = ip, dev_platform = plat, dev_browser = brow, trust_score = 50,
           is_trusted = False, first_seen = t1, last_seen = t2, dev_metadata = m\<rparr>, w3))"

definition update_last_seen :: "'w platform \<Rightarrow> device_fingerprint \<Rightarrow> ('w, device_fingerprint) read"
  where
  "update_last_seen P d w = (case utc_now P w of (t, w') \<Rightarrow> (d\<lparr>last_seen := t\<rparr>, w'))"

section \<open>Trust\<close>

text \<open>\<open>self.trust_score + amount\<close> is \<open>u32\<close> addition, which wraps in a release build.\<close>

definition increase_trust :: "u32 \<Rightarrow> device_fingerprint \<Rightarrow> device_fingerprint" where
  "increase_trust amount d =
     (let s = min (trust_score d + amount) 100;
          d' = d\<lparr>trust_score := s\<rparr>
      in if 70 \<le> s then d'\<lparr>is_trusted := True\<rparr> else d')"

definition decrease_trust :: "u32 \<Rightarrow> device_fingerprint \<Rightarrow> device_fingerprint" where
  "decrease_trust amount d =
     (let s = saturating_sub_u32 (trust_score d) amount;
          d' = d\<lparr>trust_score := s\<rparr>
      in if s < 70 then d'\<lparr>is_trusted := False\<rparr> else d')"

text \<open>
  Well-formed trust: a score of 0 to 100, and trusted exactly from 70 on. This is what the
  database column promises (\<open>CHECK (trust_score >= 0 AND trust_score <= 100)\<close>) plus the agreement of
  the flag with the score, which no constraint states.
\<close>

definition trust_wf :: "device_fingerprint \<Rightarrow> bool" where
  "trust_wf d \<longleftrightarrow> trust_score d \<le> 100 \<and> (is_trusted d \<longleftrightarrow> 70 \<le> trust_score d)"

definition same_device :: "device_fingerprint \<Rightarrow> device_fingerprint \<Rightarrow> bool" where
  "same_device d d' \<longleftrightarrow>
     d'\<lparr>trust_score := trust_score d, is_trusted := is_trusted d\<rparr> = d"

section \<open>The contract of an adjustment\<close>

text \<open>
  Login adjusts the stored trust of a device by a fixed amount: up after a success, down
  after a failure. Either adjustment keeps the trust well formed, changes nothing but the
  score and the flag, and moves the score by a known function. The clients reason over any
  number of adjustments with these laws alone.
\<close>

lemma trust_wf_iff_nat:
  "trust_wf d \<longleftrightarrow> unat (trust_score d) \<le> 100 \<and> (is_trusted d \<longleftrightarrow> 70 \<le> unat (trust_score d))"
  by (simp add: trust_wf_def word_le_nat_alt)

lemma same_device_refl [simp]: "same_device d d"
  by (simp add: same_device_def)

lemma same_device_trans: "same_device a b \<Longrightarrow> same_device b c \<Longrightarrow> same_device a c"
  unfolding same_device_def
  by (metis (mono_tags, lifting) device_fingerprint.surjective device_fingerprint.update_convs(8,9))

locale trust_adjustment =
  fixes adjust :: "device_fingerprint \<Rightarrow> device_fingerprint"
    and delta :: "nat \<Rightarrow> nat"
  assumes adjust_wf: "trust_wf d \<Longrightarrow> trust_wf (adjust d)"
    and adjust_same: "same_device d (adjust d)"
    and adjust_score: "trust_wf d \<Longrightarrow> unat (trust_score (adjust d)) = delta (unat (trust_score d))"
begin

lemma repeat_wf: "trust_wf d \<Longrightarrow> trust_wf ((adjust ^^ n) d)"
  by (induction n) (simp_all add: adjust_wf)

lemma repeat_same: "same_device d ((adjust ^^ n) d)"
  by (induction n) (auto intro: same_device_trans adjust_same)

lemma repeat_score:
  "trust_wf d \<Longrightarrow> unat (trust_score ((adjust ^^ n) d)) = (delta ^^ n) (unat (trust_score d))"
  by (induction n) (simp_all add: adjust_score repeat_wf)

lemma repeat_trusted:
  "trust_wf d \<Longrightarrow> is_trusted ((adjust ^^ n) d) \<longleftrightarrow> 70 \<le> (delta ^^ n) (unat (trust_score d))"
  using repeat_wf [of d n] repeat_score [of d n] by (simp add: trust_wf_iff_nat)

end

lemma increase_trust_score:
  assumes "unat (trust_score d) + unat amount < 2 ^ 32"
  shows "unat (trust_score (increase_trust amount d)) = min (unat (trust_score d) + unat amount) 100"
  using unat_add_no_wrap [OF assms]
  by (simp add: increase_trust_def Let_def min_def word_le_nat_alt)

lemma decrease_trust_score:
  "unat (trust_score (decrease_trust amount d)) = unat (trust_score d) - unat amount"
  by (simp add: decrease_trust_def Let_def unat_saturating_sub_u32)

lemma increase_trust_wf:
  assumes "trust_wf d" "unat amount < 2 ^ 32 - 100"
  shows "trust_wf (increase_trust amount d)"
proof -
  have "unat (trust_score d) + unat amount < 2 ^ 32"
    using assms by (simp add: trust_wf_iff_nat)
  from increase_trust_score [OF this] assms(1) show ?thesis
    by (auto simp: trust_wf_iff_nat increase_trust_def Let_def word_le_nat_alt)
qed

lemma decrease_trust_wf: "trust_wf d \<Longrightarrow> trust_wf (decrease_trust amount d)"
  using decrease_trust_score [of amount d]
  by (auto simp: trust_wf_iff_nat decrease_trust_def Let_def word_less_nat_alt)

interpretation success: trust_adjustment "increase_trust 10" "\<lambda>t. min (t + 10) 100"
proof
  show "trust_wf d \<Longrightarrow> trust_wf (increase_trust 10 d)" for d
    by (rule increase_trust_wf) simp_all
  show "same_device d (increase_trust 10 d)" for d
    by (simp add: same_device_def increase_trust_def Let_def)
  show "unat (trust_score (increase_trust 10 d)) = min (unat (trust_score d) + 10) 100"
    if "trust_wf d" for d
    using increase_trust_score [of d 10] that by (simp add: trust_wf_iff_nat)
qed

interpretation failure: trust_adjustment "decrease_trust 15" "\<lambda>t. t - 15"
proof
  show "trust_wf d \<Longrightarrow> trust_wf (decrease_trust 15 d)" for d
    by (rule decrease_trust_wf)
  show "same_device d (decrease_trust 15 d)" for d
    by (simp add: same_device_def decrease_trust_def Let_def)
  show "unat (trust_score (decrease_trust 15 d)) = unat (trust_score d) - 15" for d
    by (simp add: decrease_trust_score)
qed

lemma funpow_diff: "((\<lambda>t. t - k) ^^ n) t = t - k * n" for t k n :: nat
  by (induction n) (simp_all add: algebra_simps)

lemma funpow_add_cap: "0 < k \<Longrightarrow> t \<le> c \<Longrightarrow> ((\<lambda>t. min (t + k) c) ^^ n) t = min (t + k * n) c" for t k n c :: nat
  by (induction n) (auto simp: min_def algebra_simps)

lemma new_device_neutral:
  assumes "new_device P user ua ip m w = (d, w')"
  shows "trust_score d = 50" "is_trusted d = False" "dev_user_id d = user"
    "fingerprint_hash d = generate_hash (sha256_hex P) ua ip m" "dev_user_agent d = ua"
    "(dev_platform d, dev_browser d) = parse_user_agent ua"
    "\<exists>i w1 w2. uuid_v4 P w = (i, w1) \<and> utc_now P w1 = (first_seen d, w2)
       \<and> utc_now P w2 = (last_seen d, w')"
  using assms by (auto simp: new_device_def Let_def split: prod.splits)

lemma new_device_wf: "new_device P user ua ip m w = (d, w') \<Longrightarrow> trust_wf d"
  by (auto simp: trust_wf_def new_device_neutral)

section \<open>Properties\<close>

text \<open>repeated failed logins wear the trust of a device down by 15 points each, never below
  zero and never wrapping. The result stays well formed, so the trusted flag is lost exactly when
  the score falls under 70, and nothing but the score and the flag changes.\<close>

lemma trust_after_failures:
  assumes "trust_wf d"
  shows "trust_wf ((decrease_trust 15 ^^ n) d) \<and> same_device d ((decrease_trust 15 ^^ n) d)
    \<and> unat (trust_score ((decrease_trust 15 ^^ n) d)) = unat (trust_score d) - 15 * n
    \<and> (is_trusted ((decrease_trust 15 ^^ n) d) \<longleftrightarrow> 70 + 15 * n \<le> unat (trust_score d))"
  using failure.repeat_wf [OF assms, of n] failure.repeat_same [of d n]
    failure.repeat_score [OF assms, of n] failure.repeat_trusted [OF assms, of n]
  by (auto simp: funpow_diff)

definition sample_device :: "u32 \<Rightarrow> bool \<Rightarrow> device_fingerprint" where
  "sample_device s t = \<lparr>dev_id = ''d'', dev_user_id = ''u'', fingerprint_hash = ''h'',
     dev_user_agent = ''Mozilla/5.0'', dev_ip_address = ''10.0.0.1'', dev_platform = ''Linux'',
     dev_browser = ''Firefox'', trust_score = s, is_trusted = t, first_seen = 0, last_seen = 0,
     dev_metadata = no_metadata\<rparr>"

lemma sample_device_trust [simp]:
  "trust_score (sample_device s t) = s" "is_trusted (sample_device s t) = t"
  "trust_wf (sample_device s t) \<longleftrightarrow> s \<le> 100 \<and> (t \<longleftrightarrow> 70 \<le> s)"
  by (simp_all add: sample_device_def trust_wf_def)

theorem trust_after_failures_witness:
  "unat (trust_score ((decrease_trust 15 ^^ 2) (sample_device 90 True))) = 60
   \<and> \<not> is_trusted ((decrease_trust 15 ^^ 2) (sample_device 90 True))"
  using trust_after_failures [of "sample_device 90 True" 2] by simp

text \<open>repeated successful logins from a known device raise its trust by 10 points each up to
  100. A device of neutral trust 50 is trusted after the second one.\<close>

lemma trust_after_successes:
  assumes "trust_wf d"
  shows "trust_wf ((increase_trust 10 ^^ n) d) \<and> same_device d ((increase_trust 10 ^^ n) d)
    \<and> unat (trust_score ((increase_trust 10 ^^ n) d)) = min (unat (trust_score d) + 10 * n) 100
    \<and> (is_trusted ((increase_trust 10 ^^ n) d) \<longleftrightarrow> 70 \<le> unat (trust_score d) + 10 * n)"
proof -
  have "((\<lambda>t. min (t + 10) 100) ^^ n) (unat (trust_score d)) = min (unat (trust_score d) + 10 * n) 100"
    using assms by (intro funpow_add_cap) (simp_all add: trust_wf_iff_nat)
  with success.repeat_wf [OF assms, of n] success.repeat_same [of d n]
    success.repeat_score [OF assms, of n] success.repeat_trusted [OF assms, of n]
  show ?thesis by auto
qed

theorem trust_after_successes_witness:
  "is_trusted ((increase_trust 10 ^^ 2) (sample_device 50 False))
   \<and> unat (trust_score ((increase_trust 10 ^^ 7) (sample_device 50 False))) = 100"
  using trust_after_successes [of "sample_device 50 False" 2]
    trust_after_successes [of "sample_device 50 False" 7]
  by simp

text \<open>The order of the platform tests decides. A user agent is reported as Android only when
  it names neither Windows, Mac nor Linux, and as iOS only when it names none of these nor Android.
  The user agents of Android phones name Linux and those of iPhones name Mac OS X, so they are
  reported as Linux and macOS.\<close>

theorem parse_user_agent_platform:
  "(fst (parse_user_agent ua) = ''Android'' \<longleftrightarrow>
      contains ua ''Android'' \<and> \<not> contains ua ''Windows'' \<and> \<not> contains ua ''Mac''
      \<and> \<not> contains ua ''Linux'')
   \<and> (fst (parse_user_agent ua) = ''iOS'' \<longleftrightarrow>
      contains ua ''iOS'' \<and> \<not> contains ua ''Windows'' \<and> \<not> contains ua ''Mac''
      \<and> \<not> contains ua ''Linux'' \<and> \<not> contains ua ''Android'')
   \<and> parse_user_agent (''Mozilla/5.0 (Linux; Android 14) Chrome/120'') = (''Linux'', ''Chrome'')
   \<and> parse_user_agent (''Mozilla/5.0 (iPhone; CPU iPhone OS 17 like Mac OS X) Safari/605'')
       = (''macOS'', ''Safari'')"
proof -
  have "parse_user_agent (''Mozilla/5.0 (Linux; Android 14) Chrome/120'') = (''Linux'', ''Chrome'')"
    "parse_user_agent (''Mozilla/5.0 (iPhone; CPU iPhone OS 17 like Mac OS X) Safari/605'')
       = (''macOS'', ''Safari'')"
    by code_simp+
  then show ?thesis by (auto simp: parse_user_agent_def)
qed

end
