(* ===== verification/Risk.thy ===== *)
theory Risk
  imports Device
begin

text \<open>
  \<^verbatim>\<open>src/src/risk/mod.rs\<close>: the risk engine. A score is the capped sum of
  the factors that apply; the level and the recommendation are read off the total.
\<close>

text \<open>An \<open>f64\<close> the engine only stores: its bits.\<close>

record geo_location =
  country :: string
  city :: "string option"
  latitude :: u64
  longitude :: u64

record risk_context =
  rc_user_id :: string
  rc_device :: device_fingerprint
  rc_ip_address :: ip_addr
  rc_timestamp :: instant
  rc_geolocation :: "geo_location option"
  rc_previous_ip :: "ip_addr option"
  rc_session_age_minutes :: int
  rc_failed_attempts :: u32
  rc_time_since_last_success_hours :: "int option"

record risk_factor =
  rf_name :: string
  rf_score :: u32
  rf_description :: string

datatype risk_level = Low | Medium | High | Critical

datatype risk_recommendation = Allow_request | StepUpAuth | Block

record risk_score =
  total_score :: u32
  factors :: "risk_factor list"
  level :: risk_level
  recommendation :: risk_recommendation

record risk_engine =
  step_up_threshold :: u32
  block_threshold :: u32

definition new_risk_engine :: "u32 \<Rightarrow> u32 \<Rightarrow> risk_engine" where
  "new_risk_engine su bl = \<lparr>step_up_threshold = su, block_threshold = bl\<rparr>"

section \<open>The factors\<close>

definition calculate_device_risk ::
  "'w platform \<Rightarrow> device_fingerprint \<Rightarrow> ('w, u32) read" where
  "calculate_device_risk P d w =
     (let r1 = (0 :: u32);
          r2 = (if \<not> is_trusted d then r1 + 25 else r1);
          r3 = (if trust_score d < 50 then r2 + 15 else r2);
          (now, w') = utc_now P w;
          days = num_days (now - first_seen d);
          r4 = (if days < 1 then r3 + 20 else if days < 7 then r3 + 10 else r3)
      in (r4, w'))"

definition calculate_geo_risk :: "risk_factor option" where
  "calculate_geo_risk = None"

definition calculate_failed_attempts_risk :: "u32 \<Rightarrow> u32" where
  "calculate_failed_attempts_risk n =
     (if 1 \<le> n \<and> n \<le> 2 then 10
      else if 3 \<le> n \<and> n \<le> 5 then 25
      else if 6 \<le> n \<and> n \<le> 10 then 40
      else 60)"

definition calculate_time_risk :: "risk_context \<Rightarrow> risk_factor option" where
  "calculate_time_risk ctx =
     (let hour = hour_of (rc_timestamp ctx) in
      if 2 \<le> hour \<and> hour < 5
      then Some \<lparr>rf_name = ''Unusual Time'', rf_score = 15,
                 rf_description = ''Login during unusual hours''\<rparr>
      else None)"

definition calculate_ip_change_risk :: "risk_context \<Rightarrow> risk_factor option" where
  "calculate_ip_change_risk ctx =
     (case rc_previous_ip ctx of
        Some prev \<Rightarrow>
          if prev \<noteq> rc_ip_address ctx
          then Some \<lparr>rf_name = ''IP Change'', rf_score = 20,
                     rf_description = ''IP address changed within session''\<rparr>
          else None
      | None \<Rightarrow> None)"

definition calculate_session_age_risk :: "int \<Rightarrow> u32" where
  "calculate_session_age_risk age = (if age > 120 then 30 else if age > 60 then 15 else 0)"

section \<open>The score\<close>

type_synonym tally = "risk_factor list \<times> u32"

text \<open>\<open>factors.push(f); total_score += f.score\<close>\<close>

definition push_factor :: "risk_factor \<Rightarrow> tally \<Rightarrow> tally" where
  "push_factor f acc = (fst acc @ [f], snd acc + rf_score f)"

definition push_option :: "risk_factor option \<Rightarrow> tally \<Rightarrow> tally" where
  "push_option x acc = (case x of Some f \<Rightarrow> push_factor f acc | None \<Rightarrow> acc)"

definition risk_level_of :: "u32 \<Rightarrow> risk_level" where
  "risk_level_of t =
     (if t \<le> 30 then Low else if t \<le> 60 then Medium else if t \<le> 85 then High else Critical)"

definition recommend :: "risk_engine \<Rightarrow> u32 \<Rightarrow> risk_recommendation" where
  "recommend eng t =
     (if block_threshold eng \<le> t then Block
      else if step_up_threshold eng \<le> t then StepUpAuth else Allow_request)"

definition tally_risk :: "risk_context \<Rightarrow> u32 \<Rightarrow> tally" where
  "tally_risk ctx device_risk =
     (let acc = ([], 0);
          acc = (if device_risk > 0
                 then push_factor \<lparr>rf_name = ''Device Trust'', rf_score = device_risk,
                        rf_description = ''Device trust score: ''
                          @ u32_text (trust_score (rc_device ctx))\<rparr> acc
                 else acc);
          acc = push_option calculate_geo_risk acc;
          acc = (if rc_failed_attempts ctx > 0
                 then push_factor \<lparr>rf_name = ''Failed Attempts'',
                        rf_score = calculate_failed_attempts_risk (rc_failed_attempts ctx),
                        rf_description = u32_text (rc_failed_attempts ctx) @ '' failed attempts''\<rparr> acc
                 else acc);
          acc = push_option (calculate_time_risk ctx) acc;
          acc = push_option (calculate_ip_change_risk ctx) acc;
          session_risk = calculate_session_age_risk (rc_session_age_minutes ctx)
      in if session_risk > 0
         then push_factor \<lparr>rf_name = ''Session Age'', rf_score = session_risk,
                rf_description = ''Session age: ''
                  @ int_text (rc_session_age_minutes ctx) @ '' minutes''\<rparr> acc
         else acc)"

definition calculate_risk ::
  "'w platform \<Rightarrow> risk_engine \<Rightarrow> risk_context \<Rightarrow> ('w, risk_score) proxy_io" where
  "calculate_risk P eng ctx =
     bind_io (read_io (calculate_device_risk P (rc_device ctx))) (\<lambda>device_risk.
       let (fs, sum) = tally_risk ctx device_risk;
           total = min sum 100
       in ret \<lparr>total_score = total, factors = fs, level = risk_level_of total,
               recommendation = recommend eng total\<rparr>)"

section \<open>Severity orders\<close>

text \<open>Levels and recommendations in order of severity, as linear orders of the library.\<close>

fun level_rank :: "risk_level \<Rightarrow> nat" where
  "level_rank Low = 0"
| "level_rank Medium = 1"
| "level_rank High = 2"
| "level_rank Critical = 3"

fun recommendation_rank :: "risk_recommendation \<Rightarrow> nat" where
  "recommendation_rank Allow_request = 0"
| "recommendation_rank StepUpAuth = 1"
| "recommendation_rank Block = 2"

lemma level_rank_inject: "level_rank a = level_rank b \<longleftrightarrow> a = b"
  by (cases a; cases b) simp_all

lemma recommendation_rank_inject: "recommendation_rank a = recommendation_rank b \<longleftrightarrow> a = b"
  by (cases a; cases b) simp_all

instantiation risk_level :: linorder
begin

definition less_eq_risk_level where "a \<le> b \<longleftrightarrow> level_rank a \<le> level_rank b"

definition less_risk_level where "a < b \<longleftrightarrow> level_rank a < level_rank b"

instance
  by standard (auto simp: less_eq_risk_level_def less_risk_level_def level_rank_inject)

end

instantiation risk_recommendation :: linorder
begin

definition less_eq_risk_recommendation where
  "a \<le> b \<longleftrightarrow> recommendation_rank a \<le> recommendation_rank b"

definition less_risk_recommendation where
  "a < b \<longleftrightarrow> recommendation_rank a < recommendation_rank b"

instance
  by standard
    (auto simp: less_eq_risk_recommendation_def less_risk_recommendation_def
      recommendation_rank_inject)

end

lemma recommend_mono: "t \<le> t' \<Longrightarrow> recommend eng t \<le> recommend eng t'"
  by (auto simp: recommend_def less_eq_risk_recommendation_def intro: order_trans)

lemma risk_level_mono: "t \<le> t' \<Longrightarrow> risk_level_of t \<le> risk_level_of t'"
  by (auto simp: risk_level_of_def less_eq_risk_level_def)

section \<open>The total is the sum of the factors\<close>

definition factor_sum :: "risk_factor list \<Rightarrow> nat" where
  "factor_sum fs = sum_list (map (\<lambda>f. unat (rf_score f)) fs)"

definition option_score :: "risk_factor option \<Rightarrow> nat" where
  "option_score x = (case x of Some f \<Rightarrow> unat (rf_score f) | None \<Rightarrow> 0)"

text \<open>A tally is exact while the running \<open>u32\<close> total equals the sum of its factors.\<close>

definition tally_is :: "nat \<Rightarrow> tally \<Rightarrow> bool" where
  "tally_is n acc \<longleftrightarrow> unat (snd acc) = n \<and> factor_sum (fst acc) = n"

lemma tally_is_empty: "tally_is 0 ([], 0)"
  by (simp add: tally_is_def factor_sum_def)

lemma tally_is_push:
  assumes "tally_is n acc" "n + unat (rf_score f) < 2 ^ 32"
  shows "tally_is (n + unat (rf_score f)) (push_factor f acc)"
  using assms unat_add_no_wrap [of "snd acc" "rf_score f"]
  by (simp add: tally_is_def push_factor_def factor_sum_def)

lemma tally_is_push_option:
  assumes "tally_is n acc" "n + option_score x < 2 ^ 32"
  shows "tally_is (n + option_score x) (push_option x acc)"
  using assms by (cases x) (simp_all add: push_option_def option_score_def tally_is_push)

lemma failed_attempts_risk_bound: "unat (calculate_failed_attempts_risk n) \<le> 60"
  by (simp add: calculate_failed_attempts_risk_def)

lemma time_risk_bound: "option_score (calculate_time_risk ctx) \<le> 15"
  by (simp add: calculate_time_risk_def option_score_def Let_def)

lemma ip_risk_bound: "option_score (calculate_ip_change_risk ctx) \<le> 20"
  by (simp add: calculate_ip_change_risk_def option_score_def split: option.split)

lemma session_age_risk_bound: "unat (calculate_session_age_risk age) \<le> 30"
  by (simp add: calculate_session_age_risk_def)

text \<open>The sum the tally computes, as a natural number.\<close>

definition raw_risk :: "risk_context \<Rightarrow> nat \<Rightarrow> nat" where
  "raw_risk ctx device_risk =
     device_risk
     + (if rc_failed_attempts ctx = 0 then 0
        else unat (calculate_failed_attempts_risk (rc_failed_attempts ctx)))
     + option_score (calculate_time_risk ctx)
     + option_score (calculate_ip_change_risk ctx)
     + unat (calculate_session_age_risk (rc_session_age_minutes ctx))"

lemma raw_risk_bound: "raw_risk ctx n \<le> n + 125"
  using failed_attempts_risk_bound [of "rc_failed_attempts ctx"]
    time_risk_bound [of ctx] ip_risk_bound [of ctx]
    session_age_risk_bound [of "rc_session_age_minutes ctx"]
  by (simp add: raw_risk_def)

lemma tally_is_push_if:
  assumes "tally_is n acc" "n + unat (rf_score f) < 2 ^ 32"
  shows "tally_is (n + (if c then unat (rf_score f) else 0)) (if c then push_factor f acc else acc)"
  using assms by (simp add: tally_is_push)

lemma unat_if_pos: "(if s > 0 then unat s else 0) = unat s" for s :: u32
  by (metis unat_0 word_neq_0_conv)

lemma tally_risk_is:
  assumes "unat dr \<le> 60"
  shows "tally_is (raw_risk ctx (unat dr)) (tally_risk ctx dr)"
proof -
  note bounds = failed_attempts_risk_bound [of "rc_failed_attempts ctx"] time_risk_bound [of ctx]
    ip_risk_bound [of ctx] session_age_risk_bound [of "rc_session_age_minutes ctx"]
  let ?dev = "\<lparr>rf_name = ''Device Trust'', rf_score = dr, rf_description =
    ''Device trust score: '' @ u32_text (trust_score (rc_device ctx))\<rparr>"
  let ?a1 = "if dr > 0 then push_factor ?dev ([], 0) else ([], 0)"
  let ?fr = "calculate_failed_attempts_risk (rc_failed_attempts ctx)"
  let ?ff = "\<lparr>rf_name = ''Failed Attempts'', rf_score = ?fr,
    rf_description = u32_text (rc_failed_attempts ctx) @ '' failed attempts''\<rparr>"
  let ?a2 = "if rc_failed_attempts ctx > 0 then push_factor ?ff ?a1 else ?a1"
  let ?n2 = "unat dr + (if rc_failed_attempts ctx > 0 then unat ?fr else 0)"
  have a1: "tally_is (unat dr) ?a1"
    by (rule tally_is_push_if [OF tally_is_empty, of ?dev "dr > 0", unfolded add_0
          risk_factor.select_convs unat_if_pos]) (use assms in simp)
  have a2: "tally_is ?n2 ?a2"
    by (rule tally_is_push_if [OF a1, of ?ff, unfolded risk_factor.select_convs])
      (use bounds assms in simp)
  let ?a3 = "push_option (calculate_time_risk ctx) ?a2"
  let ?n3 = "?n2 + option_score (calculate_time_risk ctx)"
  have a3: "tally_is ?n3 ?a3"
    by (rule tally_is_push_option [OF a2]) (use bounds assms in simp)
  let ?a4 = "push_option (calculate_ip_change_risk ctx) ?a3"
  let ?n4 = "?n3 + option_score (calculate_ip_change_risk ctx)"
  have a4: "tally_is ?n4 ?a4"
    by (rule tally_is_push_option [OF a3]) (use bounds assms in simp)
  let ?sa = "calculate_session_age_risk (rc_session_age_minutes ctx)"
  let ?sf = "\<lparr>rf_name = ''Session Age'', rf_score = ?sa, rf_description =
    ''Session age: '' @ int_text (rc_session_age_minutes ctx) @ '' minutes''\<rparr>"
  have "tally_is (?n4 + unat ?sa) (if ?sa > 0 then push_factor ?sf ?a4 else ?a4)"
    by (rule tally_is_push_if [OF a4, of ?sf "?sa > 0", unfolded risk_factor.select_convs
          unat_if_pos]) (use bounds assms in simp)
  moreover have "tally_risk ctx dr = (if ?sa > 0 then push_factor ?sf ?a4 else ?a4)"
    by (simp add: tally_risk_def calculate_geo_risk_def push_option_def Let_def)
  moreover have "raw_risk ctx (unat dr) = ?n4 + unat ?sa"
    by (simp add: raw_risk_def word_neq_0_conv)
  ultimately show ?thesis by (simp only:)
qed

section \<open>The device factor\<close>

definition device_points :: "device_fingerprint \<Rightarrow> int \<Rightarrow> nat" where
  "device_points d days =
     (if is_trusted d then 0 else 25) + (if trust_score d < 50 then 15 else 0)
     + (if days < 1 then 20 else if days < 7 then 10 else 0)"

lemma device_points_bound: "device_points d days \<le> 60"
  by (simp add: device_points_def)

lemma calculate_device_risk_points:
  assumes "calculate_device_risk P d w = (r, w')"
  shows "\<exists>now. utc_now P w = (now, w') \<and> unat r = device_points d (num_days (now - first_seen d))"
  using assms
  by (cases "is_trusted d"; cases "trust_score d < 50"; cases "utc_now P w")
    (auto simp: calculate_device_risk_def device_points_def Let_def split: if_splits)

lemma calculate_risk_eval:
  assumes "utc_now P w = (now, w')"
  shows "\<exists>fs. factor_sum fs = raw_risk ctx (device_points (rc_device ctx)
             (num_days (now - first_seen (rc_device ctx)))) \<and>
     (let total = min (word_of_nat (factor_sum fs)) 100 in
      calculate_risk P eng ctx w =
        (Ok \<lparr>total_score = total, factors = fs, level = risk_level_of total,
             recommendation = recommend eng total\<rparr>, w'))"
proof -
  obtain dr where dr: "calculate_device_risk P (rc_device ctx) w = (dr, w')"
    using assms by (simp add: calculate_device_risk_def Let_def)
  from calculate_device_risk_points [OF this] assms
  have pts: "unat dr = device_points (rc_device ctx) (num_days (now - first_seen (rc_device ctx)))"
    by auto
  then have "unat dr \<le> 60" by (simp add: device_points_bound)
  note tally = tally_risk_is [OF this, of ctx]
  obtain fs t where ft: "tally_risk ctx dr = (fs, t)" by (cases "tally_risk ctx dr")
  with tally pts have "factor_sum fs = raw_risk ctx (device_points (rc_device ctx)
      (num_days (now - first_seen (rc_device ctx))))" and "t = word_of_nat (factor_sum fs)"
    by (auto simp: tally_is_def dest!: arg_cong [where f = "word_of_nat :: nat \<Rightarrow> u32"])
  with dr ft show ?thesis
    by (intro exI [of _ fs]) (simp add: calculate_risk_def bind_io_def read_io_def Let_def ret_def)
qed

lemma raw_risk_le: "raw_risk ctx (device_points d days) \<le> 185"
  using raw_risk_bound [of ctx "device_points d days"] device_points_bound [of d days] by simp

lemma failed_attempts_risk_mono:
  "n \<le> m \<Longrightarrow> n \<noteq> 0 \<Longrightarrow>
     calculate_failed_attempts_risk n \<le> calculate_failed_attempts_risk m"
  by (auto simp: calculate_failed_attempts_risk_def word_le_nat_alt unat_eq_0 Suc_le_eq)

lemma session_age_risk_mono:
  "a \<le> b \<Longrightarrow> calculate_session_age_risk a \<le> calculate_session_age_risk b"
  by (simp add: calculate_session_age_risk_def)

lemma raw_risk_mono:
  assumes "rc_failed_attempts ctx \<le> n" "rc_session_age_minutes ctx \<le> age"
  shows "raw_risk ctx k
    \<le> raw_risk (ctx\<lparr>rc_failed_attempts := n, rc_session_age_minutes := age\<rparr>) k"
proof -
  let ?ctx = "ctx\<lparr>rc_failed_attempts := n, rc_session_age_minutes := age\<rparr>"
  have "n \<noteq> 0" if "rc_failed_attempts ctx \<noteq> 0"
    using assms(1) that by auto
  moreover have "calculate_time_risk ?ctx = calculate_time_risk ctx"
    "calculate_ip_change_risk ?ctx = calculate_ip_change_risk ctx"
    by (simp_all add: calculate_time_risk_def calculate_ip_change_risk_def cong: option.case_cong)
  ultimately show ?thesis
    using failed_attempts_risk_mono [OF assms(1)] session_age_risk_mono [OF assms(2)]
    by (auto simp: raw_risk_def word_le_nat_alt)
qed

lemma unat_min_of_nat:
  assumes "n \<le> 185"
  shows "unat (min (word_of_nat n) (100 :: u32)) = min n 100"
proof -
  have "unat (word_of_nat n :: u32) = n"
    using assms by (simp add: unat_of_nat)
  then show ?thesis by (simp add: min_def word_le_nat_alt)
qed

section \<open>Properties\<close>

text \<open>C16: the engine always answers, and its score is exact. The total is the sum of the scores
  of the listed factors, capped at 100 and never wrapped; the level is Low up to 30, Medium up to
  60, High up to 85 and Critical above; and it recommends Block from the block threshold on, step-up
  from the step-up threshold on, and to allow the request below both.\<close>

theorem risk_total_is_capped_sum:
  "\<exists>s w'. calculate_risk P eng ctx w = (Ok s, w')
     \<and> unat (total_score s) = min (factor_sum (factors s)) 100
     \<and> level s = (if unat (total_score s) \<le> 30 then Low else if unat (total_score s) \<le> 60 then Medium
         else if unat (total_score s) \<le> 85 then High else Critical)
     \<and> (recommendation s = Block \<longleftrightarrow> block_threshold eng \<le> total_score s)
     \<and> (recommendation s = StepUpAuth \<longleftrightarrow>
          step_up_threshold eng \<le> total_score s \<and> total_score s < block_threshold eng)"
proof -
  obtain now w' where now: "utc_now P w = (now, w')" by (cases "utc_now P w")
  from calculate_risk_eval [OF now, of ctx eng] obtain fs where fs:
    "factor_sum fs = raw_risk ctx (device_points (rc_device ctx)
        (num_days (now - first_seen (rc_device ctx))))"
    "calculate_risk P eng ctx w = (Ok \<lparr>total_score = min (word_of_nat (factor_sum fs)) 100,
        factors = fs, level = risk_level_of (min (word_of_nat (factor_sum fs)) 100),
        recommendation = recommend eng (min (word_of_nat (factor_sum fs)) 100)\<rparr>, w')"
    by (auto simp: Let_def)
  have "unat (min (word_of_nat (factor_sum fs)) (100 :: u32)) = min (factor_sum fs) 100"
    by (rule unat_min_of_nat) (use fs(1) raw_risk_le in simp)
  with fs(2) show ?thesis
    by (auto simp: risk_level_of_def recommend_def word_le_nat_alt word_less_nat_alt)
qed

text \<open>more suspicion never lowers the answer. With everything else equal, more failed
  attempts and an older session never lower the total, the level or the recommendation.\<close>

theorem risk_monotone:
  assumes "calculate_risk P eng ctx w = (Ok s, w1)"
    and "calculate_risk P eng (ctx\<lparr>rc_failed_attempts := n, rc_session_age_minutes := age\<rparr>) w = (Ok s', w2)"
    and "rc_failed_attempts ctx \<le> n" "rc_session_age_minutes ctx \<le> age"
  shows "total_score s \<le> total_score s' \<and> level s \<le> level s' \<and> recommendation s \<le> recommendation s'"
proof -
  obtain now w' where now: "utc_now P w = (now, w')" by (cases "utc_now P w")
  let ?ctx = "ctx\<lparr>rc_failed_attempts := n, rc_session_age_minutes := age\<rparr>"
  let ?pts = "device_points (rc_device ctx) (num_days (now - first_seen (rc_device ctx)))"
  have le: "min (word_of_nat (raw_risk ctx ?pts)) 100 \<le> (min (word_of_nat (raw_risk ?ctx ?pts)) 100 :: u32)"
    using raw_risk_mono [OF assms(3,4), of ?pts] raw_risk_le [of ctx "rc_device ctx"]
      raw_risk_le [of ?ctx "rc_device ctx"]
    by (simp add: word_le_nat_alt unat_min_of_nat)
  have "total_score s = min (word_of_nat (raw_risk ctx ?pts)) 100"
    "total_score s' = min (word_of_nat (raw_risk ?ctx ?pts)) 100"
    "level s = risk_level_of (total_score s)" "recommendation s = recommend eng (total_score s)"
    "level s' = risk_level_of (total_score s')" "recommendation s' = recommend eng (total_score s')"
    using calculate_risk_eval [OF now, of ctx eng] calculate_risk_eval [OF now, of ?ctx eng] assms(1,2)
    by (auto simp: Let_def)
  with le show ?thesis by (simp add: recommend_mono risk_level_mono)
qed

definition sample_platform :: "int platform" where
  "sample_platform = \<lparr>utc_now = (\<lambda>w. (w, w)), uuid_v4 = (\<lambda>w. (''id'', w)), sha256_hex = (\<lambda>s. s),
     parse_uuid = Some, parse_ip = Some\<rparr>"

definition sample_ctx :: risk_context where
  "sample_ctx = \<lparr>rc_user_id = ''u'', rc_device = sample_device 90 True, rc_ip_address = ''10.0.0.1'',
     rc_timestamp = 0, rc_geolocation = None, rc_previous_ip = None, rc_session_age_minutes = 0,
     rc_failed_attempts = 0, rc_time_since_last_success_hours = None\<rparr>"

theorem risk_monotone_witness:
  "\<exists>s s'. calculate_risk sample_platform (new_risk_engine 60 85) sample_ctx 0 = (Ok s, 0)
     \<and> calculate_risk sample_platform (new_risk_engine 60 85)
         (sample_ctx\<lparr>rc_failed_attempts := 12, rc_session_age_minutes := 130\<rparr>) 0 = (Ok s', 0)
     \<and> recommendation s \<le> recommendation s' \<and> recommendation s' = Block"
proof -
  let ?c = "sample_ctx\<lparr>rc_failed_attempts := 12, rc_session_age_minutes := 130\<rparr>"
  note defs = calculate_risk_def sample_platform_def sample_ctx_def sample_device_def
    new_risk_engine_def bind_io_def read_io_def calculate_device_risk_def tally_risk_def
    push_factor_def push_option_def calculate_geo_risk_def calculate_failed_attempts_risk_def
    calculate_time_risk_def calculate_ip_change_risk_def calculate_session_age_risk_def
    hour_of_def num_days_def rust_div_def nanos_per_second_def recommend_def ret_def Let_def
  obtain s where s: "calculate_risk sample_platform (new_risk_engine 60 85) sample_ctx 0 = (Ok s, 0)"
    by (simp add: defs)
  obtain s' where s': "calculate_risk sample_platform (new_risk_engine 60 85) ?c 0 = (Ok s', 0)"
    "recommendation s' = Block"
    by (simp add: defs)
  from risk_monotone [OF s s'(1)] s s' show ?thesis by (auto simp: sample_ctx_def)
qed

end
