(* ===== verification/Proxy.thy ===== *)
theory Proxy
  imports Http Auth Mfa Audit_Log Config Policy Risk
begin

text \<open>
  \<^verbatim>\<open>src/src/proxy/mod.rs\<close>: the server's state and its request handlers, composed
  from the operations of the other theories in the order the code calls them. The services the
  source reaches through third-party crates are collected in the record \<open>services\<close>, together
  with the JSON decoders that \<open>serde\<close> derives for the three request bodies.
\<close>

section \<open>The server\<close>

record login_body =
  lb_username :: string
  lb_password :: string
  lb_device_id :: "string option"
  lb_mfa_token :: "string option"

record register_body =
  rb_username :: string
  rb_email :: string
  rb_password :: string

record mfa_verify_body =
  mb_mfa_token :: string

record 'w services =
  sv_platform :: "'w platform"
  sv_redis :: "'w redis"
  sv_codec :: session_codec
  sv_jwt :: "'w jwt_lib"
  sv_argon2 :: "'w argon2"
  sv_totp :: "'w totp_lib"
  sv_db :: "('w, json) postgres"
  sv_http :: "'w http"
  sv_json :: json_writer
  sv_login_body :: "string \<Rightarrow> login_body option"
  sv_register_body :: "string \<Rightarrow> register_body option"
  sv_mfa_verify_body :: "string \<Rightarrow> mfa_verify_body option"

record 'w proxy_server =
  services :: "'w services"
  config :: config
  jwt_manager :: jwt_manager
  policy_engine :: policy_engine
  risk_engine :: risk_engine

definition default_policy :: policy where
  "default_policy =
     \<lparr>policy_id = ''default-allow-authenticated'',
      policy_name = ''Allow all authenticated requests (MVP default)'',
      policy_description = ''Passes through anything that already cleared JWT/session/risk checks.'',
      rules = [\<lparr>resource_pattern = ''*'',
                actions = [''get'', ''post'', ''put'', ''patch'', ''delete'', ''head'', ''options''],
                conditions = [], rule_effect = Allow\<rparr>]\<rparr>"

definition build_default_policy_engine :: "bool \<Rightarrow> policy_engine" where
  "build_default_policy_engine dd = add_policy default_policy (new_policy_engine dd)"

definition new_proxy_server :: "'w services \<Rightarrow> config \<Rightarrow> 'w proxy_server" where
  "new_proxy_server sv c =
     \<lparr>services = sv, config = c,
      jwt_manager = \<lparr>secret = jwt_secret (auth c), expiration_hours = jwt_expiration_hours (auth c)\<rparr>,
      policy_engine = build_default_policy_engine (cfg_default_deny (policy_cfg c)),
      risk_engine = new_risk_engine (cfg_step_up_threshold (risk c)) (cfg_block_threshold (risk c))\<rparr>"

abbreviation platform_of :: "'w proxy_server \<Rightarrow> 'w platform" where
  "platform_of S \<equiv> sv_platform (services S)"

abbreviation db_of :: "'w proxy_server \<Rightarrow> ('w, json) postgres" where
  "db_of S \<equiv> sv_db (services S)"

text \<open>\<open>SessionManager::new(self.redis_conn.clone(), session_duration_minutes)\<close>\<close>

definition session_manager_of :: "'w proxy_server \<Rightarrow> 'w session_manager" where
  "session_manager_of S =
     \<lparr>sm_platform = platform_of S, sm_redis = sv_redis (services S),
      sm_codec = sv_codec (services S),
      session_duration_minutes = auth_session_duration_minutes (auth (config S))\<rparr>"

section \<open>The bearer token of a request\<close>

definition bearer_claims :: "'w proxy_server \<Rightarrow> 'w request \<Rightarrow> ('w, claims) proxy_io" where
  "bearer_claims S req =
     (let auth_header = unwrap_or (header_text (sv_http (services S)) req ''authorization'') '''' in
      bind_io (lift_res (extract_token_from_header auth_header)) (\<lambda>token.
        validate_token (sv_jwt (services S)) (jwt_manager S) token))"

section \<open>Rate limiting\<close>

definition rate_key :: "string \<Rightarrow> ip_addr \<Rightarrow> string" where
  "rate_key bucket ip = ''ratelimit:'' @ bucket @ '':'' @ ip"

definition check_rate_limit ::
  "'w proxy_server \<Rightarrow> ip_addr \<Rightarrow> string \<Rightarrow> int \<Rightarrow> int \<Rightarrow> ('w, unit) proxy_io" where
  "check_rate_limit S ip bucket limit window_secs =
     (let key = rate_key bucket ip; R = sv_redis (services S) in
      bind_io (call_io RedisError (redis_incr R key 1)) (\<lambda>count.
      bind_io (if count = 1 then call_io RedisError (redis_expire R key window_secs) else ret ())
        (\<lambda>_. if count > limit then throw RateLimitExceeded else ret ())))"

section \<open>The gate\<close>

definition low_risk :: risk_score where
  "low_risk = \<lparr>total_score = 0, factors = [], level = Low, recommendation = Allow_request\<rparr>"

definition request_device ::
  "'w proxy_server \<Rightarrow> session \<Rightarrow> ip_addr \<Rightarrow> claims \<Rightarrow> ('w, device_fingerprint) read" where
  "request_device S s ip c w =
     (case new_device (platform_of S) (sub c) (sess_user_agent s) ip no_metadata w of
        (d, w') \<Rightarrow>
          let score = (if clm_device_id c = sess_device_id s then 70 else 40)
          in (d\<lparr>trust_score := score, is_trusted := 70 \<le> score\<rparr>, w'))"

definition evaluate_request_risk ::
  "'w proxy_server \<Rightarrow> session \<Rightarrow> ip_addr \<Rightarrow> claims \<Rightarrow> ('w, risk_score) proxy_io" where
  "evaluate_request_risk S s ip c =
     bind_io (read_io (request_device S s ip c)) (\<lambda>device.
     bind_io (read_io (utc_now (platform_of S))) (\<lambda>t1.
     bind_io (read_io (utc_now (platform_of S))) (\<lambda>t2.
       unwrap_or_io (calculate_risk (platform_of S) (risk_engine S)
         \<lparr>rc_user_id = sub c, rc_device = device, rc_ip_address = ip, rc_timestamp = t2,
          rc_geolocation = None, rc_previous_ip = parse_ip (platform_of S) (sess_ip_address s),
          rc_session_age_minutes = num_minutes (t1 - created_at s), rc_failed_attempts = 0,
          rc_time_since_last_success_hours = None\<rparr>) low_risk)))"

definition factor_json :: "risk_factor \<Rightarrow> json" where
  "factor_json f =
     json_obj [(''name'', JStr (rf_name f)), (''score'', JNum (uint (rf_score f))),
       (''description'', JStr (rf_description f))]"

definition factors_json :: "risk_factor list \<Rightarrow> json" where
  "factors_json fs = json_obj [(''factors'', JArr (map factor_json fs))]"

definition audit_authorization ::
  "'w proxy_server \<Rightarrow> claims \<Rightarrow> ip_addr \<Rightarrow> string \<Rightarrow> string \<Rightarrow> bool \<Rightarrow> u32 \<Rightarrow> ('w, unit) proxy_io" where
  "audit_authorization S c ip path mth allow score =
     discard (log_authorization (platform_of S) (db_of S) (sub c) ip path mth allow score)"

definition request_context :: "claims \<Rightarrow> string \<Rightarrow> string \<Rightarrow> policy_context" where
  "request_context c path mth =
     \<lparr>pc_user_id = sub c, pc_resource = path, pc_action = ascii_lower mth, pc_attributes = Map.empty\<rparr>"

definition authorize_risk ::
  "'w proxy_server \<Rightarrow> claims \<Rightarrow> session \<Rightarrow> string \<Rightarrow> string \<Rightarrow> ip_addr \<Rightarrow> ('w, unit) proxy_io" where
  "authorize_risk S c s mth path ip =
     bind_io (evaluate_request_risk S s ip c) (\<lambda>risk.
     bind_io (discard (log_risk_evaluation (platform_of S) (db_of S) (sub c) (clm_device_id c) ip
                (total_score risk) (factors_json (factors risk)))) (\<lambda>_.
     if require_mfa (auth (config S)) \<and> \<not> sess_mfa_verified s then throw MfaRequired
     else (case recommendation risk of
       Block \<Rightarrow>
         bind_io (audit_authorization S c ip path mth False (total_score risk)) (\<lambda>_.
           throw (RiskThresholdExceeded (total_score risk) (cfg_block_threshold (Config.risk (config S)))))
     | StepUpAuth \<Rightarrow>
         if \<not> sess_mfa_verified s then throw MfaRequired
         else audit_authorization S c ip path mth True (total_score risk)
     | Allow_request \<Rightarrow> audit_authorization S c ip path mth True (total_score risk))))"

definition authorize ::
  "'w proxy_server \<Rightarrow> 'w request \<Rightarrow> string \<Rightarrow> string \<Rightarrow> ip_addr \<Rightarrow> ('w, unit) proxy_io" where
  "authorize S req mth path ip =
     bind_io (bearer_claims S req) (\<lambda>c.
     bind_io (get_session (session_manager_of S) (clm_session_id c)) (\<lambda>s.
     if sess_user_id s \<noteq> sub c
     then throw (InvalidSession ''session/token subject mismatch'')
     else
       bind_io (lift_res (evaluate (policy_engine S) (request_context c path mth))) (\<lambda>decision.
       if \<not> allowed decision then
         bind_io (audit_authorization S c ip path mth False (sess_risk_score s)) (\<lambda>_.
           throw (AuthorizationDenied (reason decision)))
       else authorize_risk S c s mth path ip)))"

section \<open>Forwarding\<close>

definition upstream_request_of ::
  "'w proxy_server \<Rightarrow> 'w request \<Rightarrow> string \<Rightarrow> string \<Rightarrow> upstream_request" where
  "upstream_request_of S req uri bytes =
     \<lparr>up_method = req_method req, up_uri = uri,
      up_headers = filter (\<lambda>(name, _). name \<noteq> ''host'') (req_headers req), up_body = bytes\<rparr>"

definition forward_upstream :: "'w proxy_server \<Rightarrow> 'w request \<Rightarrow> ('w, response) proxy_io" where
  "forward_upstream S req =
     (let H = sv_http (services S) in
      bind_io (collect_body (req_body req)) (\<lambda>bytes.
        let base = trim_end_char (default_backend (upstream (config S))) CHR ''/'';
            pq = unwrap_or (req_path_and_query req) ''/'' in
        bind_io (lift_res (ok_or (parse_uri H (base @ pq)) InternalError)) (\<lambda>uri.
          let up = upstream_request_of S req uri bytes in
          bind_io (guard_io (\<not> builder_accepts H up) InternalError) (\<lambda>_.
          bind_io (call_io (\<lambda>_. InternalError) (http_send H up)) (\<lambda>resp.
          bind_io (collect_body (ur_body resp)) (\<lambda>resp_bytes.
            ret \<lparr>resp_status = ur_status resp, resp_headers = ur_headers resp,
                 resp_body = resp_bytes\<rparr>))))))"

end
