(* ===== verification/Handlers.thy ===== *)
theory Handlers
  imports Proxy
begin

text \<open>
  \<^verbatim>\<open>src/src/proxy/mod.rs\<close>: the six handlers of \<open>/auth/...\<close> and the routing of
  \<open>handle_request\<close>. \<open>handle_login\<close> is split at its comments into the steps it runs in order:
  the device of the request, the rejection of a wrong password, the MFA check, the device's new
  trust, the login's risk, and the opening of the session.
\<close>

section \<open>Login\<close>

definition find_active_user :: "'w proxy_server \<Rightarrow> string \<Rightarrow> ('w, user_row) proxy_io" where
  "find_active_user S name =
     bind_io (find_user_by_username (db_of S) name) (\<lambda>found.
       lift_res (ok_or (case found of Some u \<Rightarrow> if is_active u then Some u else None | None \<Rightarrow> None)
         (AuthenticationFailed ''invalid credentials'')))"

definition login_device ::
  "'w proxy_server \<Rightarrow> ip_addr \<Rightarrow> string \<Rightarrow> user_row
     \<Rightarrow> ('w, device_fingerprint \<times> device_row option) proxy_io" where
  "login_device S ip ua user =
     bind_io (read_io (new_device (platform_of S) (u_id user) ua ip no_metadata)) (\<lambda>device.
     bind_io (find_device_by_fingerprint (db_of S) (u_id user) (fingerprint_hash device)) (\<lambda>existing.
       ret (case existing of
              Some row \<Rightarrow>
                (device\<lparr>trust_score := i32_max0 (d_trust_score row), is_trusted := d_is_trusted row\<rparr>,
                 existing)
            | None \<Rightarrow> (device, existing))))"

definition store_device ::
  "'w proxy_server \<Rightarrow> ip_addr \<Rightarrow> user_row \<Rightarrow> device_fingerprint \<Rightarrow> ('w, unit) proxy_io" where
  "store_device S ip user d =
     upsert_device (db_of S) (u_id user) (fingerprint_hash d) (dev_user_agent d) (dev_platform d)
       (dev_browser d) ip (trust_score d) (is_trusted d)"

definition audit_login ::
  "'w proxy_server \<Rightarrow> user_row \<Rightarrow> string \<Rightarrow> ip_addr \<Rightarrow> bool \<Rightarrow> ('w, unit) proxy_io" where
  "audit_login S user dev ip ok =
     discard (log_authentication (platform_of S) (db_of S) (u_id user) dev ip ok)"

definition reject_password ::
  "'w proxy_server \<Rightarrow> ip_addr \<Rightarrow> user_row \<Rightarrow> login_body \<Rightarrow> device_fingerprint
     \<Rightarrow> ('w, response) proxy_io" where
  "reject_password S ip user body d =
     bind_io (store_device S ip user (decrease_trust 15 d)) (\<lambda>_.
     bind_io (audit_login S user (unwrap_or (lb_device_id body) ''unknown'') ip False) (\<lambda>_.
       throw (AuthenticationFailed ''invalid credentials'')))"

definition login_mfa :: "'w proxy_server \<Rightarrow> user_row \<Rightarrow> login_body \<Rightarrow> ('w, bool) proxy_io" where
  "login_mfa S user body =
     (if mfa_enabled user then
        bind_io (lift_res (ok_or (mfa_secret user) MfaRequired)) (\<lambda>secret.
          case lb_mfa_token body of
            Some token \<Rightarrow>
              bind_io (unwrap_or_io (verify_token (sv_totp (services S)) default_mfa_config secret token)
                         False) (\<lambda>mfa_verified.
                if \<not> mfa_verified then throw InvalidMfaToken else ret mfa_verified)
          | None \<Rightarrow> throw MfaRequired)
      else ret False)"

definition record_device ::
  "'w proxy_server \<Rightarrow> ip_addr \<Rightarrow> user_row \<Rightarrow> device_fingerprint \<Rightarrow> device_row option
     \<Rightarrow> ('w, device_fingerprint) proxy_io" where
  "record_device S ip user d existing =
     (let d1 = (if existing \<noteq> None then increase_trust 10 d else d) in
      bind_io (read_io (update_last_seen (platform_of S) d1)) (\<lambda>d2.
      bind_io (store_device S ip user d2) (\<lambda>_. ret d2)))"

definition login_risk ::
  "'w proxy_server \<Rightarrow> ip_addr \<Rightarrow> user_row \<Rightarrow> device_fingerprint \<Rightarrow> ('w, risk_score) proxy_io" where
  "login_risk S ip user d =
     bind_io (read_io (utc_now (platform_of S))) (\<lambda>now.
       unwrap_or_io (calculate_risk (platform_of S) (risk_engine S)
         \<lparr>rc_user_id = u_id user, rc_device = d, rc_ip_address = ip, rc_timestamp = now,
          rc_geolocation = None, rc_previous_ip = None, rc_session_age_minutes = 0,
          rc_failed_attempts = 0, rc_time_since_last_success_hours = None\<rparr>) low_risk)"

definition login_response_json :: "login_response \<Rightarrow> json" where
  "login_response_json r =
     JObj [(''access_token'', JStr (access_token r)), (''token_type'', JStr (token_type r)),
       (''expires_in'', JNum (expires_in r)), (''mfa_required'', JBool (mfa_required r))]"

definition fresh_device_id :: "'w proxy_server \<Rightarrow> login_body \<Rightarrow> ('w, string) read" where
  "fresh_device_id S body w =
     (case lb_device_id body of Some d \<Rightarrow> (d, w) | None \<Rightarrow> uuid_v4 (platform_of S) w)"

definition open_session ::
  "'w proxy_server \<Rightarrow> ip_addr \<Rightarrow> string \<Rightarrow> user_row \<Rightarrow> login_body \<Rightarrow> bool \<Rightarrow> risk_score
     \<Rightarrow> ('w, session \<times> string) proxy_io" where
  "open_session S ip ua user body mfa_verified score =
     bind_io (read_io (fresh_device_id S body)) (\<lambda>device_id.
     bind_io (create_session (session_manager_of S) (u_id user) device_id ip ua) (\<lambda>s0.
     let s = s0\<lparr>sess_mfa_verified := mfa_verified, sess_risk_score := total_score score\<rparr> in
     bind_io (update_session (session_manager_of S) s) (\<lambda>_.
     bind_io (audit_login S user device_id ip True) (\<lambda>_.
     bind_io (generate_token (platform_of S) (sv_jwt (services S)) (jwt_manager S) (u_id user) device_id
                (sess_risk_score s) mfa_verified (sess_id s)) (\<lambda>token.
       ret (s, token))))))"

definition handle_login :: "'w proxy_server \<Rightarrow> 'w request \<Rightarrow> ip_addr \<Rightarrow> ('w, response) proxy_io" where
  "handle_login S req ip =
     bind_io (check_rate_limit S ip ''login'' 10 300) (\<lambda>_.
     let ua = unwrap_or (header_text (sv_http (services S)) req ''user-agent'') ''unknown'' in
     bind_io (collect_body (req_body req)) (\<lambda>bytes.
     bind_io (lift_res (ok_or (sv_login_body (services S) bytes)
                (AuthenticationFailed ''invalid request body''))) (\<lambda>body.
     bind_io (find_active_user S (lb_username body)) (\<lambda>user.
     bind_io (login_device S ip ua user) (\<lambda>(device, existing).
     bind_io (lift_res (verify_password (sv_argon2 (services S)) (lb_password body) (password_hash user)))
       (\<lambda>password_ok.
     if \<not> password_ok then reject_password S ip user body device
     else
       bind_io (login_mfa S user body) (\<lambda>mfa_verified.
       bind_io (record_device S ip user device existing) (\<lambda>device'.
       bind_io (login_risk S ip user device') (\<lambda>score.
       if recommendation score = Block then
         bind_io (audit_login S user (dev_id device') ip False) (\<lambda>_.
           throw (RiskThresholdExceeded (total_score score) (cfg_block_threshold (risk (config S)))))
       else
         bind_io (open_session S ip ua user body mfa_verified score) (\<lambda>(s, token).
           lift_res (json_response (sv_json (services S)) 200 (login_response_json
             \<lparr>access_token = token, token_type = ''Bearer'',
              expires_in = wrap_i64 (jwt_expiration_hours (auth (config S)) * 3600),
              mfa_required = mfa_enabled user \<and> \<not> mfa_verified\<rparr>))))))))))))"

section \<open>Registration\<close>

definition handle_register :: "'w proxy_server \<Rightarrow> 'w request \<Rightarrow> ip_addr \<Rightarrow> ('w, response) proxy_io" where
  "handle_register S req ip =
     bind_io (check_rate_limit S ip ''register'' 10 300) (\<lambda>_.
     bind_io (collect_body (req_body req)) (\<lambda>bytes.
     bind_io (lift_res (ok_or (sv_register_body (services S) bytes)
                (AuthenticationFailed ''invalid request body''))) (\<lambda>body.
     if length (rb_password body) < 12
     then throw (AuthenticationFailed ''password must be at least 12 characters'')
     else
       bind_io (find_user_by_username (db_of S) (rb_username body)) (\<lambda>found.
       if found \<noteq> None then throw (AuthenticationFailed ''username already exists'')
       else
         bind_io (hash_password (sv_argon2 (services S)) (rb_password body)) (\<lambda>hash.
         bind_io (create_user (db_of S) (rb_username body) (rb_email body) hash) (\<lambda>user.
           lift_res (json_response (sv_json (services S)) 201
             (json_obj [(''id'', JStr (u_id user)), (''username'', JStr (username user)),
                (''email'', JStr (email user))]))))))))"

section \<open>MFA\<close>

text \<open>The user a valid token speaks for.\<close>

definition user_of_claims :: "'w proxy_server \<Rightarrow> claims \<Rightarrow> ('w, uuid \<times> user_row) proxy_io" where
  "user_of_claims S c =
     bind_io (lift_res (ok_or (parse_uuid (platform_of S) (sub c))
                (AuthenticationFailed ''invalid subject''))) (\<lambda>user_id.
     bind_io (find_user_by_id (db_of S) user_id) (\<lambda>found.
     bind_io (lift_res (ok_or found (AuthenticationFailed ''user not found''))) (\<lambda>user.
       ret (user_id, user))))"

definition enrollment_json :: "mfa_enrollment_response \<Rightarrow> json" where
  "enrollment_json r =
     JObj [(''secret'', JStr (enrol_secret r)), (''qr_code_url'', JStr (qr_code_url r)),
       (''manual_entry_key'', JStr (manual_entry_key r))]"

definition handle_mfa_enroll :: "'w proxy_server \<Rightarrow> 'w request \<Rightarrow> ('w, response) proxy_io" where
  "handle_mfa_enroll S req =
     bind_io (bearer_claims S req) (\<lambda>c.
     bind_io (user_of_claims S c) (\<lambda>(user_id, user).
     bind_io (generate_secret (sv_totp (services S))) (\<lambda>secret.
     bind_io (lift_res (generate_qr_url secret (email user) ''zero-trust-proxy'')) (\<lambda>qr_url.
     bind_io (set_user_mfa_secret (db_of S) user_id secret) (\<lambda>_.
       lift_res (json_response (sv_json (services S)) 200 (enrollment_json
         \<lparr>enrol_secret = secret, qr_code_url = qr_url, manual_entry_key = secret\<rparr>)))))))"

definition handle_mfa_verify :: "'w proxy_server \<Rightarrow> 'w request \<Rightarrow> ip_addr \<Rightarrow> ('w, response) proxy_io" where
  "handle_mfa_verify S req ip =
     bind_io (check_rate_limit S ip ''mfa_verify'' 10 300) (\<lambda>_.
     bind_io (bearer_claims S req) (\<lambda>c.
     bind_io (collect_body (req_body req)) (\<lambda>bytes.
     bind_io (lift_res (ok_or (sv_mfa_verify_body (services S) bytes)
                (AuthenticationFailed ''invalid request body''))) (\<lambda>body.
     bind_io (user_of_claims S c) (\<lambda>(user_id, user).
     bind_io (lift_res (ok_or (mfa_secret user) MfaRequired)) (\<lambda>secret.
     bind_io (unwrap_or_io (verify_token (sv_totp (services S)) default_mfa_config secret
                (mb_mfa_token body)) False) (\<lambda>ok.
     if \<not> ok then throw InvalidMfaToken
     else
       bind_io (get_session (session_manager_of S) (clm_session_id c)) (\<lambda>s.
       bind_io (update_session (session_manager_of S) (s\<lparr>sess_mfa_verified := True\<rparr>)) (\<lambda>_.
         lift_res (json_response (sv_json (services S)) 200
           (json_obj [(''mfa_verified'', JBool True)])))))))))))"

section \<open>Logout\<close>

definition handle_logout :: "'w proxy_server \<Rightarrow> 'w request \<Rightarrow> ('w, response) proxy_io" where
  "handle_logout S req =
     bind_io (bearer_claims S req) (\<lambda>c.
     bind_io (delete_session (session_manager_of S) (clm_session_id c)) (\<lambda>_.
       lift_res (json_response (sv_json (services S)) 200 (json_obj [(''ok'', JBool True)]))))"

definition handle_logout_all :: "'w proxy_server \<Rightarrow> 'w request \<Rightarrow> ('w, response) proxy_io" where
  "handle_logout_all S req =
     bind_io (bearer_claims S req) (\<lambda>c.
     bind_io (revoke_user_sessions (session_manager_of S) (sub c)) (\<lambda>revoked.
       lift_res (json_response (sv_json (services S)) 200
         (json_obj [(''ok'', JBool True), (''revoked'', JNum (int revoked))]))))"

section \<open>Routing\<close>

definition newline :: string where
  "newline = [CHR 0x0A]"

definition handle_metrics :: response where
  "handle_metrics = text_response 200
     (''# Zero-Trust Proxy Metrics'' @ newline @ ''ztp_requests_total 0'' @ newline
      @ ''ztp_auth_failures_total 0'' @ newline)"

definition route :: "'w proxy_server \<Rightarrow> 'w request \<Rightarrow> ip_addr \<Rightarrow> ('w, response) proxy_io" where
  "route S req ip =
     (let mth = req_method req; path = req_path req in
      if path = ''/auth/login'' \<and> mth = ''POST'' then handle_login S req ip
      else if path = ''/auth/register'' \<and> mth = ''POST'' then handle_register S req ip
      else if path = ''/auth/mfa/enroll'' \<and> mth = ''POST'' then handle_mfa_enroll S req
      else if path = ''/auth/mfa/verify'' \<and> mth = ''POST'' then handle_mfa_verify S req ip
      else if path = ''/auth/logout'' \<and> mth = ''POST'' then handle_logout S req
      else if path = ''/auth/logout_all'' \<and> mth = ''POST'' then handle_logout_all S req
      else bind_io (authorize S req mth path ip) (\<lambda>_. forward_upstream S req))"

text \<open>
  \<open>handle_request\<close> answers every request: an error of a handler becomes its response. (A panic
  ends the task that serves the connection, without an answer.)
\<close>

definition handle_request :: "'w proxy_server \<Rightarrow> 'w request \<Rightarrow> ip_addr \<Rightarrow> ('w, response) proxy_io" where
  "handle_request S req ip w =
     (if req_path req = ''/health'' then (Ok (text_response 200 ''OK''), w)
      else if req_path req = ''/metrics'' then (Ok handle_metrics, w)
      else case route S req ip w of
             (Ok r, w') \<Rightarrow> (Ok r, w')
           | (Err e, w') \<Rightarrow> (Ok (error_response (sv_json (services S)) e), w')
           | (Panic, w') \<Rightarrow> (Panic, w'))"

end
