(* ===== verification/Reference.thy ===== *)
theory Reference
  imports Reference_Text Session_Store Passkey_Store Handlers
begin

text \<open>
  Reference services: a world with a clock, a counter that names fresh UUIDs, a Redis, the tables,
  and a log of the requests the upstream received; and implementations over it of everything the
  proxy calls. They interpret the locales that state what the services document, so every law
  used in a proof is one a real implementation can keep, and the witnesses of the properties are
  runs of the proxy in this world.
\<close>

record world =
  clock :: instant
  uuids :: nat
  strings :: "(string \<times> string \<times> instant) list"
  counts :: "(string \<times> int \<times> instant option) list"
  user_rows :: "user_row list"
  device_rows :: "(string \<times> uuid \<times> device_row) list"
  audit_rows :: "json sql_value list list"
  upstream_log :: "upstream_request list"
  passkey_rows :: "((string \<times> string) \<times> nat) list"

definition ref_platform :: "world platform" where
  "ref_platform =
     \<lparr>utc_now = (\<lambda>w. (clock w, w)),
      uuid_v4 = (\<lambda>w. (''uuid-'' @ bits (uuids w), w\<lparr>uuids := Suc (uuids w)\<rparr>)),
      sha256_hex = (\<lambda>s. s),
      parse_uuid = (\<lambda>s. if prefix ''uuid-'' s then Some s else None),
      parse_ip = Some\<rparr>"

section \<open>Redis\<close>

definition ref_entries :: "world \<Rightarrow> entries" where
  "ref_entries w = map_of (strings w)"

definition ref_counters :: "world \<Rightarrow> counters" where
  "ref_counters w = map_of (counts w)"

definition ref_scan :: "string \<Rightarrow> world \<Rightarrow> string list" where
  "ref_scan pat w = filter (prefix (butlast pat)) (map fst (strings w))"

definition ref_expire :: "string \<Rightarrow> int \<Rightarrow> world \<Rightarrow> world" where
  "ref_expire k secs w =
     (case counter_at (ref_counters w) (clock w) k of
        Some (n, _) \<Rightarrow>
          w\<lparr>counts := AList.update k (n, Some (clock w + secs * nanos_per_second)) (counts w)\<rparr>
      | None \<Rightarrow> w)"

definition ref_redis :: "world redis" where
  "ref_redis =
     \<lparr>redis_get = (\<lambda>k w. (Inr (live (ref_entries w) (clock w) k), w)),
      redis_set_ex = (\<lambda>k v ttl w.
        (Inr (), w\<lparr>strings := AList.update k (v, clock w + uint ttl * nanos_per_second) (strings w)\<rparr>)),
      redis_del = (\<lambda>k w. (Inr (), w\<lparr>strings := AList.delete k (strings w)\<rparr>)),
      redis_scan_match = (\<lambda>pat w. (Inr (ref_scan pat w, True), w)),
      redis_incr = (\<lambda>k n w.
        let v = incremented (ref_counters w) (clock w) k n
        in (Inr (fst v), w\<lparr>counts := AList.update k v (counts w)\<rparr>)),
      redis_expire = (\<lambda>k secs w. (Inr (), ref_expire k secs w))\<rparr>"

lemma ref_scan_iff: "k \<in> set (ref_scan (p @ ''*'') w) \<longleftrightarrow> prefix p k \<and> ref_entries w k \<noteq> None"
  by (auto simp: ref_scan_def ref_entries_def butlast_append map_of_eq_None_iff)

interpretation ref_kv: redis_kv ref_redis ref_entries clock
proof
  fix k v ttl w u w'
  assume "redis_set_ex ref_redis k v ttl w = (Inr u, w')"
  then show "stores ref_entries clock k v ttl w w'"
    by (auto simp: ref_redis_def stores_def ref_entries_def update_conv')
next
  fix w ks w' k v
  assume "redis_scan_match ref_redis (''session:'' @ ''*'') w = (Inr (ks, True), w')" "prefix ''session:'' k"
    "live (ref_entries w) (clock w') k = Some v"
  then show "k \<in> set ks"
    using ref_scan_iff [of k "''session:''" w] live_SomeD [of "ref_entries w" "clock w'" k v]
    by (auto simp: ref_redis_def)
next
  fix w ks c w' k
  assume "redis_scan_match ref_redis (''session:'' @ ''*'') w = (Inr (ks, c), w')" "k \<in> set ks"
  then show "prefix ''session:'' k"
    using ref_scan_iff [of k "''session:''" w] by (auto simp: ref_redis_def)
qed (auto simp: ref_redis_def quiet_def ref_entries_def delete_conv')

interpretation ref_ctr: redis_counter ref_redis ref_counters clock
proof
  fix k n w c w'
  assume "redis_incr ref_redis k n w = (Inr c, w')"
  then show "\<exists>t. clock w \<le> t \<and> t \<le> clock w' \<and> fst (incremented (ref_counters w) t k n) = c
      \<and> ref_counters w' = (ref_counters w)(k \<mapsto> incremented (ref_counters w) t k n)"
    by (intro exI [of _ "clock w"]) (auto simp: ref_redis_def ref_counters_def update_conv' Let_def)
next
  fix k secs w u w'
  assume "redis_expire ref_redis k secs w = (Inr u, w')"
  then have w': "w' = ref_expire k secs w" by (simp add: ref_redis_def)
  show "\<exists>t. clock w \<le> t \<and> t \<le> clock w' \<and>
      ref_counters w' = (case counter_at (ref_counters w) t k of
          Some (n, d) \<Rightarrow> (ref_counters w)(k \<mapsto> (n, Some (t + secs * nanos_per_second)))
        | None \<Rightarrow> ref_counters w)"
    by (intro exI [of _ "clock w"])
      (auto simp: w' ref_expire_def ref_counters_def update_conv' split: option.splits)
qed

section \<open>Tokens, passwords, codes, HTTP\<close>

definition ref_jwt :: "world jwt_lib" where
  "ref_jwt =
     \<lparr>jwt_encode = (\<lambda>k c. Inr (put_token k c)),
      jwt_decode = (\<lambda>k t w.
        (case take_token k t of
           Some c \<Rightarrow> if timestamp (clock w) \<le> exp_at c + 60 then Inr c else Inl ''ExpiredSignature''
         | None \<Rightarrow> Inl ''InvalidToken'', w))\<rparr>"

interpretation ref_tokens: jwt_services ref_platform ref_jwt clock
  by unfold_locales
    (auto simp: ref_platform_def ref_jwt_def take_put_token split: option.splits if_splits)

definition ref_argon2 :: "world argon2" where
  "ref_argon2 =
     \<lparr>a2_salt = (\<lambda>w. (''salt'', w)),
      a2_hash = (\<lambda>p salt. Inr (''$argon2id$'' @ p)),
      a2_parse = (\<lambda>h. case strip_prefix h ''$argon2id$'' of Some p \<Rightarrow> Inr p | None \<Rightarrow> Inl ''bad hash''),
      a2_matches = (=)\<rparr>"

definition ref_totp :: "world totp_lib" where
  "ref_totp =
     \<lparr>gen_range = (\<lambda>n w. (uuids w mod n, w\<lparr>uuids := Suc (uuids w)\<rparr>)),
      base32_decode = (\<lambda>s. if list_all (\<lambda>c. c \<in> set charset) s then Some s else None),
      totp_validate = (\<lambda>t. if length (totp_secret t) < 16 then Inl ''secret too short'' else Inr ()),
      totp_check_current = (\<lambda>t s w. (Inr (s = take (totp_digits t) (totp_secret t)), w)),
      totp_generate_current = (\<lambda>t w. (Inr (take (totp_digits t) (totp_secret t)), w))\<rparr>"

definition ref_http :: "world http" where
  "ref_http =
     \<lparr>header_to_str = Some, parse_uri = Some, builder_accepts = (\<lambda>_. True),
      http_send = (\<lambda>r w.
        (Inr \<lparr>ur_status = 200, ur_headers = [], ur_body = (\<lambda>w. (Inr ''upstream'', w))\<rparr>,
         w\<lparr>upstream_log := upstream_log w @ [r]\<rparr>))\<rparr>"

section \<open>Postgres\<close>

text \<open>
  The table is read with its uniqueness constraints enforced: a later row with the id or the name
  of an earlier one does not exist.
\<close>

fun unique_rows :: "user_row list \<Rightarrow> user_row list" where
  "unique_rows [] = []"
| "unique_rows (u # us) =
     u # filter (\<lambda>v. u_id v \<noteq> u_id u \<and> username v \<noteq> username u) (unique_rows us)"

definition ref_users :: "world \<Rightarrow> users" where
  "ref_users w = map_of (map (\<lambda>u. (u_id u, u)) (unique_rows (user_rows w)))"

lemma unique_rows_distinct:
  "distinct (map u_id (unique_rows us)) \<and> distinct (map username (unique_rows us))"
  by (induction us) (auto simp: distinct_map intro: inj_on_subset)

lemma unique_rows_idem: "unique_rows (unique_rows us) = unique_rows us"
proof -
  have "unique_rows vs = vs" if "distinct (map u_id vs)" "distinct (map username vs)" for vs
    using that
  proof (induction vs)
    case (Cons v vs)
    then have "filter (\<lambda>x. u_id x \<noteq> u_id v \<and> username x \<noteq> username v) vs = vs"
      by (auto simp: filter_id_conv) (metis imageI)+
    with Cons show ?case by simp
  qed simp
  with unique_rows_distinct show ?thesis by blast
qed

lemma ref_users_iff: "ref_users w i = Some u \<longleftrightarrow> u \<in> set (unique_rows (user_rows w)) \<and> u_id u = i"
proof -
  have "distinct (map fst (map (\<lambda>u. (u_id u, u)) (unique_rows (user_rows w))))"
    using unique_rows_distinct [of "user_rows w"] by (simp add: comp_def)
  then show ?thesis
    by (auto simp: ref_users_def map_of_eq_Some_iff image_iff)
qed

lemma username_inject:
  "u \<in> set (unique_rows us) \<Longrightarrow> v \<in> set (unique_rows us) \<Longrightarrow> username u = username v \<Longrightarrow> u = v"
  using unique_rows_distinct [of us] by (auto simp: distinct_map inj_on_def)

definition set_secret :: "uuid \<Rightarrow> string \<Rightarrow> user_row \<Rightarrow> user_row" where
  "set_secret i s u = (if u_id u = i then with_secret s u else u)"

lemma set_secret_key [simp]:
  "u_id (set_secret i s u) = u_id u" "username (set_secret i s u) = username u"
  by (simp_all add: set_secret_def with_secret_def)

lemma unique_rows_set_secret:
  "unique_rows (map (set_secret i s) us) = map (set_secret i s) (unique_rows us)"
  by (induction us) (simp_all add: filter_map comp_def)

definition ref_insert_user :: "string \<Rightarrow> string \<Rightarrow> string \<Rightarrow> (world, user_row) call" where
  "ref_insert_user n m h w =
     (let rows = unique_rows (user_rows w);
          i = ''uuid-'' @ bits (uuids w);
          u = \<lparr>u_id = i, username = n, email = m, password_hash = h, mfa_enabled = False,
               mfa_secret = None, is_active = True\<rparr>
      in if \<exists>v \<in> set rows. u_id v = i \<or> username v = n
         then (Inl ''duplicate key value'', w)
         else (Inr u, w\<lparr>user_rows := u # rows, uuids := Suc (uuids w)\<rparr>))"

definition ref_select_user :: "string \<Rightarrow> json sql_value list \<Rightarrow> (world, user_row option) call" where
  "ref_select_user q vs w =
     (let rows = unique_rows (user_rows w) in
      case vs of
        [SqlText n] \<Rightarrow>
          if q = find_user_by_username_sql then (Inr (find (\<lambda>u. username u = n) rows), w)
          else (Inl ''syntax error'', w)
      | [SqlUuid i] \<Rightarrow>
          if q = find_user_by_id_sql then (Inr (find (\<lambda>u. u_id u = i) rows), w)
          else (Inl ''syntax error'', w)
      | _ \<Rightarrow> (Inl ''syntax error'', w))"

definition ref_execute :: "string \<Rightarrow> json sql_value list \<Rightarrow> (world, nat) call" where
  "ref_execute q vs w =
     (if q = audit_insert_sql then (Inr 1, w\<lparr>audit_rows := audit_rows w @ [vs]\<rparr>)
      else case vs of
        [SqlText s, SqlUuid i] \<Rightarrow>
          if q = set_user_mfa_secret_sql
          then (Inr 1, w\<lparr>user_rows := map (set_secret i s) (unique_rows (user_rows w))\<rparr>)
          else (Inl ''syntax error'', w)
      | [SqlUuid u, SqlText fp, SqlText ua, SqlText p, SqlText b, SqlText ip, SqlInt t, SqlBool tr] \<Rightarrow>
          if q = upsert_device_sql then
            (let owner = (case map_of (device_rows w) fp of Some (v, _) \<Rightarrow> v | None \<Rightarrow> u) in
             (Inr 1, w\<lparr>device_rows := AList.update fp (owner, \<lparr>d_trust_score = t, d_is_trusted = tr\<rparr>)
                (device_rows w)\<rparr>))
          else (Inl ''syntax error'', w)
      | _ \<Rightarrow> (Inl ''syntax error'', w))"

definition ref_postgres :: "(world, json) postgres" where
  "ref_postgres =
     \<lparr>pg_fetch_optional_user = ref_select_user,
      pg_fetch_one_user = (\<lambda>q vs w.
        case vs of [SqlText n, SqlText m, SqlText h] \<Rightarrow> ref_insert_user n m h w
                 | _ \<Rightarrow> (Inl ''syntax error'', w)),
      pg_fetch_optional_device = (\<lambda>q vs w.
        case vs of [SqlUuid u, SqlText fp] \<Rightarrow>
            (Inr (case map_of (device_rows w) fp of
                    Some (v, d) \<Rightarrow> if v = u then Some d else None | None \<Rightarrow> None), w)
          | _ \<Rightarrow> (Inl ''syntax error'', w)),
      pg_execute = ref_execute\<rparr>"

lemma ref_users_rows: "ref_users w i = find (\<lambda>u. u_id u = i) (unique_rows (user_rows w))"
proof (cases "find (\<lambda>u. u_id u = i) (unique_rows (user_rows w))")
  case None
  then have "ref_users w i = None"
    using ref_users_iff [of w i] by (cases "ref_users w i") (auto simp: find_None_iff)
  with None show ?thesis by simp
next
  case (Some u)
  then have "u \<in> set (unique_rows (user_rows w))" "u_id u = i"
    by (auto simp: find_Some_iff)
  with Some show ?thesis by (simp add: ref_users_iff)
qed

lemma find_by_name:
  "find (\<lambda>u. username u = n) (unique_rows us) = Some u \<longleftrightarrow> u \<in> set (unique_rows us) \<and> username u = n"
proof
  assume r: "u \<in> set (unique_rows us) \<and> username u = n"
  then obtain v where v: "find (\<lambda>u. username u = n) (unique_rows us) = Some v"
    by (cases "find (\<lambda>u. username u = n) (unique_rows us)") (auto simp: find_None_iff)
  then have "v \<in> set (unique_rows us)" "username v = n" by (auto simp: find_Some_iff)
  with r v username_inject [of v us u] show "find (\<lambda>u. username u = n) (unique_rows us) = Some u"
    by simp
qed (auto simp: find_Some_iff)

lemma ref_users_set_secret:
  assumes "user_rows w' = map (set_secret i s) (unique_rows (user_rows w))"
  shows "ref_users w' = updated_secret (ref_users w) i s"
proof
  fix j
  have rows: "unique_rows (user_rows w') = map (set_secret i s) (unique_rows (user_rows w))"
    using assms by (simp add: unique_rows_set_secret unique_rows_idem)
  have "find (\<lambda>u. u_id u = j) (map (set_secret i s) us)
      = map_option (set_secret i s) (find (\<lambda>u. u_id u = j) us)" for us
    by (induction us) simp_all
  then have "ref_users w' j = map_option (set_secret i s) (ref_users w j)"
    by (simp add: ref_users_rows rows)
  also have "\<dots> = updated_secret (ref_users w) i s j"
  proof (cases "ref_users w j")
    case (Some u)
    then have "u_id u = j" by (simp add: ref_users_iff)
    with Some show ?thesis by (auto simp: updated_secret_def set_secret_def)
  qed (auto simp: updated_secret_def)
  finally show "ref_users w' j = updated_secret (ref_users w) i s j" .
qed

lemma ref_insert_user_effect:
  assumes "ref_insert_user n m h w = (Inr u, w')"
  shows "fresh_user n m h u \<and> inserted_user (ref_users w) u (ref_users w')"
proof -
  let ?rows = "unique_rows (user_rows w)"
  from assms have u: "u_id u = ''uuid-'' @ bits (uuids w)" "fresh_user n m h u"
    and new: "\<forall>v \<in> set ?rows. u_id v \<noteq> u_id u \<and> username v \<noteq> n"
    and w': "user_rows w' = u # ?rows"
    by (auto simp: ref_insert_user_def fresh_user_def Let_def split: if_splits)
  have n: "username u = n" using u(2) by (simp add: fresh_user_def)
  have "unique_rows (user_rows w') = u # ?rows"
    using new n by (auto simp: w' unique_rows_idem filter_id_conv)
  then have "ref_users w' = (ref_users w)(u_id u \<mapsto> u)"
    by (simp add: ref_users_def)
  moreover have "ref_users w (u_id u) = None"
    using new by (auto simp: ref_users_rows find_None_iff)
  moreover have "username v \<noteq> username u" if "v \<in> ran (ref_users w)" for v
    using that new n by (auto simp: ran_def ref_users_iff)
  ultimately show ?thesis using u(2) by (simp add: inserted_user_def)
qed

lemma sql_texts:
  "find_user_by_id_sql \<noteq> find_user_by_username_sql" "set_user_mfa_secret_sql \<noteq> audit_insert_sql"
  "upsert_device_sql \<noteq> audit_insert_sql"
  by (simp_all add: find_user_by_id_sql_def find_user_by_username_sql_def
      set_user_mfa_secret_sql_def audit_insert_sql_def upsert_device_sql_def)

interpretation ref_sql: user_sql ref_postgres ref_users
proof
  fix n w x w'
  assume "pg_fetch_optional_user ref_postgres find_user_by_username_sql [SqlText n] w = (Inr x, w')"
  then have "x = find (\<lambda>u. username u = n) (unique_rows (user_rows w))"
    by (auto simp: ref_postgres_def ref_select_user_def Let_def)
  then show "\<forall>u. x = Some u \<longleftrightarrow> (ref_users w (u_id u) = Some u \<and> username u = n)"
    by (auto simp: find_by_name ref_users_iff)
next
  fix i w x w'
  assume "pg_fetch_optional_user ref_postgres find_user_by_id_sql [SqlUuid i] w = (Inr x, w')"
  then show "x = ref_users w i"
    by (auto simp: ref_postgres_def ref_select_user_def ref_users_rows Let_def sql_texts)
next
  fix q vs w rx w'
  assume "pg_fetch_optional_user ref_postgres q vs w = (rx, w')"
  then have "w' = w"
    by (auto simp: ref_postgres_def ref_select_user_def Let_def
        split: list.splits sql_value.splits if_splits)
  then show "ref_users w' = ref_users w" by simp
next
  fix s i w affected w'
  assume "pg_execute ref_postgres set_user_mfa_secret_sql [SqlText s, SqlUuid i] w = (Inr affected, w')"
  then show "ref_users w' = updated_secret (ref_users w) i s"
    by (intro ref_users_set_secret) (auto simp: ref_postgres_def ref_execute_def sql_texts)
next
  fix s i w e w'
  assume "pg_execute ref_postgres set_user_mfa_secret_sql [SqlText s, SqlUuid i] w = (Inl e, w')"
  then show "ref_users w' = ref_users w \<or> ref_users w' = updated_secret (ref_users w) i s"
    by (auto simp: ref_postgres_def ref_execute_def sql_texts)
next
  fix n m h w u w'
  assume "pg_fetch_one_user ref_postgres create_user_sql [SqlText n, SqlText m, SqlText h] w = (Inr u, w')"
  then show "fresh_user n m h u \<and> inserted_user (ref_users w) u (ref_users w')"
    by (intro ref_insert_user_effect) (simp add: ref_postgres_def)
next
  fix n m h w e w'
  assume "pg_fetch_one_user ref_postgres create_user_sql [SqlText n, SqlText m, SqlText h] w = (Inl e, w')"
  then show "ref_users w' = ref_users w
      \<or> (\<exists>u. fresh_user n m h u \<and> inserted_user (ref_users w) u (ref_users w'))"
    by (auto simp: ref_postgres_def ref_insert_user_def Let_def split: if_splits)
qed

section \<open>Passkeys\<close>

definition ref_passkeys :: "(world, nat) passkey_pool" where
  "ref_passkeys =
     \<lparr>pk_execute = (\<lambda>q vs w.
        case vs of
          [SqlText u, SqlText c, SqlJson p] \<Rightarrow>
            if q = save_passkey_sql then
              (if map_of (passkey_rows w) (u, c) = None
               then (Inr 1, w\<lparr>passkey_rows := AList.update (u, c) p (passkey_rows w)\<rparr>)
               else (Inl ''duplicate key value'', w))
            else if q = update_passkey_sql then
              (if map_of (passkey_rows w) (u, c) = None then (Inr 0, w)
               else (Inr 1, w\<lparr>passkey_rows := AList.update (u, c) p (passkey_rows w)\<rparr>))
            else (Inl ''syntax error'', w)
        | [SqlText u, SqlText c] \<Rightarrow>
            if q = delete_passkey_sql
            then (Inr 1, w\<lparr>passkey_rows := AList.delete (u, c) (passkey_rows w)\<rparr>)
            else (Inl ''syntax error'', w)
        | _ \<Rightarrow> (Inl ''syntax error'', w)),
      pk_fetch_all = (\<lambda>q vs w.
        case vs of
          [SqlText u] \<Rightarrow>
            if q = get_passkeys_sql then
              (Inr (map (\<lambda>((u, c), p). \<lparr>row_user_id = u, row_cred_id = c, row_passkey = p\<rparr>)
                 (filter (\<lambda>((v, _), _). v = u) (AList.clearjunk (passkey_rows w)))), w)
            else (Inl ''syntax error'', w)
        | _ \<Rightarrow> (Inl ''syntax error'', w))\<rparr>"

lemma passkey_sql_texts: "update_passkey_sql \<noteq> save_passkey_sql"
  by (simp add: update_passkey_sql_def save_passkey_sql_def)

lemma clearjunk_entry: "(k, p) \<in> set (AList.clearjunk xs) \<longleftrightarrow> map_of xs k = Some p"
  by (metis distinct_clearjunk map_of_clearjunk map_of_eq_Some_iff)

lemma ref_select_passkeys:
  fixes xs :: "((string \<times> string) \<times> 'p) list" and u :: string
  defines "rs \<equiv> map (\<lambda>((u, c), p). \<lparr>row_user_id = u, row_cred_id = c, row_passkey = p\<rparr>)
     (filter (\<lambda>((v, _), _). v = u) (AList.clearjunk xs))"
  shows "distinct rs"
    "set rs = {x. row_user_id x = u \<and> map_of xs (u, row_cred_id x) = Some (row_passkey x)}"
proof -
  have "distinct (AList.clearjunk xs)"
    using distinct_clearjunk [of xs] by (simp add: distinct_map)
  moreover have "inj (\<lambda>((u, c), p). \<lparr>row_user_id = u, row_cred_id = c, row_passkey = p\<rparr>)"
    by (auto simp: inj_def)
  ultimately show "distinct rs"
    by (auto simp: rs_def distinct_map intro: inj_on_subset)
  show "set rs = {x. row_user_id x = u \<and> map_of xs (u, row_cred_id x) = Some (row_passkey x)}"
  proof (rule set_eqI)
    fix x
    show "x \<in> set rs \<longleftrightarrow>
        x \<in> {x. row_user_id x = u \<and> map_of xs (u, row_cred_id x) = Some (row_passkey x)}"
      by (cases x) (auto simp: rs_def clearjunk_entry image_iff)
  qed
qed

interpretation ref_pk: passkey_sql ref_passkeys "\<lambda>w. map_of (passkey_rows w)"
proof
  fix u w xs w'
  assume "pk_fetch_all ref_passkeys get_passkeys_sql [SqlText u] w = (Inr xs, w')"
  then show "map_of (passkey_rows w') = map_of (passkey_rows w) \<and> distinct xs
      \<and> set xs = {x. row_user_id x = u \<and> map_of (passkey_rows w) (u, row_cred_id x) = Some (row_passkey x)}"
    using ref_select_passkeys [where xs = "passkey_rows w" and u = u]
    by (auto simp: ref_passkeys_def)
qed (auto simp: ref_passkeys_def passkey_sql_texts update_conv' delete_conv' split: if_splits)

interpretation ref_handle: configured_passkeys "PostgresStore ref_passkeys" "\<lambda>w. map_of (passkey_rows w)"
  by (rule configured_passkeys.intro) (use ref_pk.passkey_sql_axioms in auto)

section \<open>The proxy over the reference services\<close>

definition quoted :: "string \<Rightarrow> string" where
  "quoted s = [CHR 0x22] @ s @ [CHR 0x22]"

fun json_text :: "json \<Rightarrow> string" where
  "json_text JNull = ''null''"
| "json_text (JBool b) = (if b then ''true'' else ''false'')"
| "json_text (JNum i) = put_int i"
| "json_text (JStr s) = quoted s"
| "json_text (JArr xs) = ''['' @ join_with '','' (map json_text xs) @ '']''"
| "json_text (JObj kvs) =
     ''{'' @ join_with '','' (map (\<lambda>kv. quoted (fst kv) @ '':'' @ json_text (snd kv)) kvs) @ ''}''"

definition ref_services :: "world services" where
  "ref_services =
     \<lparr>sv_platform = ref_platform, sv_redis = ref_redis, sv_codec = reference_codec,
      sv_jwt = ref_jwt, sv_argon2 = ref_argon2, sv_totp = ref_totp, sv_db = ref_postgres,
      sv_http = ref_http, sv_json = (\<lambda>j. Inr (json_text j)),
      sv_login_body = (\<lambda>t. case take_strings 4 t of
         Some [u, p, d, m] \<Rightarrow>
           Some \<lparr>lb_username = u, lb_password = p,
             lb_device_id = (if d = [] then None else Some d),
             lb_mfa_token = (if m = [] then None else Some m)\<rparr>
       | _ \<Rightarrow> None),
      sv_register_body = (\<lambda>t. case take_strings 3 t of
         Some [u, e, p] \<Rightarrow> Some \<lparr>rb_username = u, rb_email = e, rb_password = p\<rparr> | _ \<Rightarrow> None),
      sv_mfa_verify_body = (\<lambda>t. Some \<lparr>mb_mfa_token = t\<rparr>)\<rparr>"

definition ref_server :: "config \<Rightarrow> world proxy_server" where
  "ref_server c = new_proxy_server ref_services c"

definition ref_manager :: "int \<Rightarrow> world session_manager" where
  "ref_manager dur =
     \<lparr>sm_platform = ref_platform, sm_redis = ref_redis, sm_codec = reference_codec,
      session_duration_minutes = dur\<rparr>"

lemma ref_server_manager [simp]:
  "session_manager_of (ref_server c) = ref_manager (auth_session_duration_minutes (auth c))"
  by (simp add: session_manager_of_def ref_server_def new_proxy_server_def ref_services_def
      ref_manager_def)

interpretation ref_sessions: session_services "ref_manager dur" ref_entries clock for dur
proof -
  have "session_services_axioms (ref_manager dur) ref_entries clock"
    by unfold_locales
      (auto simp: ref_manager_def ref_platform_def quiet_def ref_entries_def reference_codec_def
        take_put_session)
  moreover have "redis_kv (sm_redis (ref_manager dur)) ref_entries clock"
    using ref_kv.redis_kv_axioms by (simp add: ref_manager_def)
  ultimately show "session_services (ref_manager dur) ref_entries clock"
    by (rule session_services.intro [rotated])
qed

text \<open>An empty world at noon, 1 January 2025, and the configuration without environment.\<close>

definition start_world :: world where
  "start_world =
     \<lparr>clock = 1735732800 * nanos_per_second, uuids = 0, strings = [], counts = [], user_rows = [],
      device_rows = [], audit_rows = [], upstream_log = [], passkey_rows = []\<rparr>"

definition no_env :: env where
  "no_env _ = None"

end
