(* ===== verification/Gate.thy ===== *)
theory Gate
  imports Proxy
begin

text \<open>
  The gate: which requests \<open>authorize\<close> lets through. \<open>admits\<close> states what the risk and MFA rules
  demand of a session; the gate's outcome is characterised in terms of it, of the token, the
  session store and the policy decision.
\<close>

definition admits :: "config \<Rightarrow> session \<Rightarrow> risk_recommendation \<Rightarrow> bool" where
  "admits c s rec \<longleftrightarrow>
     (case rec of
        Block \<Rightarrow> False
      | StepUpAuth \<Rightarrow> sess_mfa_verified s
      | Allow_request \<Rightarrow> require_mfa (auth c) \<longrightarrow> sess_mfa_verified s)"

section \<open>Logging and scoring do not panic\<close>

lemma panic_free_log_event [io_safe]: "panic_free (log_event P D e)"
  by (auto simp: log_event_def intro!: io_safe)

lemma panic_free_logs [io_safe]:
  "panic_free (log_authentication P D u d ip ok)"
  "panic_free (log_authorization P D u ip res act ok' score)"
  "panic_free (log_risk_evaluation P D u d ip score fs)"
  by (auto simp: log_authentication_def log_authorization_def log_risk_evaluation_def
      intro!: io_safe)

lemma panic_free_calculate_risk [io_safe]: "panic_free (calculate_risk P eng ctx)"
  by (auto simp: calculate_risk_def Let_def intro!: io_safe split: prod.split)

lemma panic_free_request_risk [io_safe]: "panic_free (evaluate_request_risk S s ip c)"
  by (auto simp: evaluate_request_risk_def intro!: io_safe)

lemma audit_authorization_total: "\<exists>w'. audit_authorization S c ip path mth ok score w = (Ok (), w')"
  unfolding audit_authorization_def by (intro discard_total panic_free_logs)

lemma unwrap_or_total: "panic_free m \<Longrightarrow> \<exists>r w'. unwrap_or_io m d w = (Ok r, w')"
  using panic_freeD [of m w] by (cases "m w") (auto simp: unwrap_or_io_def split: outcome.splits)

lemma request_risk_total: "\<exists>r w'. evaluate_request_risk S s ip c w = (Ok r, w')"
proof -
  obtain d w1 where d: "request_device S s ip c w = (d, w1)" by (cases "request_device S s ip c w")
  obtain t1 w2 where t1: "utc_now (platform_of S) w1 = (t1, w2)" by (cases "utc_now (platform_of S) w1")
  obtain t2 w3 where t2: "utc_now (platform_of S) w2 = (t2, w3)" by (cases "utc_now (platform_of S) w2")
  from d t1 t2 show ?thesis
    by (simp add: evaluate_request_risk_def bind_io_def read_io_def unwrap_or_total
        panic_free_calculate_risk)
qed

section \<open>The outcome of the gate\<close>

lemma authorize_risk_Ok_iff:
  "(\<exists>w'. authorize_risk S c s mth path ip w = (Ok (), w')) \<longleftrightarrow>
     (\<exists>r w1. evaluate_request_risk S s ip c w = (Ok r, w1)
       \<and> admits (config S) s (recommendation r))"
  for S :: "'w proxy_server"
proof -
  obtain r w1 where r: "evaluate_request_risk S s ip c w = (Ok r, w1)"
    by (metis request_risk_total)
  obtain w2 where log: "(discard (log_risk_evaluation (platform_of S) (db_of S) (sub c)
      (clm_device_id c) ip (total_score r) (factors_json (factors r))) :: ('w, unit) proxy_io) w1
      = (Ok (), w2)"
    by (rule exE [OF discard_total [OF panic_free_logs(3)]])
  obtain w3 where aud: "audit_authorization S c ip path mth True (total_score r) w2 = (Ok (), w3)"
    by (rule exE [OF audit_authorization_total])
  have "(\<exists>w'. authorize_risk S c s mth path ip w = (Ok (), w')) \<longleftrightarrow> admits (config S) s (recommendation r)"
    using r log aud
    by (cases "recommendation r")
      (auto simp: authorize_risk_def admits_def bind_io_def throw_def split: prod.splits outcome.splits)
  with r show ?thesis by simp
qed

lemma authorize_Ok_iff:
  "(\<exists>w'. authorize S req mth path ip w = (Ok (), w')) \<longleftrightarrow>
     (\<exists>c w1 s w2. bearer_claims S req w = (Ok c, w1)
       \<and> get_session (session_manager_of S) (clm_session_id c) w1 = (Ok s, w2)
       \<and> sess_user_id s = sub c \<and> decides (policy_engine S) (request_context c path mth)
       \<and> (\<exists>w'. authorize_risk S c s mth path ip w2 = (Ok (), w')))"
proof -
  have "(\<exists>w'. (if sess_user_id s \<noteq> sub c then throw (InvalidSession ''session/token subject mismatch'')
        else bind_io (lift_res (evaluate (policy_engine S) (request_context c path mth))) (\<lambda>decision.
          if \<not> allowed decision then
            bind_io (audit_authorization S c ip path mth False (sess_risk_score s)) (\<lambda>_.
              throw (AuthorizationDenied (reason decision)))
          else authorize_risk S c s mth path ip)) w2 = (Ok (), w'))
      \<longleftrightarrow> sess_user_id s = sub c \<and> decides (policy_engine S) (request_context c path mth)
        \<and> (\<exists>w'. authorize_risk S c s mth path ip w2 = (Ok (), w'))" for c s w2
    using evaluate_decides [of "policy_engine S" "request_context c path mth"]
    by (auto simp: io_Ok)
  then show ?thesis
    unfolding authorize_def bind_io_Ok_iff by blast
qed

lemma bearer_claims_Ok_iff:
  "bearer_claims S req w = (Ok c, w') \<longleftrightarrow>
     (\<exists>tok. header_text (sv_http (services S)) req ''authorization'' = Some (''Bearer '' @ tok)
       \<and> jwt_decode (sv_jwt (services S)) (secret (jwt_manager S)) tok w = (Inr c, w'))"
proof -
  have "extract_token_from_header (unwrap_or x '''') = Ok t \<longleftrightarrow> x = Some (''Bearer '' @ t)" for x t
    by (cases x) (auto simp: extract_token_from_header_def unwrap_or_def ok_or_Ok_iff
        strip_prefix_Some_iff starts_with_iff)
  then show ?thesis
    by (simp add: bearer_claims_def validate_token_def io_Ok)
qed

text \<open>C1: The gate lets a request through exactly when all of the following hold: its Authorization
  header is \<open>Bearer\<close> and a token that decodes under the server's secret; the session the token
  names can be got from Redis and belongs to the token's subject; the policy engine decides to allow
  the method on the path; and the risk of the request and the MFA rules admit the session
  (never above the block threshold, with verified MFA from the step-up threshold on, and with verified
  MFA always if the configuration requires it). Audit logging has no say: a log that fails
  neither blocks a request nor admits one.\<close>

theorem authorize_iff:
  "(\<exists>w'. authorize S req mth path ip w = (Ok (), w')) \<longleftrightarrow>
     (\<exists>tok c w1 s w2 r w3.
       header_text (sv_http (services S)) req ''authorization'' = Some (''Bearer '' @ tok)
       \<and> jwt_decode (sv_jwt (services S)) (secret (jwt_manager S)) tok w = (Inr c, w1)
       \<and> get_session (session_manager_of S) (clm_session_id c) w1 = (Ok s, w2)
       \<and> sess_user_id s = sub c
       \<and> decides (policy_engine S) (request_context c path mth)
       \<and> evaluate_request_risk S s ip c w2 = (Ok r, w3)
       \<and> admits (config S) s (recommendation r))"
  unfolding authorize_Ok_iff authorize_risk_Ok_iff bearer_claims_Ok_iff by blast

end
