(* ===== verification/Scenario.thy ===== *)
theory Scenario
  imports Reference Gate
begin

text \<open>
  Runs of the proxy over the reference services, used as witnesses: Alice's session, her token,
  and a request of hers that passes the gate and is answered by the upstream.
\<close>

section \<open>Alice's session\<close>

definition alice_session :: session where
  "alice_session =
     \<lparr>sess_id = ''uuid-'', sess_user_id = ''alice'', sess_device_id = ''laptop'',
      created_at = 1735732800 * nanos_per_second, expires_at = 1735733700 * nanos_per_second,
      last_activity = 1735732800 * nanos_per_second, sess_ip_address = ''10.0.0.1'',
      sess_user_agent = ''curl'', sess_mfa_verified = False, sess_risk_score = 0\<rparr>"

definition alice_world :: world where
  "alice_world = start_world\<lparr>uuids := 1,
     strings := [(''session:uuid-'', put_session alice_session, 1735733700 * nanos_per_second)]\<rparr>"

lemmas ref_run = io_run Let_def nanos_per_second_def ref_manager_def ref_platform_def ref_redis_def
  ref_entries_def reference_codec_def take_put_session session_key_def live_def start_world_def
  num_seconds_def rust_div_def

lemma alice_created:
  "create_session (ref_manager 15) ''alice'' ''laptop'' ''10.0.0.1'' ''curl'' start_world
     = (Ok alice_session, alice_world)"
  by (simp add: create_session_def new_session_def plus_minutes_def plus_seconds_def
      datetime_min_def datetime_max_def serialize_session_def alice_session_def alice_world_def
      bits.simps ref_run)

lemma alice_got: "get_session (ref_manager 15) ''uuid-'' alice_world = (Ok alice_session, alice_world)"
  by (simp add: get_session_def is_expired_def update_activity_def update_session_def
      serialize_session_def alice_session_def alice_world_def ref_run)

lemma alice_keyed: "well_keyed (ref_manager dur) ref_entries alice_world"
  by (simp add: well_keyed_def alice_world_def ref_run) (simp add: alice_session_def)

lemma alice_stored:
  "stored_session (ref_manager dur) ref_entries alice_world = [''uuid-'' \<mapsto> alice_session]"
  by (rule ext) (simp add: stored_session_def alice_world_def ref_run)


section \<open>Alice's request\<close>

definition alice_mfa_session :: session where
  "alice_mfa_session = alice_session\<lparr>sess_mfa_verified := True\<rparr>"

definition gate_world :: world where
  "gate_world = alice_world\<lparr>strings :=
     [(''session:uuid-'', put_session alice_mfa_session, 1735733700 * nanos_per_second)]\<rparr>"

definition alice_claims :: claims where
  "alice_claims =
     \<lparr>sub = ''alice'', exp_at = 1735819200, iat = 1735732800, jti = ''uuid-x'',
      clm_session_id = ''uuid-'', clm_device_id = ''laptop'', clm_risk_score = 0,
      clm_mfa_verified = True\<rparr>"

definition default_server :: "world proxy_server" where
  "default_server = ref_server (default_config no_env)"

definition alice_token :: string where
  "alice_token = put_token ''change-me-in-production'' alice_claims"

definition alice_request :: "world request" where
  "alice_request =
     \<lparr>req_method = ''GET'', req_path = ''/api/x'', req_path_and_query = Some ''/api/x?y=1'',
      req_headers = [(''host'', ''proxy''), (''authorization'', ''Bearer '' @ alice_token)],
      req_body = (\<lambda>w. (Inr [], w))\<rparr>"

lemmas server_run = default_server_def ref_server_def new_proxy_server_def ref_services_def
  default_config_def no_env_def env_or_def session_manager_of_def

lemma token_bearer:
  assumes "header_text ref_http req ''authorization''
      = Some (''Bearer '' @ put_token ''change-me-in-production'' c)" "timestamp (clock w) \<le> exp_at c + 60"
  shows "bearer_claims default_server req w = (Ok c, w)"
  using assms by (simp add: bearer_claims_Ok_iff server_run ref_jwt_def take_put_token)

lemma alice_bearer:
  assumes "clock w = clock start_world" "req_headers req = req_headers alice_request"
  shows "bearer_claims default_server req w = (Ok alice_claims, w)"
  using assms
  by (intro token_bearer)
    (simp_all add: header_text_def ref_http_def alice_request_def alice_token_def alice_claims_def start_world_def
      timestamp_def nanos_per_second_def)

text \<open>Her session is got in every world that stores it at that time, and the world is left as it was.\<close>

lemma alice_mfa_got:
  assumes "strings w = strings gate_world" "clock w = clock start_world"
  shows "get_session (session_manager_of default_server) ''uuid-'' w = (Ok alice_mfa_session, w)"
proof -
  have keep: "w\<lparr>strings := strings gate_world\<rparr> = w" using assms(1) by (cases w) simp
  show ?thesis
    using assms keep
    by (simp add: default_server_def default_config_def)
      (simp add: get_session_def is_expired_def update_activity_def update_session_def
        serialize_session_def alice_mfa_session_def alice_session_def gate_world_def alice_world_def ref_run)
qed


end
