(* ===== verification/Session_Claims.thy ===== *)
theory Session_Claims
  imports Scenario
begin

text \<open>
  What the session manager guarantees, for any services that keep the laws of
  \<open>session_services\<close>; the witnesses run it over the reference services.
\<close>

section \<open>Looking a session up\<close>



text \<open>C32: A session that was created can be got until it expires: before its expiry, and as long as
  nothing else writes to Redis, the only way not to get it is that Redis fails or that the session
  cannot be serialized. In particular the TTL given to Redis never ends before the session does.\<close>

theorem session_created_got:
  assumes "session_services M ent tm"
    and "create_session M u d ip ua w = (Ok s, w1)" "quiet ent tm w1 w2"
    and "0 < session_duration_minutes M" "session_duration_minutes M * 60 < 2 ^ 64"
    and "get_session M (sess_id s) w2 = (r, w3)" "tm w3 < expires_at s"
  shows "(\<exists>s'. r = Ok s' \<and> same_session s s') \<or> (\<exists>e. r = Err (RedisError e))
    \<or> (\<exists>e. r = Err (SerializationError e))"
  using session_services.created_got [OF assms] .

theorem session_created_got_witness:
  "(\<exists>s'. Ok alice_session = (Ok s' :: session proxy_result) \<and> same_session alice_session s')
    \<or> (\<exists>e. Ok alice_session = (Err (RedisError e) :: session proxy_result))
    \<or> (\<exists>e. Ok alice_session = (Err (SerializationError e) :: session proxy_result))"
  by (rule session_created_got [OF ref_sessions.session_services_axioms alice_created, of _ _ alice_world])
    (use alice_got in \<open>simp_all add: quiet_def alice_session_def alice_world_def ref_run\<close>)

section \<open>Revocation\<close>

text \<open>Whatever happens to it, revoking a user's sessions removes only sessions of that user:
  every other session stays stored as it was, and no session appears or changes.\<close>

theorem session_revoke_frame:
  assumes "session_services M ent tm" "well_keyed M ent w"
    and "revoke_user_sessions M u w = (r, w')"
  shows "well_keyed M ent w' \<and> (\<forall>i. stored_session M ent w' i = stored_session M ent w i
      \<or> (stored_session M ent w' i = None
         \<and> (\<exists>s. stored_session M ent w i = Some s \<and> sess_user_id s = u)))"
  using session_store.revoke_effect [OF session_services.manager_provides [OF assms(1)] assms(3,2)] .

lemma alice_revoked:
  "revoke_user_sessions (ref_manager 15) ''alice'' alice_world = (Ok 1, alice_world\<lparr>strings := []\<rparr>)"
  by (simp add: revoke_user_sessions_def get_user_sessions_def scan_session_keys_def ref_scan_def
      get_or_skip_def is_expired_def delete_session_def alice_world_def ref_run)
    (simp add: alice_session_def ref_run)

theorem session_revoke_frame_witness:
  "well_keyed (ref_manager 15) ref_entries (alice_world\<lparr>strings := []\<rparr>)
    \<and> (\<forall>i. stored_session (ref_manager 15) ref_entries (alice_world\<lparr>strings := []\<rparr>) i
          = stored_session (ref_manager 15) ref_entries alice_world i
      \<or> (stored_session (ref_manager 15) ref_entries (alice_world\<lparr>strings := []\<rparr>) i = None
         \<and> (\<exists>s. stored_session (ref_manager 15) ref_entries alice_world i = Some s
              \<and> sess_user_id s = ''alice'')))"
  by (rule session_revoke_frame [OF ref_sessions.session_services_axioms alice_keyed alice_revoked])

text \<open>C14: After a successful revocation no session of the user can be got any more, provided Redis
  answered every read and the key scan ran to its end (the code does not notice when they did
  not), until some later request stores a new session.\<close>

theorem session_revoke_complete:
  assumes "session_services M ent tm" "well_keyed M ent w"
    and "\<And>k w. \<exists>v w'. redis_get (sm_redis M) k w = (Inr v, w')"
    and "\<And>p w ks c w'. redis_scan_match (sm_redis M) p w = (Inr (ks, c), w') \<Longrightarrow> c"
    and "revoke_user_sessions M u w = (Ok n, w1)"
    and "quiet ent tm w1 w2" "get_session M i w2 = (Ok s, w3)"
  shows "sess_user_id s \<noteq> u"
  using session_services.revoke_leaves_none [OF assms(1,3,4,2,5,6,7)] .

text \<open>Bob's session, beside Alice's.\<close>

definition bob_session :: session where
  "bob_session = alice_session\<lparr>sess_id := ''uuid-1'', sess_user_id := ''bob''\<rparr>"

definition both_world :: world where
  "both_world = alice_world\<lparr>strings := strings alice_world
     @ [(''session:uuid-1'', put_session bob_session, 1735733700 * nanos_per_second)]\<rparr>"

definition bob_world :: world where
  "bob_world = both_world\<lparr>strings :=
     [(''session:uuid-1'', put_session bob_session, 1735733700 * nanos_per_second)]\<rparr>"

lemma both_keyed: "well_keyed (ref_manager dur) ref_entries both_world"
  by (simp add: well_keyed_def both_world_def alice_world_def ref_run)
    (simp add: bob_session_def alice_session_def)

lemma both_revoked: "revoke_user_sessions (ref_manager 15) ''alice'' both_world = (Ok 1, bob_world)"
  by (simp add: revoke_user_sessions_def get_user_sessions_def scan_session_keys_def ref_scan_def
      get_or_skip_def is_expired_def delete_session_def both_world_def bob_world_def alice_world_def
      ref_run)
    (simp add: alice_session_def bob_session_def ref_run)

lemma bob_got: "get_session (ref_manager 15) ''uuid-1'' bob_world = (Ok bob_session, bob_world)"
  by (simp add: get_session_def is_expired_def update_activity_def update_session_def
      serialize_session_def bob_session_def alice_session_def bob_world_def both_world_def
      alice_world_def ref_run)

theorem session_revoke_complete_witness: "sess_user_id bob_session \<noteq> ''alice''"
  by (rule session_revoke_complete [OF ref_sessions.session_services_axioms both_keyed _ _
        both_revoked _ bob_got])
    (auto simp: ref_manager_def ref_redis_def quiet_def)

text \<open>Looking a session up is not atomic: a request that read the session before a logout
  deleted it writes it back afterwards. In the interleaving of a \<open>get_session\<close> with another
  request's \<open>delete_session\<close> where the deletion falls between the read and the write, the
  deletion succeeds, and the session is stored again and can be got.\<close>

theorem session_stale_update_resurrects:
  assumes "session_services M ent tm" "well_keyed M ent w"
    and "delete_session M (sess_id s) w = (Ok (), w1)"
    and "update_session M s w1 = (Ok (), w2)" "tm w2 + nanos_per_second \<le> expires_at s"
  shows "stored_session M ent w1 (sess_id s) = None
    \<and> stored_session M ent w2 (sess_id s) = Some s"
  using session_store.delete_Ok [OF session_services.manager_provides [OF assms(1)] assms(3,2)]
    session_services.stale_update [OF assms(1,4,5)] by simp

lemma alice_deleted:
  "delete_session (ref_manager 15) (sess_id alice_session) alice_world
     = (Ok (), alice_world\<lparr>strings := []\<rparr>)"
  by (simp add: delete_session_def alice_session_def alice_world_def ref_run)

lemma alice_written_back:
  "update_session (ref_manager 15) alice_session (alice_world\<lparr>strings := []\<rparr>) = (Ok (), alice_world)"
  by (simp add: update_session_def serialize_session_def alice_world_def ref_run)
    (simp add: alice_session_def ref_run)

theorem session_stale_update_resurrects_witness:
  "stored_session (ref_manager 15) ref_entries (alice_world\<lparr>strings := []\<rparr>) (sess_id alice_session) = None
    \<and> stored_session (ref_manager 15) ref_entries alice_world (sess_id alice_session)
      = Some alice_session"
  by (rule session_stale_update_resurrects [OF ref_sessions.session_services_axioms alice_keyed
        alice_deleted alice_written_back])
    (simp add: alice_session_def alice_world_def ref_run)

end
