(* ===== verification/Rate_Claims.thy ===== *)
theory Rate_Claims
  imports Scenario
begin

text \<open>
  The rate limiter, against what Redis documents of \<open>INCR\<close> and \<open>EXPIRE\<close> (\<open>redis_counter\<close>): how
  many of a run of attempts pass, and what becomes of a counter whose \<open>EXPIRE\<close> was lost.
\<close>

definition open_until :: "instant option \<Rightarrow> instant \<Rightarrow> bool" where
  "open_until dl t \<longleftrightarrow> (case dl of Some d \<Rightarrow> t < d | None \<Rightarrow> True)"

lemma open_until_earlier: "open_until dl t \<Longrightarrow> t' \<le> t \<Longrightarrow> open_until dl t'"
  by (auto simp: open_until_def split: option.splits)

lemma incremented_open:
  "c k = Some (n, dl) \<Longrightarrow> open_until dl t \<Longrightarrow> incremented c t k m = (n + m, dl)"
  by (auto simp: incremented_def counter_at_def open_until_def split: option.splits)

text \<open>Redis answers both commands.\<close>

definition counters_answer :: "'w redis \<Rightarrow> bool" where
  "counters_answer R \<longleftrightarrow>
     (\<forall>b ip n w. \<exists>c w'. redis_incr R (rate_key b ip) n w = (Inr c, w')) \<and>
     (\<forall>b ip s w. \<exists>w'. redis_expire R (rate_key b ip) s w = (Inr (), w'))"

lemma rate_key_ns [simp]: "prefix ''ratelimit:'' (rate_key b ip)"
  by (simp add: rate_key_def)

text \<open>A run of attempts of one address at one endpoint, and its outcomes.\<close>

fun rate_run ::
  "'w proxy_server \<Rightarrow> ip_addr \<Rightarrow> string \<Rightarrow> int \<Rightarrow> int \<Rightarrow> nat \<Rightarrow> 'w \<Rightarrow> unit proxy_result list \<times> 'w" where
  "rate_run S ip b limit secs 0 w = ([], w)"
| "rate_run S ip b limit secs (Suc m) w =
     (let (r, w1) = check_rate_limit S ip b limit secs w;
          (rs, w2) = rate_run S ip b limit secs m w1
      in (r # rs, w2))"

context redis_counter begin

lemmas rate_counts = incr_counts [OF _ rate_key_ns] and rate_expires = expire_sets [OF _ rate_key_ns]
lemmas rate_time = incr_time [OF _ rate_key_ns] expire_time [OF _ rate_key_ns]

lemma rate_counted:
  assumes "sv_redis (services S) = R" "counters_answer R"
    and "check_rate_limit S ip b limit secs w = (r, w')"
    and "ctr w (rate_key b ip) = Some (n, dl)" "open_until dl (tm w')" "1 \<le> n"
  shows "ctr w' (rate_key b ip) = Some (n + 1, dl) \<and> tm w \<le> tm w'
    \<and> r = (if limit < n + 1 then Err RateLimitExceeded else Ok ())"
proof -
  let ?k = "rate_key b ip"
  obtain c w1 where i: "redis_incr R ?k 1 w = (Inr c, w1)"
    using assms(2) unfolding counters_answer_def by blast
  from rate_counts [OF i] obtain t where t: "tm w \<le> t" "t \<le> tm w1"
    "c = fst (incremented (ctr w) t ?k 1)" "ctr w1 = (ctr w)(?k \<mapsto> incremented (ctr w) t ?k 1)"
    by blast
  have fin: "c \<noteq> 1 \<Longrightarrow> w' = w1 \<and> r = (if limit < c then Err RateLimitExceeded else Ok ())"
    using assms(1,3) i
    by (auto simp: check_rate_limit_def io_run Let_def)
  have later: "tm w1 \<le> tm w'"
  proof (cases "c = 1")
    case True
    obtain w2 where e: "redis_expire R ?k secs w1 = (Inr (), w2)"
      using assms(2) unfolding counters_answer_def by blast
    with True assms(1,3) i have "w' = w2"
      by (auto simp: check_rate_limit_def io_run Let_def split: if_splits)
    with rate_time(2) [OF e] show ?thesis by simp
  qed (use fin in simp)
  have "incremented (ctr w) t ?k 1 = (n + 1, dl)"
    using assms(4) open_until_earlier [OF assms(5)] t later by (intro incremented_open) auto
  with t fin assms(6) show ?thesis by auto
qed

lemma rate_opened:
  assumes "sv_redis (services S) = R" "counters_answer R"
    and "check_rate_limit S ip b limit secs w = (r, w')"
    and "\<And>t. tm w \<le> t \<Longrightarrow> counter_at (ctr w) t (rate_key b ip) = None"
  shows "\<exists>d. ctr w' (rate_key b ip) = Some (1, Some d) \<and> tm w + secs * nanos_per_second \<le> d
    \<and> tm w \<le> tm w' \<and> r = (if limit < 1 then Err RateLimitExceeded else Ok ())"
proof -
  let ?k = "rate_key b ip"
  obtain c w1 where i: "redis_incr R ?k 1 w = (Inr c, w1)"
    using assms(2) unfolding counters_answer_def by blast
  from rate_counts [OF i] obtain t where t: "tm w \<le> t" "t \<le> tm w1"
    "c = fst (incremented (ctr w) t ?k 1)" "ctr w1 = (ctr w)(?k \<mapsto> incremented (ctr w) t ?k 1)"
    by blast
  then have one: "c = 1" "ctr w1 = (ctr w)(?k \<mapsto> (1, None))"
    using assms(4) [of t] by (simp_all add: incremented_def)
  obtain w2 where e: "redis_expire R ?k secs w1 = (Inr (), w2)"
    using assms(2) unfolding counters_answer_def by blast
  have "w' = w2 \<and> r = (if limit < 1 then Err RateLimitExceeded else Ok ())"
    using assms(1,3) i e one by (auto simp: check_rate_limit_def io_run Let_def)
  moreover from rate_expires [OF e] obtain t' where "tm w1 \<le> t'" "t' \<le> tm w2"
    "ctr w2 = (ctr w1)(?k \<mapsto> (1, Some (t' + secs * nanos_per_second)))"
    using one by (auto simp: counter_at_def)
  ultimately show ?thesis using t by auto
qed

lemma rate_run_time:
  assumes "sv_redis (services S) = R" "counters_answer R"
  shows "rate_run S ip b limit secs m w = (rs, w') \<Longrightarrow> tm w \<le> tm w'"
proof (induction m arbitrary: w rs)
  case (Suc m)
  obtain r w1 where 1: "check_rate_limit S ip b limit secs w = (r, w1)"
    by (cases "check_rate_limit S ip b limit secs w")
  obtain c w0 where i: "redis_incr R (rate_key b ip) 1 w = (Inr c, w0)"
    using assms(2) unfolding counters_answer_def by blast
  obtain w2 where e: "redis_expire R (rate_key b ip) secs w0 = (Inr (), w2)"
    using assms(2) unfolding counters_answer_def by blast
  have "tm w \<le> tm w1"
    using 1 assms(1) i e rate_time(1) [OF i] rate_time(2) [OF e]
    by (auto simp: check_rate_limit_def io_run Let_def split: if_splits)
  moreover obtain rs' where "rate_run S ip b limit secs m w1 = (rs', w')"
    using Suc.prems 1 by (auto split: prod.splits)
  ultimately show ?case using Suc.IH by fastforce
qed simp

text \<open>
  Attempts against an open counter: those up to the limit pass, the others do not, and the counter
  counts them all.
\<close>

lemma rate_run_counted:
  assumes "sv_redis (services S) = R" "counters_answer R"
  shows "rate_run S ip b (int limit) secs m w = (rs, w') \<Longrightarrow>
    ctr w (rate_key b ip) = Some (int n, dl) \<Longrightarrow> open_until dl (tm w') \<Longrightarrow> 1 \<le> n \<Longrightarrow>
    rs = replicate (min m (limit - n)) (Ok ()) @ replicate (m - (limit - n)) (Err RateLimitExceeded)
    \<and> ctr w' (rate_key b ip) = Some (int (n + m), dl)"
proof (induction m arbitrary: w rs n)
  case (Suc m)
  obtain r w1 where 1: "check_rate_limit S ip b (int limit) secs w = (r, w1)"
    by (cases "check_rate_limit S ip b (int limit) secs w")
  obtain rs' where rest: "rate_run S ip b (int limit) secs m w1 = (rs', w')" "rs = r # rs'"
    using Suc.prems(1) 1 by (auto split: prod.splits)
  have "open_until dl (tm w1)"
    using Suc.prems(3) rate_run_time [OF assms rest(1)] by (rule open_until_earlier)
  from rate_counted [OF assms 1 Suc.prems(2) this] Suc.prems(4)
  have c: "ctr w1 (rate_key b ip) = Some (int (Suc n), dl)"
    "r = (if limit < Suc n then Err RateLimitExceeded else Ok ())"
    by (auto simp: add.commute)
  from Suc.IH [OF rest(1) c(1) Suc.prems(3)] rest(2) c(2) show ?case
    by (cases "limit \<le> n") (auto simp: Suc_diff_le not_le min_def Suc_diff_Suc [symmetric]
        simp del: replicate.simps(2) simp: replicate_Suc)
qed simp

end

section \<open>What an address can do\<close>

lemma ref_counters_answer: "counters_answer ref_redis"
  by (simp add: counters_answer_def ref_redis_def Let_def)

lemma default_server_redis: "sv_redis (services default_server) = ref_redis"
  by (simp add: server_run)

text \<open>C17: Of any number of attempts of one address at one endpoint that are made before the window
  that the first of them opens has passed, exactly the first \<open>limit\<close> pass the rate limiter and all
  others get \<open>RateLimitExceeded\<close> (10 in 300 seconds for login, registration and MFA verification),
  provided Redis answers.\<close>

theorem rate_limit_window:
  assumes "redis_counter R ctr tm" "sv_redis (services S) = R" "counters_answer R"
    and "\<And>t. tm w \<le> t \<Longrightarrow> counter_at (ctr w) t (rate_key b ip) = None"
    and "rate_run S ip b (int limit) secs m w = (rs, w')" "1 \<le> limit"
    and "tm w' < tm w + secs * nanos_per_second"
  shows "rs = replicate (min m limit) (Ok ()) @ replicate (m - limit) (Err RateLimitExceeded)"
proof (cases m)
  case 0
  with assms(5) show ?thesis by simp
next
  case (Suc m')
  obtain r w1 where 1: "check_rate_limit S ip b (int limit) secs w = (r, w1)"
    by (cases "check_rate_limit S ip b (int limit) secs w")
  obtain rs' where rest: "rate_run S ip b (int limit) secs m' w1 = (rs', w')" "rs = r # rs'"
    using assms(5) 1 Suc by (auto split: prod.splits)
  from redis_counter.rate_opened [OF assms(1-3) 1 assms(4)] obtain d where
    d: "ctr w1 (rate_key b ip) = Some (int 1, Some d)" "tm w + secs * nanos_per_second \<le> d"
    and r: "r = Ok ()"
    using assms(6) by auto
  have "open_until (Some d) (tm w')" using assms(7) d(2) by (simp add: open_until_def)
  from redis_counter.rate_run_counted [OF assms(1-3) rest(1) d(1) this] rest(2) r
  have "rs = replicate (Suc (min m' (limit - 1))) (Ok ())
      @ replicate (m' - (limit - 1)) (Err RateLimitExceeded)" by simp
  moreover have "Suc (min m' (limit - 1)) = min m limit" "m' - (limit - 1) = m - limit"
    using assms(6) Suc by (auto simp: min_def)
  ultimately show ?thesis by (simp only:)
qed

theorem rate_limit_window_witness:
  "fst (rate_run default_server ''10.0.0.1'' ''login'' (int 2) 300 3 start_world)
     = [Ok (), Ok (), Err RateLimitExceeded]"
proof -
  obtain rs w' where run: "rate_run default_server ''10.0.0.1'' ''login'' (int 2) 300 3 start_world = (rs, w')"
    by (cases "rate_run default_server ''10.0.0.1'' ''login'' (int 2) 300 3 start_world")
  have clock: "clock (snd (check_rate_limit default_server ip b l t w)) = clock w" for ip b l t w
    by (simp add: check_rate_limit_def default_server_redis ref_redis_def io_run Let_def
        ref_expire_def split: option.split)
  have "clock (snd (rate_run default_server ip b l t m w)) = clock w" for ip b l t m w
    using clock by (induction m arbitrary: w) (simp_all add: Let_def split: prod.split, metis snd_conv)
  then have "clock w' = clock start_world" using run by (metis snd_conv)
  with rate_limit_window [OF ref_ctr.redis_counter_axioms default_server_redis ref_counters_answer _ run]
  have "rs = [Ok (), Ok (), Err RateLimitExceeded]"
    by (simp add: counter_at_def ref_counters_def start_world_def nanos_per_second_def
        numeral_2_eq_2 numeral_3_eq_3)
  with run show ?thesis by simp
qed

text \<open>C38: A counter that lost its \<open>EXPIRE\<close> (it is a second command, after the \<open>INCR\<close> that created
  the key) has no deadline and is never reset: however much time passes between the attempts, once
  \<open>limit\<close> of them have been counted every later attempt of that address is refused.\<close>

theorem rate_limit_lost_expire:
  assumes "redis_counter R ctr tm" "sv_redis (services S) = R" "counters_answer R"
    and "ctr w (rate_key b ip) = Some (int n, None)" "1 \<le> n"
    and "rate_run S ip b (int limit) secs m w = (rs, w')"
  shows "rs = replicate (min m (limit - n)) (Ok ())
      @ replicate (m - (limit - n)) (Err RateLimitExceeded)
    \<and> ctr w' (rate_key b ip) = Some (int (n + m), None)"
  using redis_counter.rate_run_counted [OF assms(1-3,6,4) _ assms(5)] by (simp add: open_until_def)

theorem rate_limit_lost_expire_witness:
  "fst (rate_run default_server ''10.0.0.1'' ''login'' (int 10) 300 1
      (start_world\<lparr>counts := [(rate_key ''login'' ''10.0.0.1'', int 10, None)]\<rparr>))
     = [Err RateLimitExceeded]"
proof -
  let ?w = "start_world\<lparr>counts := [(rate_key ''login'' ''10.0.0.1'', int 10, None)]\<rparr>"
  obtain rs w' where run: "rate_run default_server ''10.0.0.1'' ''login'' (int 10) 300 1 ?w = (rs, w')"
    by (cases "rate_run default_server ''10.0.0.1'' ''login'' (int 10) 300 1 ?w")
  have "ref_counters ?w (rate_key ''login'' ''10.0.0.1'') = Some (int 10, None)"
    by (simp add: ref_counters_def)
  from rate_limit_lost_expire [OF ref_ctr.redis_counter_axioms default_server_redis
      ref_counters_answer this _ run] run show ?thesis by simp
qed

end
