(* ===== verification/Frame.thy ===== *)
theory Frame
  imports Gate Reference
begin

text \<open>
  Frames of the handlers. \<open>call_frame S R\<close> says that no call the server makes moves the world outside
  the preorder \<open>R\<close>, leaving out the commands of the session store and sending a request upstream
  (\<open>other_frame\<close> leaves out those of the rate limiter too, which are always these: add one, and 300 seconds).
  The locales named \<open>_base\<close> leave out the one statement that writes a device row as well.
  \<open>gate_frame\<close> adds getting, deleting and revoking sessions; then no handler leaves \<open>R\<close> except perhaps
  a login or an MFA verification. \<open>handler_frame\<close> adds the two ways in which these write sessions; then
  \<open>handle_request\<close> leaves \<open>R\<close> only through the gate. \<open>service_frame\<close> adds the Redis commands of the
  session store instead, one by one, which gives a \<open>handler_frame\<close>.
\<close>

named_theorems frame \<open>operations inside the frame\<close>

locale other_base =
  fixes S :: "'w proxy_server" and R :: "'w \<Rightarrow> 'w \<Rightarrow> bool"
  assumes frame_reflp: "reflp R"
    and frame_transp: "transp R"
    and frame_now: "moves R (utc_now (platform_of S))"
    and frame_uuid: "moves R (uuid_v4 (platform_of S))"
    and frame_jwt: "moves R (jwt_decode (sv_jwt (services S)) sec tok)"
    and frame_salt: "moves R (a2_salt (sv_argon2 (services S)))"
    and frame_rng: "moves R (gen_range (sv_totp (services S)) bound)"
    and frame_totp: "moves R (totp_check_current (sv_totp (services S)) t code)"
    and frame_pg_user: "moves R (pg_fetch_optional_user (db_of S) q vs)"
    and frame_pg_insert: "moves R (pg_fetch_one_user (db_of S) q vs)"
    and frame_pg_device: "moves R (pg_fetch_optional_device (db_of S) q vs)"
    and frame_pg_statement: "q \<noteq> upsert_device_sql \<Longrightarrow> moves R (pg_execute (db_of S) q vs)"
begin

lemma pg_execute_any:
  assumes "\<And>vs. moves R (pg_execute (db_of S) upsert_device_sql vs)"
  shows "moves R (pg_execute (db_of S) q vs)"
  using frame_pg_statement [of q vs] assms by (cases "q = upsert_device_sql") auto

end

locale other_frame = other_base S R for S :: "'w proxy_server" and R :: "'w \<Rightarrow> 'w \<Rightarrow> bool" +
  assumes frame_upsert: "moves R (pg_execute (db_of S) upsert_device_sql vs)"
begin

lemmas frame_pg_execute = pg_execute_any [OF frame_upsert]

end

locale call_base = other_base S R
  for S :: "'w proxy_server" and R :: "'w \<Rightarrow> 'w \<Rightarrow> bool" +
  assumes frame_redis_incr: "moves R (redis_incr (sv_redis (services S)) (rate_key b ip) 1)"
    and frame_redis_expire: "moves R (redis_expire (sv_redis (services S)) (rate_key b ip) 300)"
begin

lemmas frame_base_calls = frame_now frame_uuid frame_redis_incr frame_redis_expire frame_jwt frame_salt
  frame_rng frame_totp frame_pg_user frame_pg_insert frame_pg_device

lemma frame_other_statements:
  "moves R (pg_execute (db_of S) audit_insert_sql vs)"
  "moves R (pg_execute (db_of S) set_user_mfa_secret_sql vs)"
  by (rule frame_pg_statement,
      simp add: audit_insert_sql_def set_user_mfa_secret_sql_def upsert_device_sql_def)+

lemmas frame_basic = within_bind [OF frame_transp] within_pure [OF frame_reflp] within_call
  within_read within_discard within_unwrap_or within_if

text \<open>The frame as premises: enough to see that an operation built of calls stays inside.\<close>

abbreviation inside :: "('w \<Rightarrow> 'r \<times> 'w) \<Rightarrow> bool" where
  "inside m \<equiv> moves R m"

lemma inside_read_chain:
  "inside m \<Longrightarrow> (\<And>x. inside (k x)) \<Longrightarrow> inside (\<lambda>w. case m w of (x, w') \<Rightarrow> k x w')"
  unfolding moves_def by (auto split: prod.splits) (metis frame_transp snd_conv transpD)

lemma inside_pair: "inside (\<lambda>w. (x, w))"
  using frame_reflp by (simp add: moves_def reflpD)

lemma inside_new_device [frame]: "inside (new_device (platform_of S) u ua ip m)"
  unfolding new_device_def Let_def
  by (cases "parse_user_agent ua") (auto intro!: inside_read_chain inside_pair frame_base_calls)

lemma inside_update_last_seen [frame]: "inside (update_last_seen (platform_of S) d)"
  unfolding update_last_seen_def by (intro inside_read_chain inside_pair frame_base_calls)

lemma inside_request_device [frame]: "inside (request_device S s ip c)"
  unfolding request_device_def Let_def by (intro inside_read_chain inside_pair frame)

lemma inside_device_risk [frame]: "inside (calculate_device_risk (platform_of S) d)"
  unfolding calculate_device_risk_def Let_def
  by (auto intro!: inside_read_chain inside_pair frame_base_calls split: prod.split)

lemma inside_calculate_risk [frame]: "inside (calculate_risk (platform_of S) eng ctx)"
  unfolding calculate_risk_def Let_def
  by (auto intro!: frame_basic frame split: prod.split)

lemma inside_new_event [frame]: "inside (new_event (platform_of S) ty u d ip res act out)"
  unfolding new_event_def Let_def by (auto intro!: inside_read_chain inside_pair frame_base_calls)

lemma inside_parse_or_fresh [frame]: "inside (parse_or_fresh (platform_of S) i)"
proof (cases "parse_uuid (platform_of S) i")
  case None
  then have "parse_or_fresh (platform_of S) i = uuid_v4 (platform_of S)"
    by (simp add: parse_or_fresh_def fun_eq_iff)
  with frame_uuid show ?thesis by simp
next
  case (Some u)
  then have "parse_or_fresh (platform_of S) i = (\<lambda>w. (u, w))"
    by (simp add: parse_or_fresh_def fun_eq_iff)
  with inside_pair show ?thesis by simp
qed

lemma inside_log_event [frame]: "inside (log_event (platform_of S) (db_of S) e)"
  unfolding log_event_def by (intro frame_basic frame frame_base_calls frame_other_statements)

lemma inside_logs [frame]:
  "inside (log_authentication (platform_of S) (db_of S) u d ip ok)"
  "inside (log_authorization (platform_of S) (db_of S) u ip res act ok' score)"
  "inside (log_risk_evaluation (platform_of S) (db_of S) u d ip score fs)"
  unfolding log_authentication_def log_authorization_def log_risk_evaluation_def
  by (intro frame_basic frame)+

lemma inside_audits [frame]:
  "inside (audit_authorization S c ip path mth ok score)" "inside (audit_login S user d ip ok)"
  unfolding audit_authorization_def audit_login_def by (intro frame_basic frame)+

section \<open>Tokens and the steps of the handlers\<close>

lemma inside_tokens [frame]:
  "inside (validate_token (sv_jwt (services S)) m tok)"
  "inside (generate_token (platform_of S) J m u d score mfa sid)"
  unfolding validate_token_def generate_token_def Let_def
  by (auto intro!: frame_basic frame_base_calls split: option.split)

lemma inside_bearer_claims [frame]: "inside (bearer_claims S req)"
  unfolding bearer_claims_def Let_def by (intro frame_basic frame)

lemma inside_rate_limit [frame]: "inside (check_rate_limit S ip b limit 300)"
  unfolding check_rate_limit_def Let_def by (intro frame_basic frame_base_calls)

lemma inside_request_risk [frame]: "inside (evaluate_request_risk S s ip c)"
  unfolding evaluate_request_risk_def by (intro frame_basic frame frame_base_calls)

lemma inside_case_recommendation:
  "inside a \<Longrightarrow> inside b \<Longrightarrow> inside d \<Longrightarrow>
     inside (case x of Allow_request \<Rightarrow> a | StepUpAuth \<Rightarrow> b | Block \<Rightarrow> d)"
  by (cases x) simp_all

lemma inside_authorize_risk [frame]: "inside (authorize_risk S c s mth path ip)"
  unfolding authorize_risk_def
  by (intro frame_basic frame inside_case_recommendation)

lemma inside_db [frame]:
  "inside (find_user_by_username (db_of S) n)" "inside (find_user_by_id (db_of S) i)"
  "inside (find_device_by_fingerprint (db_of S) i fp)"
  "inside (set_user_mfa_secret (db_of S) i sec)" "inside (create_user (db_of S) n e h)"
  unfolding find_user_by_username_def find_user_by_id_def find_device_by_fingerprint_def
    set_user_mfa_secret_def create_user_def
  by (intro frame_basic frame_base_calls frame_other_statements)+

lemma inside_totp [frame]:
  "inside (verify_token (sv_totp (services S)) cfg sec code)"
  "inside (generate_secret (sv_totp (services S)))"
proof -
  show "inside (verify_token (sv_totp (services S)) cfg sec code)"
    unfolding verify_token_def by (intro frame_basic frame_base_calls)
  have "inside (random_chars (sv_totp (services S)) n)" for n
    by (induction n) (auto intro!: frame_basic frame_base_calls)
  then show "inside (generate_secret (sv_totp (services S)))" by (simp add: generate_secret_def)
qed

lemma inside_login_steps [frame]:
  "inside (find_active_user S n)" "inside (login_mfa S user body)" "inside (login_risk S ip user d)"
  unfolding find_active_user_def login_mfa_def login_risk_def
  by (auto intro!: frame_basic frame frame_base_calls split: option.split)

lemma inside_login_device [frame]: "inside (login_device S ip ua user)"
  unfolding login_device_def by (auto intro!: frame_basic frame split: option.split)

lemma inside_fresh_device_id [frame]: "inside (fresh_device_id S body)"
proof (cases "lb_device_id body")
  case None
  then have "fresh_device_id S body = uuid_v4 (platform_of S)"
    by (simp add: fresh_device_id_def fun_eq_iff)
  with frame_uuid show ?thesis by simp
next
  case (Some d)
  then have "fresh_device_id S body = (\<lambda>w. (d, w))" by (simp add: fresh_device_id_def fun_eq_iff)
  with inside_pair show ?thesis by simp
qed

lemma inside_hash [frame]: "inside (hash_password (sv_argon2 (services S)) p)"
  unfolding hash_password_def by (intro frame_basic frame_base_calls)

lemma inside_user_of_claims [frame]: "inside (user_of_claims S c)"
  unfolding user_of_claims_def by (intro frame_basic frame)

lemma inside_forward:
  assumes "inside (req_body req)" "\<And>up. inside (http_send (sv_http (services S)) up)"
    and "\<And>up w ur w'. http_send (sv_http (services S)) up w = (Inr ur, w') \<Longrightarrow> inside (ur_body ur)"
  shows "inside (forward_upstream S req)"
proof -
  have body: "inside (collect_body b)" if "inside b" for b
    using that unfolding collect_body_def by (intro frame_basic)
  have send: "inside (bind_io (call_io (\<lambda>_. InternalError) (http_send (sv_http (services S)) up))
      (\<lambda>resp. bind_io (collect_body (ur_body resp)) (\<lambda>bytes. ret (f resp bytes))))"
    for up and f :: "'w upstream_response \<Rightarrow> string \<Rightarrow> response"
  proof (rule within_bind_results)
    fix w resp w1
    assume "call_io (\<lambda>_. InternalError) (http_send (sv_http (services S)) up) w = (Ok resp, w1)"
    then show "inside (bind_io (collect_body (ur_body resp)) (\<lambda>bytes. ret (f resp bytes)))"
      by (intro frame_basic body assms(3)) (simp add: call_io_Ok_iff)
  qed (intro frame_basic assms(2) frame_transp)+
  show ?thesis
    unfolding forward_upstream_def Let_def by (intro frame_basic body assms(1) send)
qed

end

locale call_frame = call_base S R for S :: "'w proxy_server" and R :: "'w \<Rightarrow> 'w \<Rightarrow> bool" +
  assumes frame_upsert: "moves R (pg_execute (db_of S) upsert_device_sql vs)"
begin

lemmas frame_pg_execute = pg_execute_any [OF frame_upsert]

lemmas frame_calls = frame_base_calls frame_pg_execute

lemma inside_upsert_device [frame]: "inside (upsert_device (db_of S) i fp ua p b ipa t tr)"
  unfolding upsert_device_def by (intro frame_basic frame_upsert)

lemma inside_store_device [frame]: "inside (store_device S ip user d)"
  unfolding store_device_def by (rule inside_upsert_device)

lemma inside_record_device [frame]: "inside (record_device S ip user d existing)"
  unfolding record_device_def Let_def by (intro frame_basic frame)

lemma inside_reject_password [frame]: "inside (reject_password S ip user body d)"
  unfolding reject_password_def by (intro frame_basic frame)

end

section \<open>Handlers\<close>

locale gate_base = call_base +
  assumes frame_get_session: "moves R (get_session (session_manager_of S) i)"
    and frame_delete_session: "moves R (delete_session (session_manager_of S) i)"
    and frame_revoke: "moves R (revoke_user_sessions (session_manager_of S) u)"
begin

lemmas frame_sessions = frame_get_session frame_delete_session frame_revoke

lemma inside_authorize [frame]: "inside (authorize S req mth path ip)"
  unfolding authorize_def by (intro frame_basic frame frame_sessions)

lemma inside_body: "inside (req_body req) \<Longrightarrow> inside (collect_body (req_body req))"
  unfolding collect_body_def by (intro frame_basic)

lemma inside_gate_handlers [frame]:
  "inside (handle_mfa_enroll S req)" "inside (handle_logout S req)" "inside (handle_logout_all S req)"
proof -
  show "inside (handle_mfa_enroll S req)"
    unfolding handle_mfa_enroll_def by (auto intro!: frame_basic frame split: prod.split)
  show "inside (handle_logout S req)" "inside (handle_logout_all S req)"
    unfolding handle_logout_def handle_logout_all_def by (intro frame_basic frame frame_sessions)+
qed

text \<open>Registration is limited first; what follows stays inside.\<close>

lemma limited_register:
  "inside (req_body req) \<Longrightarrow> \<exists>k. handle_register S req ip = bind_io (check_rate_limit S ip ''register'' 10 300) k
     \<and> (\<forall>x. inside (k x))"
  unfolding handle_register_def
  by (intro exI conjI allI, rule refl) (intro frame_basic frame inside_body)

lemma inside_limited:
  "\<exists>k. m = bind_io (check_rate_limit S ip b limit 300) k \<and> (\<forall>x. inside (k x)) \<Longrightarrow> inside m"
  by (auto intro: frame_basic frame)

lemmas inside_register = inside_limited [OF limited_register]

text \<open>Only a login and an MFA verification have to be looked at beyond these.\<close>

lemma inside_request_by:
  assumes "inside (req_body req)" "inside (forward_upstream S req)"
    and "req_path req = ''/auth/login'' \<Longrightarrow> req_method req = ''POST'' \<Longrightarrow> inside (handle_login S req ip)"
    and "req_path req = ''/auth/mfa/verify'' \<Longrightarrow> inside (handle_mfa_verify S req ip)"
  shows "inside (handle_request S req ip)"
proof -
  have route: "inside (route S req ip)"
    unfolding route_def Let_def
    by (intro frame_basic frame inside_register assms) simp_all
  show ?thesis
  proof (rule withinI)
    fix w r w'
    assume "handle_request S req ip w = (r, w')"
    moreover obtain rr w2 where rr: "route S req ip w = (rr, w2)" by (cases "route S req ip w")
    ultimately show "R w w'"
      using withinD [OF route rr] frame_reflp
      by (auto simp: handle_request_def reflpD split: outcome.splits if_splits)
  qed
qed

end

locale gate_frame = call_frame + gate_base

lemma gate_frameI: "call_frame S R \<Longrightarrow> gate_base_axioms S R \<Longrightarrow> gate_frame S R"
  by (intro gate_frame.intro gate_base.intro call_frame.axioms(1))

locale handler_frame = gate_frame +
  assumes frame_open_session: "moves R (open_session S ip ua user body mfa score)"
    and frame_step_up: "moves R (bind_io (get_session (session_manager_of S) i)
      (\<lambda>s. update_session (session_manager_of S) (s\<lparr>sess_mfa_verified := True\<rparr>)))"
begin

lemma limited_handlers:
  assumes "inside (req_body req)"
  shows "\<exists>k. handle_login S req ip = bind_io (check_rate_limit S ip ''login'' 10 300) k \<and> (\<forall>x. inside (k x))"
    and "\<exists>k. handle_mfa_verify S req ip = bind_io (check_rate_limit S ip ''mfa_verify'' 10 300) k
      \<and> (\<forall>x. inside (k x))"
proof -
  note body = inside_body [OF assms]
  show "\<exists>k. handle_login S req ip = bind_io (check_rate_limit S ip ''login'' 10 300) k \<and> (\<forall>x. inside (k x))"
    unfolding handle_login_def Let_def
    by (intro exI conjI allI, rule refl)
      (auto intro!: frame_basic frame frame_open_session body split: prod.split)
  show "\<exists>k. handle_mfa_verify S req ip = bind_io (check_rate_limit S ip ''mfa_verify'' 10 300) k
      \<and> (\<forall>x. inside (k x))"
    unfolding handle_mfa_verify_def bind_assoc [symmetric, where m = "get_session m i" for m i]
    by (intro exI conjI allI, rule refl)
      (auto intro!: frame_basic frame frame_step_up body split: prod.split)
qed

lemmas inside_handlers = limited_handlers [THEN inside_limited]

text \<open>The requests that are limited, with their counters.\<close>

lemma limited_route:
  assumes "inside (req_body req)" "req_method req = ''POST''"
    and "(req_path req, b) \<in> {(''/auth/login'', ''login''), (''/auth/register'', ''register''),
      (''/auth/mfa/verify'', ''mfa_verify'')}"
  shows "\<exists>k. route S req ip = bind_io (check_rate_limit S ip b 10 300) k \<and> (\<forall>x. inside (k x))"
  using limited_handlers [OF assms(1)] limited_register [OF assms(1)] assms(2,3) by (auto simp: route_def)

lemma inside_request:
  "inside (req_body req) \<Longrightarrow> inside (forward_upstream S req) \<Longrightarrow> inside (handle_request S req ip)"
  by (intro inside_request_by inside_handlers)

text \<open>A request that leaves the frame went through the gate and was forwarded.\<close>

lemma outside_was_authorized:
  assumes "inside (req_body req)" "handle_request S req ip w = (r, w')" "\<not> R w w'"
  obtains w1 rf where "authorize S req (req_method req) (req_path req) ip w = (Ok (), w1)"
    "R w w1" "forward_upstream S req w1 = (rf, w')"
proof -
  obtain rr w2 where rr: "route S req ip w = (rr, w2)" by (cases "route S req ip w")
  have "w2 = w' \<and> \<not> (req_path req = ''/health'' \<or> req_path req = ''/metrics'')"
    using assms(2,3) rr frame_reflp
    by (auto simp: handle_request_def reflpD split: outcome.splits if_splits)
  then have w': "\<not> R w w2" "w2 = w'" using assms(3) by auto
  note h = inside_handlers [OF assms(1), THEN withinD] inside_register [OF assms(1), THEN withinD]
    inside_gate_handlers [THEN withinD]
  obtain a w1 where a: "authorize S req (req_method req) (req_path req) ip w = (a, w1)"
    by (cases "authorize S req (req_method req) (req_path req) ip w")
  have "route S req ip w = bind_io (authorize S req (req_method req) (req_path req) ip)
      (\<lambda>_. forward_upstream S req) w"
    using w'(1) rr by (auto simp: route_def Let_def split: if_splits dest: h)
  with a rr have f: "bind_io (authorize S req (req_method req) (req_path req) ip)
      (\<lambda>_. forward_upstream S req) w = (rr, w2)" by simp
  note ra = withinD [OF inside_authorize a]
  show thesis
  proof (cases a)
    case (Ok u)
    with a f ra w' that show thesis by (simp add: bind_io_def)
  qed (use a f ra w' in \<open>simp_all add: bind_io_def\<close>)
qed

end

section \<open>The commands of the session store\<close>

text \<open>Reading and deleting first; writing is added by \<open>service_frame\<close>.\<close>

locale kv_base = call_base +
  assumes frame_redis_get: "moves R (redis_get (sv_redis (services S)) k)"
    and frame_redis_del: "moves R (redis_del (sv_redis (services S)) (session_key i))"
    and frame_redis_scan: "moves R (redis_scan_match (sv_redis (services S)) ''session:*'')"
begin

lemma inside_manager:
  "inside (utc_now (sm_platform (session_manager_of S)))"
  "inside (uuid_v4 (sm_platform (session_manager_of S)))"
  "inside (redis_get (sm_redis (session_manager_of S)) k)"
  "inside (redis_del (sm_redis (session_manager_of S)) (session_key i))"
  "inside (redis_scan_match (sm_redis (session_manager_of S)) ''session:*'')"
  by (simp_all add: session_manager_of_def frame_now frame_uuid frame_redis_get frame_redis_del
      frame_redis_scan)

lemma inside_session_reads [frame]:
  "inside (is_expired (sm_platform (session_manager_of S)) s)"
  "inside (update_activity (sm_platform (session_manager_of S)) s)"
  "inside (get_or_skip (session_manager_of S) k)"
  unfolding is_expired_def update_activity_def
  by (intro inside_read_chain inside_pair inside_manager)+
    (auto simp: get_or_skip_def moves_def split: prod.split sum.split
      intro: withinD [OF inside_manager(3)])

lemma inside_new_session [frame]:
  "inside (new_session (sm_platform (session_manager_of S)) u d ip ua dur)"
  unfolding new_session_def by (auto intro!: frame_basic inside_manager split: option.split)

lemma inside_delete_session [frame]: "inside (delete_session (session_manager_of S) i)"
  unfolding delete_session_def by (intro frame_basic inside_manager)

lemma inside_collect: "inside (collect_sessions (session_manager_of S) u ks acc)"
proof (induction ks arbitrary: acc)
  case (Cons k ks)
  then show ?case by (auto intro!: frame_basic frame split: option.split sum.split)
qed (simp add: frame_basic)

lemma inside_delete_sessions: "inside (delete_sessions (session_manager_of S) ss)"
  by (induction ss) (auto intro!: frame_basic frame)

lemma inside_revoke [frame]: "inside (revoke_user_sessions (session_manager_of S) u)"
  unfolding revoke_user_sessions_def get_user_sessions_def scan_session_keys_def Let_def
  by (intro frame_basic inside_collect inside_delete_sessions inside_manager)

end

locale kv_frame = call_frame + kv_base

lemma kv_frameI: "call_frame S R \<Longrightarrow> kv_base_axioms S R \<Longrightarrow> kv_frame S R"
  by (intro kv_frame.intro kv_base.intro call_frame.axioms(1))

locale service_base = kv_base +
  assumes frame_redis_set: "moves R (redis_set_ex (sv_redis (services S)) (session_key i) v ttl)"
begin

lemmas frame_redis = frame_redis_get frame_redis_del frame_redis_scan frame_redis_set

lemma inside_set: "inside (redis_set_ex (sm_redis (session_manager_of S)) (session_key i) v ttl)"
  by (simp add: session_manager_of_def frame_redis_set)

lemma inside_sessions [frame]:
  "inside (create_session (session_manager_of S) u d ip ua)"
  "inside (update_session (session_manager_of S) s)"
  "inside (delete_session (session_manager_of S) i)"
proof -
  show "inside (create_session (session_manager_of S) u d ip ua)"
    unfolding create_session_def serialize_session_def Let_def
    by (intro frame_basic frame inside_set)
  show "inside (update_session (session_manager_of S) s)"
    unfolding update_session_def serialize_session_def Let_def
    by (intro frame_basic inside_manager inside_set)
  show "inside (delete_session (session_manager_of S) i)"
    by (rule inside_delete_session)
qed

lemma inside_get_session [frame]: "inside (get_session (session_manager_of S) i)"
  unfolding get_session_def
  by (auto intro!: frame_basic frame inside_manager split: option.split)

lemma inside_open_session [frame]: "inside (open_session S ip ua user body mfa score)"
  unfolding open_session_def Let_def by (intro frame_basic frame)

lemma inside_session_verify:
  assumes "inside (req_body req)"
  shows "inside (handle_mfa_verify S req ip)"
  using assms unfolding handle_mfa_verify_def collect_body_def
  by (auto intro!: frame_basic frame split: prod.split)

lemma inside_step_up:
  "inside (bind_io (get_session (session_manager_of S) i)
    (\<lambda>s. update_session (session_manager_of S) (s\<lparr>sess_mfa_verified := True\<rparr>)))"
  by (intro frame_basic frame)

end

sublocale service_base \<subseteq> gate_base
  by unfold_locales (rule inside_get_session inside_sessions(3) inside_revoke)+

locale service_frame = kv_frame + service_base

lemma service_frameI: "kv_frame S R \<Longrightarrow> service_base_axioms S R \<Longrightarrow> service_frame S R"
  by (intro service_frame.intro service_base.intro kv_frame.axioms(2))

sublocale service_frame \<subseteq> handler_frame
  by unfold_locales (rule inside_open_session inside_step_up)+

context service_frame begin

lemma handlers_framed: "handler_frame S R"
  by (rule handler_frame_axioms)

lemma service_calls: "call_frame S R"
  by (rule call_frame_axioms)

end

end
