(* ===== verification/Request_Risk.thy ===== *)
theory Request_Risk
  imports Scenario
begin

text \<open>
  The risk scores the proxy can arrive at: at the gate, from a device built afresh for every
  request, and at login, from the stored trust of the device.
\<close>

lemma calculate_risk_score:
  assumes "utc_now P w = (now, w')"
  shows "\<exists>r. calculate_risk P eng ctx w = (Ok r, w')
    \<and> unat (total_score r) = min 100 (raw_risk ctx (device_points (rc_device ctx)
        (num_days (now - first_seen (rc_device ctx)))))
    \<and> recommendation r = recommend eng (total_score r)"
proof -
  from calculate_risk_eval [OF assms, of ctx eng] obtain fs where fs:
    "factor_sum fs = raw_risk ctx (device_points (rc_device ctx)
        (num_days (now - first_seen (rc_device ctx))))"
    "calculate_risk P eng ctx w = (Ok \<lparr>total_score = min (word_of_nat (factor_sum fs)) 100,
        factors = fs, level = risk_level_of (min (word_of_nat (factor_sum fs)) 100),
        recommendation = recommend eng (min (word_of_nat (factor_sum fs)) 100)\<rparr>, w')"
    by (auto simp: Let_def)
  have "unat (min (word_of_nat (factor_sum fs)) (100 :: u32)) = min (factor_sum fs) 100"
    by (rule unat_min_of_nat) (use fs(1) raw_risk_le in simp)
  with fs show ?thesis by (simp add: min.commute)
qed

lemma time_points:
  "option_score (calculate_time_risk ctx)
     = (if 2 \<le> hour_of (rc_timestamp ctx) \<and> hour_of (rc_timestamp ctx) < 5 then 15 else 0)"
  by (simp add: calculate_time_risk_def option_score_def Let_def)

lemma age_points:
  "unat (calculate_session_age_risk age) = (if age > 120 then 30 else if age > 60 then 15 else 0)"
  by (simp add: calculate_session_age_risk_def)

section \<open>At the gate\<close>

definition address_points :: "ip_addr option \<Rightarrow> ip_addr \<Rightarrow> nat" where
  "address_points prev ip = (case prev of Some p \<Rightarrow> if p \<noteq> ip then 20 else 0 | None \<Rightarrow> 0)"

definition hour_points :: "int \<Rightarrow> nat" where
  "hour_points h = (if 2 \<le> h \<and> h < 5 then 15 else 0)"

definition age_points_of :: "int \<Rightarrow> nat" where
  "age_points_of age = (if age > 120 then 30 else if age > 60 then 15 else 0)"

lemma ip_points:
  "option_score (calculate_ip_change_risk ctx) = address_points (rc_previous_ip ctx) (rc_ip_address ctx)"
  by (simp add: calculate_ip_change_risk_def option_score_def address_points_def split: option.split)

lemma request_risk_run:
  assumes "request_device S s ip c w = (d, w1)" "utc_now (platform_of S) w1 = (t1, w2)"
    "utc_now (platform_of S) w2 = (t2, w3)" "utc_now (platform_of S) w3 = (now, w4)"
  shows "\<exists>r. evaluate_request_risk S s ip c w = (Ok r, w4)
    \<and> unat (total_score r) = min 100 (device_points d (num_days (now - first_seen d))
        + hour_points (hour_of t2)
        + address_points (parse_ip (platform_of S) (sess_ip_address s)) ip
        + age_points_of (num_minutes (t1 - created_at s)))
    \<and> recommendation r = recommend (risk_engine S) (total_score r)"
proof -
  let ?ctx = "\<lparr>rc_user_id = sub c, rc_device = d, rc_ip_address = ip, rc_timestamp = t2,
     rc_geolocation = None, rc_previous_ip = parse_ip (platform_of S) (sess_ip_address s),
     rc_session_age_minutes = num_minutes (t1 - created_at s), rc_failed_attempts = 0,
     rc_time_since_last_success_hours = None\<rparr>"
  from calculate_risk_score [OF assms(4), of "risk_engine S" ?ctx] obtain r where
    r: "calculate_risk (platform_of S) (risk_engine S) ?ctx w3 = (Ok r, w4)"
    "unat (total_score r) = min 100 (raw_risk ?ctx (device_points d (num_days (now - first_seen d))))"
    "recommendation r = recommend (risk_engine S) (total_score r)"
    by auto
  with assms show ?thesis
    by (intro exI [of _ r]) (simp add: evaluate_request_risk_def bind_io_def read_io_def
        unwrap_or_io_def raw_risk_def time_points ip_points age_points hour_points_def age_points_of_def)
qed

lemma request_device_fields:
  assumes "request_device S s ip c w = (d, w1)"
  obtains i w0 w0' last where "uuid_v4 (platform_of S) w = (i, w0)"
    "utc_now (platform_of S) w0 = (first_seen d, w0')" "utc_now (platform_of S) w0' = (last, w1)"
    "trust_score d = (if clm_device_id c = sess_device_id s then 70 else 40)"
    "is_trusted d \<longleftrightarrow> clm_device_id c = sess_device_id s"
  using assms by (auto simp: request_device_def new_device_def Let_def split: prod.splits if_splits)

text \<open>C18: The risk the gate assigns to a request is exactly this sum, capped at 100: 20 points if the
  token names the device of the session and 60 if it names another (20 of them because the device is
  built afresh for the request, so it always counts as first seen today), 15 between 2 and 5 o'clock
  UTC, 20 if the address differs from the one the session was opened from, and 15 or 30 for a session
  older than one or two hours; the recommendation compares this total with the thresholds.\<close>

theorem request_risk_exact:
  assumes "\<And>w t w'. utc_now (platform_of S) w = (t, w') \<Longrightarrow> tm w \<le> t \<and> t \<le> tm w'"
    and "\<And>w i w'. uuid_v4 (platform_of S) w = (i, w') \<Longrightarrow> tm w \<le> tm w'"
    and "evaluate_request_risk S s ip c w = (r', w')"
    and "tm w' < tm w + 86400 * nanos_per_second"
  shows "\<exists>r t1 t2. r' = Ok r \<and> tm w \<le> t1 \<and> t1 \<le> t2 \<and> t2 \<le> tm w'
    \<and> unat (total_score r) = min 100
        ((if clm_device_id c = sess_device_id s then 20 else 60)
         + hour_points (hour_of t2)
         + address_points (parse_ip (platform_of S) (sess_ip_address s)) ip
         + age_points_of (num_minutes (t1 - created_at s)))
    \<and> recommendation r = recommend (risk_engine S) (total_score r)"
proof -
  obtain d w1 where d: "request_device S s ip c w = (d, w1)" by (cases "request_device S s ip c w")
  obtain t1 w2 where t1: "utc_now (platform_of S) w1 = (t1, w2)" by (cases "utc_now (platform_of S) w1")
  obtain t2 w3 where t2: "utc_now (platform_of S) w2 = (t2, w3)" by (cases "utc_now (platform_of S) w2")
  obtain now w4 where now: "utc_now (platform_of S) w3 = (now, w4)" by (cases "utc_now (platform_of S) w3")
  from request_risk_run [OF d t1 t2 now] obtain r where
    r: "evaluate_request_risk S s ip c w = (Ok r, w4)"
    "unat (total_score r) = min 100 (device_points d (num_days (now - first_seen d))
        + hour_points (hour_of t2)
        + address_points (parse_ip (platform_of S) (sess_ip_address s)) ip
        + age_points_of (num_minutes (t1 - created_at s)))"
    "recommendation r = recommend (risk_engine S) (total_score r)"
    by blast
  have w4: "w4 = w'" "r' = Ok r" using r(1) assms(3) by simp_all
  from d obtain i w0 w0' last where f: "uuid_v4 (platform_of S) w = (i, w0)"
    "utc_now (platform_of S) w0 = (first_seen d, w0')" "utc_now (platform_of S) w0' = (last, w1)"
    "trust_score d = (if clm_device_id c = sess_device_id s then 70 else 40)"
    "is_trusted d \<longleftrightarrow> clm_device_id c = sess_device_id s"
    by (rule request_device_fields)
  note clocks = assms(2) [OF f(1)] assms(1) [OF f(2)] assms(1) [OF f(3)] assms(1) [OF t1]
    assms(1) [OF t2] assms(1) [OF now]
  have bounds: "tm w \<le> first_seen d" "now \<le> tm w'" "tm w \<le> t1" "t1 \<le> t2" "t2 \<le> tm w'"
    using clocks w4(1) by auto
  have "now - first_seen d < 86400 * nanos_per_second"
    using bounds(1,2) assms(4) by linarith
  then have "device_points d (num_days (now - first_seen d))
      = (if clm_device_id c = sess_device_id s then 20 else 60)"
    using num_days_lt_1 f(4,5) by (simp add: device_points_def)
  with r w4 bounds(3-5) show ?thesis by auto
qed

lemma alice_risk_at:
  assumes "clock w = clock start_world"
  shows "\<exists>r. evaluate_request_risk default_server alice_mfa_session ''10.0.0.1'' alice_claims w
     = (Ok r, w\<lparr>uuids := Suc (uuids w)\<rparr>) \<and> unat (total_score r) = 20 \<and> recommendation r = Allow_request"
proof -
  have P: "platform_of default_server = ref_platform"
    by (simp add: server_run)
  obtain d where d: "request_device default_server alice_mfa_session ''10.0.0.1'' alice_claims w
      = (d, w\<lparr>uuids := Suc (uuids w)\<rparr>)" "first_seen d = clock w" "trust_score d = 70" "is_trusted d"
    by (cases "parse_user_agent ''curl''")
      (auto simp: request_device_def new_device_def P ref_platform_def alice_claims_def
        alice_mfa_session_def alice_session_def Let_def)
  have now: "utc_now (platform_of default_server) w = (clock w, w)" for w
    by (simp add: P ref_platform_def)
  from request_risk_run [OF d(1) now now now] obtain r where
    r: "evaluate_request_risk default_server alice_mfa_session ''10.0.0.1'' alice_claims w
      = (Ok r, w\<lparr>uuids := Suc (uuids w)\<rparr>)"
    "unat (total_score r) = 20" "recommendation r = recommend (risk_engine default_server) (total_score r)"
    using d assms by (auto simp: device_points_def hour_points_def address_points_def age_points_of_def
        hour_of_def num_days_def num_minutes_def rust_div_def nanos_per_second_def P ref_platform_def
        start_world_def alice_mfa_session_def alice_session_def)
  have "risk_engine default_server = new_risk_engine 60 85" by (simp add: server_run)
  with r have "recommendation r = Allow_request"
    by (simp add: recommend_def new_risk_engine_def word_le_nat_alt)
  with r show ?thesis by blast
qed

lemma alice_risk:
  "\<exists>r. evaluate_request_risk default_server alice_mfa_session ''10.0.0.1'' alice_claims gate_world
     = (Ok r, gate_world\<lparr>uuids := 2\<rparr>) \<and> unat (total_score r) = 20 \<and> recommendation r = Allow_request"
  using alice_risk_at [of gate_world] by (simp add: gate_world_def alice_world_def numeral_2_eq_2)

theorem request_risk_exact_witness:
  "\<exists>(r :: risk_score) t1 t2. clock gate_world \<le> t1 \<and> t1 \<le> t2 \<and> t2 \<le> clock gate_world
    \<and> unat (total_score r) = min 100
        ((if clm_device_id alice_claims = sess_device_id alice_mfa_session then 20 else 60)
         + hour_points (hour_of t2)
         + address_points (parse_ip (platform_of default_server) (sess_ip_address alice_mfa_session)) ''10.0.0.1''
         + age_points_of (num_minutes (t1 - created_at alice_mfa_session)))
    \<and> unat (total_score r) = 20"
proof -
  obtain r where r: "evaluate_request_risk default_server alice_mfa_session ''10.0.0.1'' alice_claims gate_world
     = (Ok r, gate_world\<lparr>uuids := 2\<rparr>)" "unat (total_score r) = 20"
    using alice_risk by blast
  have P: "platform_of default_server = ref_platform" by (simp add: server_run)
  from request_risk_exact [where tm = clock, OF _ _ r(1)] obtain r' t1 t2 where
    "Ok r = (Ok r' :: risk_score proxy_result)" "clock gate_world \<le> t1" "t1 \<le> t2" "t2 \<le> clock gate_world"
    "unat (total_score r') = min 100
        ((if clm_device_id alice_claims = sess_device_id alice_mfa_session then 20 else 60)
         + hour_points (hour_of t2)
         + address_points (parse_ip (platform_of default_server) (sess_ip_address alice_mfa_session)) ''10.0.0.1''
         + age_points_of (num_minutes (t1 - created_at alice_mfa_session)))"
    by (auto simp: P ref_platform_def)
  moreover from this have "unat (total_score r') = 20" using r(2) by simp
  ultimately show ?thesis by blast
qed

section \<open>At login\<close>

text \<open>A login scores at most 75 points, whatever the stored trust of the device: 60 for the device
  and 15 for the hour, since neither an earlier address, nor failed attempts, nor a session's age
  counts. With a block threshold above 75, as in the defaults (85), no login is ever blocked for
  its risk.\<close>

theorem login_risk_bound:
  "\<exists>r w'. login_risk S ip user d w = (Ok r, w') \<and> unat (total_score r) \<le> 75
    \<and> (recommendation r = Block \<longleftrightarrow> block_threshold (risk_engine S) \<le> total_score r)"
proof -
  obtain t w1 where t: "utc_now (platform_of S) w = (t, w1)" by (cases "utc_now (platform_of S) w")
  obtain now w2 where now: "utc_now (platform_of S) w1 = (now, w2)" by (cases "utc_now (platform_of S) w1")
  let ?ctx = "\<lparr>rc_user_id = u_id user, rc_device = d, rc_ip_address = ip, rc_timestamp = t,
     rc_geolocation = None, rc_previous_ip = None, rc_session_age_minutes = 0,
     rc_failed_attempts = 0, rc_time_since_last_success_hours = None\<rparr>"
  have "raw_risk ?ctx (device_points d n) \<le> 75" for n
    using device_points_bound [of d n]
    by (simp add: raw_risk_def time_points ip_points age_points address_points_def)
  note bound = this [of "num_days (now - first_seen d)"]
  from calculate_risk_score [OF now, of "risk_engine S" ?ctx] obtain r where
    "calculate_risk (platform_of S) (risk_engine S) ?ctx w1 = (Ok r, w2)"
    "unat (total_score r) = min 100 (raw_risk ?ctx (device_points d (num_days (now - first_seen d))))"
    "recommendation r = recommend (risk_engine S) (total_score r)"
    by auto
  moreover from this bound have "unat (total_score r) \<le> 75" by simp
  ultimately have r: "calculate_risk (platform_of S) (risk_engine S) ?ctx w1 = (Ok r, w2)"
    "unat (total_score r) \<le> 75" "recommendation r = recommend (risk_engine S) (total_score r)"
    by blast+
  from r t show ?thesis
    by (intro exI [of _ r] exI [of _ w2])
      (simp add: login_risk_def bind_io_def read_io_def unwrap_or_io_def recommend_def)
qed

end
