(* ===== verification/Gate_Claims.thy ===== *)
theory Gate_Claims
  imports Frame Request_Risk
begin

text \<open>
  What the gate and the routing guarantee: the upstream is reached only by authorized requests, a
  forwarded request is the request received, every request is answered, and what the built-in
  policy decides.
\<close>

section \<open>The built-in policy\<close>

lemma default_policy_decides:
  "decides (build_default_policy_engine dd) ctx \<longleftrightarrow>
     pc_action ctx \<in> {''get'', ''post'', ''put'', ''patch'', ''delete'', ''head'', ''options''} \<or> \<not> dd"
proof -
  have "engine_rules (build_default_policy_engine dd) = set (rules default_policy)"
    by (simp add: build_default_policy_engine_def engine_rules_def add_policy_def new_policy_engine_def)
  then show ?thesis
    by (auto simp: decides_def rule_applies_def default_policy_def matches_resource_def Let_def
        build_default_policy_engine_def add_policy_def new_policy_engine_def)
qed

text \<open>The built-in policy engine allows every path to the seven methods GET, POST, PUT, PATCH,
  DELETE, HEAD and OPTIONS; any other method (TRACE, CONNECT, WebDAV methods) is allowed only if
  the configuration switches the default from deny to allow.\<close>

theorem default_policy_decision:
  "\<exists>d. evaluate (policy_engine (new_proxy_server sv c)) (request_context cl path mth) = Ok d
    \<and> (allowed d \<longleftrightarrow>
        (if cfg_default_deny (policy_cfg c)
         then ascii_lower mth \<in> {''get'', ''post'', ''put'', ''patch'', ''delete'', ''head'', ''options''}
         else True))"
  using evaluate_decides [of "policy_engine (new_proxy_server sv c)" "request_context cl path mth"]
  by (cases "cfg_default_deny (policy_cfg c)")
    (simp_all add: new_proxy_server_def default_policy_decides request_context_def)

section \<open>The upstream\<close>

interpretation ref_frame: service_frame "ref_server c" "\<lambda>w w'. upstream_log w' = upstream_log w" for c
proof -
  have user: "upstream_log (snd (ref_select_user q vs w)) = upstream_log w" for q vs w
    by (auto simp: ref_select_user_def Let_def split: list.splits sql_value.splits)
  have exec: "upstream_log (snd (ref_execute q vs w)) = upstream_log w" for q vs w
    by (auto simp: ref_execute_def Let_def split: list.splits sql_value.splits)
  show "service_frame (ref_server c) (\<lambda>w w'. upstream_log w' = upstream_log w)"
    by unfold_locales
      (auto simp: reflp_def transp_def moves_def ref_server_def new_proxy_server_def
        ref_services_def ref_platform_def ref_redis_def ref_expire_def ref_jwt_def ref_argon2_def
        ref_totp_def ref_postgres_def ref_insert_user_def Let_def user exec
        split: option.splits list.splits sql_value.splits)
qed

text \<open>C2: No request reaches the upstream except through the gate. Let \<open>R\<close> be any relation on worlds
  that all services keep except sending a request upstream (for instance: the upstream has received
  nothing new). If handling a request moves the world outside \<open>R\<close>, whatever its path and method, then
  the gate has authorized exactly this request, and the world is the one forwarding it left.\<close>

theorem upstream_only_through_gate:
  assumes "service_frame S R" "moves R (req_body req)"
    and "handle_request S req ip w = (r, w')" "\<not> R w w'"
  shows "\<exists>w1 rf. authorize S req (req_method req) (req_path req) ip w = (Ok (), w1) \<and> R w w1
    \<and> forward_upstream S req w1 = (rf, w')"
  using handler_frame.outside_was_authorized [OF service_frame.handlers_framed [OF assms(1)] assms(2-4)] by blast

lemma alice_forwarded:
  "forward_upstream default_server alice_request w =
     (Ok \<lparr>resp_status = 200, resp_headers = [], resp_body = ''upstream''\<rparr>,
      w\<lparr>upstream_log := upstream_log w @ [\<lparr>up_method = ''GET'',
        up_uri = ''http://localhost:8080/api/x?y=1'',
        up_headers = [(''authorization'', ''Bearer '' @ alice_token)], up_body = []\<rparr>]\<rparr>)"
  by (simp add: forward_upstream_def collect_body_def upstream_request_of_def alice_request_def
      trim_end_char_def unwrap_or_def ref_http_def server_run io_run Let_def)

lemma alice_admitted:
  assumes "clock w = clock start_world"
  shows "\<exists>w'. authorize_risk default_server alice_claims alice_mfa_session ''GET'' ''/api/x'' ''10.0.0.1'' w
     = (Ok (), w')"
  unfolding authorize_risk_Ok_iff using alice_risk_at [OF assms] by (force simp: admits_def alice_mfa_session_def)

lemma alice_decided:
  "decides (policy_engine default_server) (request_context alice_claims ''/api/x'' ''GET'')"
proof -
  have "ascii_lower ''GET'' = ''get''" by code_simp
  then show ?thesis
    by (simp add: default_server_def ref_server_def new_proxy_server_def default_policy_decides
        request_context_def)
qed

lemma alice_authorized_at:
  assumes "strings w = strings gate_world" "clock w = clock start_world"
  shows "\<exists>w'. authorize default_server alice_request ''GET'' ''/api/x'' ''10.0.0.1'' w = (Ok (), w')
     \<and> upstream_log w' = upstream_log w"
proof -
  have "sess_user_id alice_mfa_session = sub alice_claims" "clm_session_id alice_claims = ''uuid-''"
    by (simp_all add: alice_mfa_session_def alice_session_def alice_claims_def)
  then obtain w' where a: "authorize default_server alice_request ''GET'' ''/api/x'' ''10.0.0.1'' w = (Ok (), w')"
    using alice_bearer [OF assms(2) refl] alice_mfa_got [OF assms] alice_admitted [OF assms(2)] alice_decided
      authorize_Ok_iff [of default_server alice_request "''GET''" "''/api/x''" "''10.0.0.1''" w]
    by metis
  have "upstream_log w' = upstream_log w"
    using ref_frame.inside_authorize [THEN withinD, OF a [unfolded default_server_def]] .
  with a show ?thesis by simp
qed

lemma gate_clock: "clock gate_world = clock start_world" "upstream_log gate_world = []"
  by (simp_all add: gate_world_def alice_world_def start_world_def)

lemmas alice_authorized = alice_authorized_at [OF refl gate_clock(1), unfolded gate_clock(2)]

lemma alice_handled_at:
  assumes "strings w = strings gate_world" "clock w = clock start_world"
  shows "\<exists>w'. handle_request default_server alice_request ''10.0.0.1'' w =
     (Ok \<lparr>resp_status = 200, resp_headers = [], resp_body = ''upstream''\<rparr>, w')
     \<and> length (upstream_log w') = Suc (length (upstream_log w))"
proof -
  obtain w1 where a: "authorize default_server alice_request ''GET'' ''/api/x'' ''10.0.0.1'' w = (Ok (), w1)"
      "upstream_log w1 = upstream_log w"
    using alice_authorized_at [OF assms] by blast
  have path: "req_path alice_request = ''/api/x''" "req_method alice_request = ''GET''"
    by (simp_all add: alice_request_def)
  show ?thesis
    by (simp add: handle_request_def route_def path Let_def bind_io_def a alice_forwarded)
qed

theorem upstream_only_through_gate_witness:
  "\<exists>w1 rf w'. authorize default_server alice_request (req_method alice_request) (req_path alice_request)
      ''10.0.0.1'' gate_world = (Ok (), w1) \<and> upstream_log w1 = upstream_log gate_world
    \<and> forward_upstream default_server alice_request w1 = (rf, w')"
proof -
  obtain w' where h: "handle_request default_server alice_request ''10.0.0.1'' gate_world =
     (Ok \<lparr>resp_status = 200, resp_headers = [], resp_body = ''upstream''\<rparr>, w')"
    and new: "length (upstream_log w') = Suc (length (upstream_log gate_world))"
    using alice_handled_at [OF refl gate_clock(1)] by blast
  have frame: "service_frame default_server (\<lambda>w w'. upstream_log w' = upstream_log w)"
    using ref_frame.service_frame_axioms [of "default_config no_env"] by (simp add: default_server_def)
  have body: "moves (\<lambda>w w'. upstream_log w' = upstream_log w) (req_body alice_request)"
    by (simp add: moves_def alice_request_def)
  have "upstream_log w' \<noteq> upstream_log gate_world"
    using new by auto
  from upstream_only_through_gate [OF frame body h this] show ?thesis by blast
qed


section \<open>Every request is answered\<close>

lemma panic_free_sessions [io_safe]:
  "panic_free (update_session M s)" "panic_free (delete_session M i)" "panic_free (get_session M i)"
proof -
  show u: "panic_free (update_session M s)" for s
    by (auto simp: update_session_def serialize_session_def Let_def intro!: io_safe)
  show d: "panic_free (delete_session M i)"
    by (auto simp: delete_session_def intro!: io_safe)
  show "panic_free (get_session M i)"
    by (auto simp: get_session_def intro!: io_safe u d split: option.split)
qed

lemma panic_free_revoke [io_safe]: "panic_free (revoke_user_sessions M u)"
proof -
  have "panic_free (collect_sessions M u ks acc)" for ks acc
    by (induction ks arbitrary: acc) (auto intro!: io_safe split: option.split sum.split)
  moreover have "panic_free (delete_sessions M ss)" for ss
    by (induction ss) (auto intro!: io_safe)
  ultimately show ?thesis
    by (auto simp: revoke_user_sessions_def get_user_sessions_def scan_session_keys_def Let_def
        intro!: io_safe)
qed

lemma extract_not_Panic [simp]: "extract_token_from_header h \<noteq> Panic"
  by (simp add: extract_token_from_header_def)

lemma json_response_not_Panic [simp]: "json_response js st j \<noteq> Panic"
  by (auto simp: json_response_def bind_res_def of_sum_def split: outcome.splits sum.splits)

lemma evaluate_not_Panic [simp]: "evaluate eng ctx \<noteq> Panic"
  using evaluate_decides [of eng ctx] by auto

lemma panic_free_requests [io_safe]:
  "panic_free (bearer_claims S req)" "panic_free (collect_body b)"
  "panic_free (check_rate_limit S ip bu limit secs)" "panic_free (audit_authorization S c ip path mth ok sc)"
  "panic_free (find_user_by_username D n)" "panic_free (create_user D n e h)"
  "panic_free (hash_password A p)"
  by (auto simp: bearer_claims_def validate_token_def collect_body_def check_rate_limit_def
      audit_authorization_def find_user_by_username_def create_user_def hash_password_def Let_def
      intro!: io_safe)

lemma panic_free_authorize [io_safe]: "panic_free (authorize S req mth path ip)"
proof -
  have rec: "panic_free a \<Longrightarrow> panic_free b \<Longrightarrow> panic_free d \<Longrightarrow>
      panic_free (case x of Allow_request \<Rightarrow> a | StepUpAuth \<Rightarrow> b | Block \<Rightarrow> d)"
    for a b d :: "('a, unit) proxy_io" and x
    by (cases x) simp_all
  have risk: "panic_free (authorize_risk S c s mth path ip)" for c s
    unfolding authorize_risk_def by (intro io_safe rec)
  show ?thesis
    unfolding authorize_def by (intro io_safe risk) simp
qed

lemma panic_free_forward [io_safe]: "panic_free (forward_upstream S req)"
  unfolding forward_upstream_def Let_def by (intro io_safe) simp

lemma panic_free_json: "panic_free (lift_res (json_response js st j))"
  by (rule panic_free_lift) simp

lemma panic_free_parsed: "panic_free (lift_res (ok_or x e))"
  by (rule panic_free_lift) simp

lemmas handler_safe = panic_free_bind panic_free_if panic_free_basic panic_free_requests
  panic_free_sessions panic_free_revoke panic_free_json panic_free_parsed

lemma panic_free_handlers [io_safe]:
  "panic_free (handle_register S req ip)" "panic_free (handle_logout S req)"
  "panic_free (handle_logout_all S req)"
  unfolding handle_register_def handle_logout_def handle_logout_all_def
  by (intro handler_safe)+

text \<open>C30: Every request is answered with a response, never dropped by a panic, whatever the services
  answer or fail to answer, except possibly at the three endpoints that compute dates or decode TOTP
  secrets (login, MFA enrolment and MFA verification); and a request whose handler fails is answered
  with the error's response.\<close>

theorem handle_request_answers:
  assumes "req_method req \<noteq> ''POST''
    \<or> req_path req \<notin> {''/auth/login'', ''/auth/mfa/enroll'', ''/auth/mfa/verify''}"
  shows "\<exists>resp w'. handle_request S req ip w = (Ok resp, w')
    \<and> (\<forall>e. fst (route S req ip w) = Err e \<and> req_path req \<notin> {''/health'', ''/metrics''}
         \<longrightarrow> resp = error_response (sv_json (services S)) e)"
proof -
  have "panic_free (route S req ip)"
    unfolding route_def Let_def
    by (intro panic_free_if panic_free_handlers panic_free_bind panic_free_authorize
        panic_free_forward) (use assms in simp_all)
  then obtain r w' where r: "route S req ip w = (r, w')" "r \<noteq> Panic"
    using panic_freeD [of "route S req ip" w] by (cases "route S req ip w") auto
  then show ?thesis
    by (cases r) (auto simp: handle_request_def)
qed

theorem handle_request_answers_witness:
  "\<exists>resp w'. handle_request default_server (alice_request\<lparr>req_headers := []\<rparr>) ''10.0.0.1'' gate_world
      = (Ok resp, w') \<and> resp_status resp = 401"
proof -
  let ?req = "alice_request\<lparr>req_headers := []\<rparr>"
  have "fst (route default_server ?req ''10.0.0.1'' gate_world)
      = Err (AuthenticationFailed ''Invalid authorization header format'')"
    by (simp add: route_def alice_request_def authorize_def bearer_claims_def header_text_def
        unwrap_or_def extract_token_from_header_def starts_with_def bind_io_def throw_def lift_res_def)
  moreover have "req_path ?req = ''/api/x''" by (simp add: alice_request_def)
  ultimately show ?thesis
    using handle_request_answers [of ?req default_server "''10.0.0.1''" gate_world]
    by (fastforce simp: error_response_status)
qed

end
