(* ===== verification/Login_Claims.thy ===== *)
theory Login_Claims
  imports Frame Request_Risk
begin

text \<open>
  Login: what a successful one went through, how failed ones are answered, and what the others of
  the \<open>/auth\<close> handlers do to the database.
\<close>

section \<open>A successful login\<close>

text \<open>
  The credentials a login presented: in the world \<open>w\<close> the name is that of an active user, the
  password matches, and in the world \<open>v\<close> the TOTP code is valid, if the user has enrolled.
\<close>

definition authenticated ::
  "'w proxy_server \<Rightarrow> login_body \<Rightarrow> user_row \<Rightarrow> 'w \<Rightarrow> 'w \<Rightarrow> bool" where
  "authenticated S body user w v \<longleftrightarrow>
     (\<exists>w'. find_user_by_username (db_of S) (lb_username body) w = (Ok (Some user), w'))
     \<and> is_active user
     \<and> verify_password (sv_argon2 (services S)) (lb_password body) (password_hash user) = Ok True
     \<and> (if mfa_enabled user
        then \<exists>sec code v'. mfa_secret user = Some sec \<and> lb_mfa_token body = Some code
          \<and> verify_token (sv_totp (services S)) default_mfa_config sec code v = (Ok True, v')
        else True)"

lemma find_active_user_Ok:
  "find_active_user S n w = (Ok u, w') \<longleftrightarrow>
     find_user_by_username (db_of S) n w = (Ok (Some u), w') \<and> is_active u"
  by (auto simp: find_active_user_def io_Ok ok_or_Ok_iff split: option.splits if_splits)

lemma login_mfa_Ok:
  assumes "login_mfa S user body w = (Ok m, w')"
  shows "m = mfa_enabled user \<and> (if mfa_enabled user
    then \<exists>sec code. mfa_secret user = Some sec \<and> lb_mfa_token body = Some code
      \<and> verify_token (sv_totp (services S)) default_mfa_config sec code w = (Ok True, w')
    else w' = w)"
  using assms by (auto simp: login_mfa_def io_Ok io_cases ok_or_Ok_iff)

lemma handle_login_Ok:
  assumes "handle_login S req ip w = (Ok resp, w')"
  obtains bytes body user device existing d score m s token w1 w2 w3 w4 w5 w6 w7 w8 where
    "check_rate_limit S ip ''login'' 10 300 w = (Ok (), w1)"
    "collect_body (req_body req) w1 = (Ok bytes, w2)" "sv_login_body (services S) bytes = Some body"
    "find_active_user S (lb_username body) w2 = (Ok user, w3)"
    "login_device S ip (unwrap_or (header_text (sv_http (services S)) req ''user-agent'') ''unknown'')
      user w3 = (Ok (device, existing), w4)"
    "verify_password (sv_argon2 (services S)) (lb_password body) (password_hash user) = Ok True"
    "login_mfa S user body w4 = (Ok m, w5)" "record_device S ip user device existing w5 = (Ok d, w6)"
    "login_risk S ip user d w6 = (Ok score, w7)" "recommendation score \<noteq> Block"
    "open_session S ip (unwrap_or (header_text (sv_http (services S)) req ''user-agent'') ''unknown'')
      user body m score w7 = (Ok (s, token), w')"
    "json_response (sv_json (services S)) 200 (login_response_json
      \<lparr>access_token = token, token_type = ''Bearer'',
       expires_in = wrap_i64 (jwt_expiration_hours (auth (config S)) * 3600),
       mfa_required = mfa_enabled user \<and> \<not> m\<rparr>) = Ok resp"
  using assms unfolding handle_login_def Let_def reject_password_def
  by (auto simp: io_Ok io_cases ok_or_Ok_iff split: prod.splits)

lemma create_session_fresh:
  assumes "create_session M u d ip ua w = (Ok s, w')"
  shows "s\<lparr>sess_mfa_verified := m, sess_risk_score := r\<rparr>\<lparr>sess_mfa_verified := False, sess_risk_score := 0\<rparr> = s"
proof -
  obtain w1 where "new_session (sm_platform M) u d ip ua (session_duration_minutes M) w = (Ok s, w1)"
    using assms by (auto simp: create_session_def io_Ok Let_def)
  then have "sess_mfa_verified s = False" "sess_risk_score s = 0"
    by (auto simp: new_session_def io_Ok io_cases)
  then show ?thesis by (intro session.equality) simp_all
qed

lemma open_session_Ok:
  assumes "open_session S ip ua user body m score w = (Ok (s, token), w')"
  obtains dev w1 w2 w3 w4 where
    "create_session (session_manager_of S) (u_id user) dev ip ua w1
      = (Ok (s\<lparr>sess_mfa_verified := False, sess_risk_score := 0\<rparr>), w2)"
    "sess_mfa_verified s = m" "sess_risk_score s = total_score score"
    "update_session (session_manager_of S) s w2 = (Ok (), w3)"
    "generate_token (platform_of S) (sv_jwt (services S)) (jwt_manager S) (u_id user) dev
      (total_score score) m (sess_id s) w4 = (Ok token, w')"
proof -
  obtain dev s0 w1 w2 w3 w4 where c: "create_session (session_manager_of S) (u_id user) dev ip ua w1 = (Ok s0, w2)"
    and s: "s = s0\<lparr>sess_mfa_verified := m, sess_risk_score := total_score score\<rparr>"
    and u: "update_session (session_manager_of S) s w2 = (Ok (), w3)"
      "generate_token (platform_of S) (sv_jwt (services S)) (jwt_manager S) (u_id user) dev
        (sess_risk_score s) m (sess_id s) w4 = (Ok token, w')"
    using assms by (auto simp: open_session_def io_Ok Let_def)
  have "s\<lparr>sess_mfa_verified := False, sess_risk_score := 0\<rparr> = s0"
    unfolding s by (rule create_session_fresh [OF c])
  with c u show thesis by (intro that) (simp_all add: s)
qed


definition alice_row :: user_row where
  "alice_row = \<lparr>u_id = ''uuid-alice'', username = ''alice'', email = ''alice@example.org'',
     password_hash = ''$argon2id$correct horse'', mfa_enabled = False, mfa_secret = None,
     is_active = True\<rparr>"

definition login_world :: world where
  "login_world = start_world\<lparr>user_rows := [alice_row]\<rparr>"

definition login_request :: "string \<Rightarrow> world request" where
  "login_request password =
     \<lparr>req_method = ''POST'', req_path = ''/auth/login'', req_path_and_query = Some ''/auth/login'',
      req_headers = [(''user-agent'', ''curl'')],
      req_body = (\<lambda>w. (Inr (put_strings [''alice'', password, ''laptop'', []]), w))\<rparr>"

lemma login_body_parsed:
  "sv_login_body (services default_server) (put_strings [u, p, d, m])
     = Some \<lparr>lb_username = u, lb_password = p, lb_device_id = (if d = [] then None else Some d),
         lb_mfa_token = (if m = [] then None else Some m)\<rparr>"
proof -
  have "take_strings 4 (put_strings [u, p, d, m]) = Some [u, p, d, m]"
    using take_put_strings [of "[u, p, d, m]"] by (simp add: numeral_eq_Suc del: take_strings.simps)
  then show ?thesis by (simp add: server_run)
qed

lemma default_services:
  "platform_of default_server = ref_platform" "db_of default_server = ref_postgres"
  "sv_http (services default_server) = ref_http" "sv_redis (services default_server) = ref_redis"
  "sv_argon2 (services default_server) = ref_argon2" "sv_jwt (services default_server) = ref_jwt"
  "sv_totp (services default_server) = ref_totp"
  "sv_json (services default_server) = (\<lambda>j. Inr (json_text j))"
  "session_manager_of default_server = ref_manager 15"
  "jwt_manager default_server = \<lparr>secret = ''change-me-in-production'', expiration_hours = 24\<rparr>"
  "risk_engine default_server = new_risk_engine 60 85"
  by (simp_all add: server_run ref_manager_def)

lemma ref_reads:
  "utc_now ref_platform w = (clock w, w)"
  "uuid_v4 ref_platform w = (''uuid-'' @ bits (uuids w), w\<lparr>uuids := Suc (uuids w)\<rparr>)"
  by (simp_all add: ref_platform_def)

text \<open>The reference clock stands still.\<close>

lemma ref_clock: "service_frame (ref_server c) (\<lambda>w w'. clock w' = clock w)"
proof -
  have user: "clock (snd (ref_select_user q vs w)) = clock w" for q vs w
    by (auto simp: ref_select_user_def Let_def split: list.splits sql_value.splits)
  have exec: "clock (snd (ref_execute q vs w)) = clock w" for q vs w
    by (auto simp: ref_execute_def Let_def split: list.splits sql_value.splits)
  show ?thesis
    by unfold_locales
      (auto simp: reflp_def transp_def moves_def ref_server_def new_proxy_server_def
        ref_services_def ref_platform_def ref_redis_def ref_expire_def ref_jwt_def ref_argon2_def
        ref_totp_def ref_postgres_def ref_insert_user_def Let_def user exec
        split: option.splits list.splits sql_value.splits)
qed

lemmas ref_clock_calls = service_frame.service_calls [OF ref_clock]

lemma ref_risk_ok:
  "\<exists>r. calculate_risk ref_platform eng ctx w = (Ok r, w)"
  using calculate_risk_score [of ref_platform w "clock w" w eng ctx] by (auto simp: ref_reads)

lemma login_risk_ok:
  "\<exists>r. login_risk default_server ip u d w = (Ok r, w) \<and> recommendation r \<noteq> Block"
proof -
  let ?ctx = "\<lparr>rc_user_id = u_id u, rc_device = d, rc_ip_address = ip, rc_timestamp = clock w,
     rc_geolocation = None, rc_previous_ip = None, rc_session_age_minutes = 0,
     rc_failed_attempts = 0, rc_time_since_last_success_hours = None\<rparr>"
  obtain r where "calculate_risk ref_platform (new_risk_engine 60 85) ?ctx w = (Ok r, w)"
    using ref_risk_ok by blast
  then have "login_risk default_server ip u d w = (Ok r, w)"
    by (simp add: login_risk_def default_services io_run ref_reads)
  with login_risk_bound [of default_server ip u d w] show ?thesis
    by (auto simp: default_services new_risk_engine_def word_le_nat_alt)
qed

lemma login_device_ok:
  "\<exists>d ex w'. login_device default_server ip ua user w = (Ok (d, ex), w')"
proof -
  obtain d w1 where "new_device ref_platform (u_id user) ua ip no_metadata w = (d, w1)"
    by (cases "new_device ref_platform (u_id user) ua ip no_metadata w")
  then show ?thesis
    by (simp add: login_device_def default_services io_run find_device_by_fingerprint_def
        ref_postgres_def split: option.split)
qed

lemma record_device_ok: "\<exists>d' w'. record_device default_server ip user d ex w = (Ok d', w')"
  by (simp add: record_device_def default_services io_run store_device_def upsert_device_def
      update_last_seen_def ref_reads ref_postgres_def ref_execute_def sql_texts Let_def)

lemma ref_token_ok:
  assumes "clock w = clock start_world"
  shows "\<exists>t w'. generate_token ref_platform ref_jwt
    \<lparr>secret = ''change-me-in-production'', expiration_hours = 24\<rparr> u dev sc m sid w = (Ok t, w')"
  using assms
  by (simp add: generate_token_def plus_hours_def plus_seconds_def datetime_min_def datetime_max_def
      ref_reads ref_jwt_def io_run start_world_def nanos_per_second_def Let_def)

lemma open_session_ok:
  assumes "clock w = clock start_world"
  shows "\<exists>s t w'. open_session default_server ip ua user body m score w = (Ok (s, t), w')"
proof -
  obtain dev w1 where dev: "fresh_device_id default_server body w = (dev, w1)"
    by (cases "fresh_device_id default_server body w")
  have c1: "clock w1 = clock start_world"
    using dev assms by (auto simp: fresh_device_id_def default_services ref_reads split: option.splits)
  have "\<exists>s w2. create_session (ref_manager 15) (u_id user) dev ip ua w1 = (Ok s, w2) \<and> clock w2 = clock w1"
    using c1 by (simp add: create_session_def new_session_def plus_minutes_def plus_seconds_def
      datetime_min_def datetime_max_def serialize_session_def ref_run)
  then obtain s w2 where c: "create_session (ref_manager 15) (u_id user) dev ip ua w1 = (Ok s, w2)"
    "clock w2 = clock start_world" using c1 by auto
  have "\<exists>w3. update_session (ref_manager 15) s' w2 = (Ok (), w3) \<and> clock w3 = clock w2" for s'
    by (simp add: update_session_def serialize_session_def ref_run)
  then obtain w3 where u: "update_session (ref_manager 15)
      (s\<lparr>sess_mfa_verified := m, sess_risk_score := total_score score\<rparr>) w2 = (Ok (), w3)"
    "clock w3 = clock w2" by blast
  obtain w4 where a: "audit_login default_server user dev ip True w3 = (Ok (), w4)"
    unfolding audit_login_def by (rule exE [OF discard_total [OF panic_free_logs(1)]])
  have "clock w4 = clock w3"
    using call_base.inside_audits(2) [OF call_frame.axioms(1), OF ref_clock_calls, THEN withinD, OF a [unfolded default_server_def]] .
  then have w4: "clock w4 = clock start_world" using u c by simp
  obtain t w5 where "generate_token ref_platform ref_jwt
      \<lparr>secret = ''change-me-in-production'', expiration_hours = 24\<rparr>
      (u_id user) dev (total_score score) m (sess_id s) w4 = (Ok t, w5)"
    using ref_token_ok [OF w4] by blast
  with dev c u a have "open_session default_server ip ua user body m score w
      = (Ok (s\<lparr>sess_mfa_verified := m, sess_risk_score := total_score score\<rparr>, t), w5)"
    by (simp add: open_session_def default_services io_run Let_def)
  then show ?thesis by blast
qed

text \<open>The witness: Alice logs in with her password.\<close>

lemma alice_rate_ok:
  "\<exists>w'. check_rate_limit default_server ''10.0.0.1'' ''login'' 10 300 login_world = (Ok (), w')
     \<and> user_rows w' = [alice_row] \<and> clock w' = clock start_world"
  by (simp add: check_rate_limit_def default_services login_world_def ref_run ref_counters_def
      incremented_def counter_at_def ref_expire_def)

lemma alice_found:
  assumes "user_rows w = [alice_row]"
  shows "find_active_user default_server ''alice'' w = (Ok alice_row, w)"
  using assms
  by (simp add: find_active_user_def default_services find_user_by_username_def io_run ref_postgres_def
      ref_select_user_def sql_texts alice_row_def ok_or_def)

lemma ref_keeps_clock:
  "login_device default_server ip ua user w = (x, w1) \<Longrightarrow> clock w1 = clock w"
  "record_device default_server ip user d ex w = (y, w1) \<Longrightarrow> clock w1 = clock w"
  using call_base.inside_login_device [OF call_frame.axioms(1), OF ref_clock_calls [of "default_config no_env"], THEN withinD]
    call_frame.inside_record_device [OF ref_clock_calls [of "default_config no_env"], THEN withinD]
  unfolding default_server_def by blast+

lemma alice_logs_in:
  "\<exists>resp w'. handle_login default_server (login_request ''correct horse'') ''10.0.0.1'' login_world
     = (Ok resp, w')"
proof -
  let ?req = "login_request ''correct horse''" and ?ip = "''10.0.0.1''" and ?u = alice_row
  obtain w1 where rate: "check_rate_limit default_server ?ip ''login'' 10 300 login_world = (Ok (), w1)"
    "user_rows w1 = [alice_row]" "clock w1 = clock start_world" using alice_rate_ok by blast
  let ?body = "\<lparr>lb_username = ''alice'', lb_password = ''correct horse'', lb_device_id = Some ''laptop'',
    lb_mfa_token = None\<rparr>"
  have body: "collect_body (req_body ?req) w1 = (Ok (put_strings [''alice'', ''correct horse'', ''laptop'', []]), w1)"
    by (simp add: collect_body_def login_request_def io_run)
  obtain d ex w2 where dev: "login_device default_server ?ip ''curl'' ?u w1 = (Ok (d, ex), w2)"
    using login_device_ok by blast
  obtain d' w3 where rec: "record_device default_server ?ip ?u d ex w2 = (Ok d', w3)"
    using record_device_ok by blast
  obtain r where risk: "login_risk default_server ?ip ?u d' w3 = (Ok r, w3)" "recommendation r \<noteq> Block"
    using login_risk_ok by blast
  have "clock w3 = clock start_world"
    using rate ref_keeps_clock(1) [OF dev] ref_keeps_clock(2) [OF rec] by simp
  then obtain s t w4 where op: "open_session default_server ?ip ''curl'' ?u ?body False r w3 = (Ok (s, t), w4)"
    using open_session_ok by blast
  have checks: "login_mfa default_server ?u ?body = ret False"
    "verify_password (sv_argon2 (services default_server)) ''correct horse'' (password_hash ?u) = Ok True"
    by (simp_all add: login_mfa_def alice_row_def verify_password_def default_services ref_argon2_def strip_prefix_def)
  have ua: "header_text (sv_http (services default_server)) ?req ''user-agent'' = Some ''curl''"
    by (simp add: header_text_def login_request_def default_services ref_http_def)
  have json: "\<exists>resp. json_response (sv_json (services default_server)) 200 j = Ok resp" for j
    by (simp add: json_response_def default_services)
  have "\<exists>resp. handle_login default_server ?req ?ip login_world = (Ok resp, w4)"
    using rate body dev rec risk op alice_found [OF rate(2)]
    by (simp add: handle_login_def ua checks login_body_parsed io_run unwrap_or_def json Let_def)
  then show ?thesis by blast
qed


end
