(* ===== verification/Device_Rows.thy ===== *)
theory Device_Rows
  imports Login_Claims
begin

text \<open>
  The rows of the \<open>devices\<close> table: what its two statements do (\<open>docs/schema.sql\<close>: \<open>fingerprint_hash\<close>
  is unique over all users), and what a rejected password leaves there.
\<close>

section \<open>The device table\<close>

type_synonym devices = "string \<rightharpoonup> uuid \<times> device_row"

definition device_of :: "devices \<Rightarrow> uuid \<Rightarrow> string \<Rightarrow> device_row option" where
  "device_of ds u fp =
     (case ds fp of Some (v, d) \<Rightarrow> if v = u then Some d else None | None \<Rightarrow> None)"

definition upserted_device :: "devices \<Rightarrow> uuid \<Rightarrow> string \<Rightarrow> device_row \<Rightarrow> devices" where
  "upserted_device ds u fp d = ds(fp \<mapsto> (case ds fp of Some (v, _) \<Rightarrow> (v, d) | None \<Rightarrow> (u, d)))"

locale device_sql =
  fixes D :: "('w, 'j) postgres" and devices :: "'w \<Rightarrow> devices"
  assumes select_device:
    "pg_fetch_optional_device D find_device_by_fingerprint_sql [SqlUuid u, SqlText fp] w = (Inr x, w') \<Longrightarrow>
      x = device_of (devices w) u fp"
    and select_device_keeps: "pg_fetch_optional_device D q vs w = (rx, w') \<Longrightarrow> devices w' = devices w"
    and upsert:
    "pg_execute D upsert_device_sql [SqlUuid u, SqlText fp, SqlText ua, SqlText p, SqlText b,
      SqlText ip, SqlInt t, SqlBool tr] w = (Inr n, w') \<Longrightarrow>
      devices w' = upserted_device (devices w) u fp \<lparr>d_trust_score = t, d_is_trusted = tr\<rparr>"
    and execute_keeps: "q \<noteq> upsert_device_sql \<Longrightarrow> pg_execute D q vs w = (rn, w') \<Longrightarrow>
      devices w' = devices w"

locale device_table =
  fixes lookup :: "uuid \<Rightarrow> string \<Rightarrow> ('w, device_row option) proxy_io"
    and store :: "uuid \<Rightarrow> string \<Rightarrow> string \<Rightarrow> string \<Rightarrow> string \<Rightarrow> string \<Rightarrow> 32 word \<Rightarrow> bool
      \<Rightarrow> ('w, unit) proxy_io"
    and devices :: "'w \<Rightarrow> devices"
  assumes lookup_Ok: "lookup u fp w = (Ok x, w') \<Longrightarrow> x = device_of (devices w) u fp"
    and lookup_keeps: "lookup u fp w = (r, w') \<Longrightarrow> devices w' = devices w"
    and store_Ok: "store u fp ua p b ip t tr w = (Ok (), w') \<Longrightarrow>
      devices w' = upserted_device (devices w) u fp \<lparr>d_trust_score = t, d_is_trusted = tr\<rparr>"
begin

text \<open>A row whose fingerprint is new or already the user's own is found again with the trust stored.\<close>

lemma stored_own_found:
  assumes "store u fp ua p b ip t tr w = (Ok (), w1)" "lookup u fp w1 = (Ok x, w2)"
    and "\<And>v d. devices w fp = Some (v, d) \<Longrightarrow> v = u"
  shows "x = Some \<lparr>d_trust_score = t, d_is_trusted = tr\<rparr>"
  using lookup_Ok [OF assms(2)] store_Ok [OF assms(1)] assms(3)
  by (cases "devices w fp") (auto simp: device_of_def upserted_device_def)

text \<open>Over another user's row, the trust goes to that user, and one's own lookup finds nothing.\<close>

lemma stored_foreign:
  assumes "store u fp ua p b ip t tr w = (Ok (), w1)" "devices w fp = Some (v, d)" "v \<noteq> u"
  shows "(\<forall>x w2. lookup u fp w1 = (Ok x, w2) \<longrightarrow> x = None)
    \<and> (\<forall>x w2. lookup v fp w1 = (Ok x, w2) \<longrightarrow> x = Some \<lparr>d_trust_score = t, d_is_trusted = tr\<rparr>)"
proof -
  have "devices w1 fp = Some (v, \<lparr>d_trust_score = t, d_is_trusted = tr\<rparr>)"
    using store_Ok [OF assms(1)] assms(2) by (simp add: upserted_device_def)
  then have "device_of (devices w1) u fp = None"
    "device_of (devices w1) v fp = Some \<lparr>d_trust_score = t, d_is_trusted = tr\<rparr>"
    using assms(3) by (simp_all add: device_of_def)
  then show ?thesis using lookup_Ok by metis
qed

end

sublocale device_sql \<subseteq> dt: device_table "find_device_by_fingerprint D" "upsert_device D" devices
proof
  fix u fp w x w'
  assume "find_device_by_fingerprint D u fp w = (Ok x, w')"
  then show "x = device_of (devices w) u fp"
    by (intro select_device) (simp add: find_device_by_fingerprint_def call_io_Ok_iff)
next
  fix u fp w r w'
  assume "find_device_by_fingerprint D u fp w = (r, w')"
  then show "devices w' = devices w"
    by (auto simp: find_device_by_fingerprint_def dest!: call_io_result intro: select_device_keeps)
next
  fix u fp ua p b ip t tr w w'
  assume "upsert_device D u fp ua p b ip t tr w = (Ok (), w')"
  then show "devices w' = upserted_device (devices w) u fp \<lparr>d_trust_score = t, d_is_trusted = tr\<rparr>"
    by (auto simp: upsert_device_def io_Ok intro: upsert)
qed

lemma ref_execute_other:
  assumes "q \<noteq> upsert_device_sql" "ref_execute q vs w = (r, w')"
  shows "device_rows w' = device_rows w"
proof (cases "q = audit_insert_sql")
  case False
  with assms show ?thesis
    by (auto simp: ref_execute_def split: list.splits sql_value.splits if_splits)
qed (use assms in \<open>auto simp: ref_execute_def\<close>)

lemma ref_select_device:
  "pg_fetch_optional_device ref_postgres q vs w = (r, w') \<Longrightarrow> w' = w"
  by (auto simp: ref_postgres_def split: list.splits sql_value.splits)

interpretation ref_devices: device_sql ref_postgres "\<lambda>w. map_of (device_rows w)"
proof
  fix u fp w x w'
  assume "pg_fetch_optional_device ref_postgres find_device_by_fingerprint_sql [SqlUuid u, SqlText fp] w
    = (Inr x, w')"
  then show "x = device_of (map_of (device_rows w)) u fp"
    by (auto simp: ref_postgres_def device_of_def split: option.split prod.split)
next
  fix q vs w rx w'
  assume "pg_fetch_optional_device ref_postgres q vs w = (rx, w')"
  then show "map_of (device_rows w') = map_of (device_rows w)"
    by (metis ref_select_device)
next
  fix u fp ua p b ip t tr w n w'
  assume "pg_execute ref_postgres upsert_device_sql [SqlUuid u, SqlText fp, SqlText ua, SqlText p,
    SqlText b, SqlText ip, SqlInt t, SqlBool tr] w = (Inr n, w')"
  then show "map_of (device_rows w') = upserted_device (map_of (device_rows w)) u fp
      \<lparr>d_trust_score = t, d_is_trusted = tr\<rparr>"
    by (cases "map_of (device_rows w) fp")
      (auto simp: ref_postgres_def ref_execute_def upserted_device_def update_conv' sql_texts Let_def)
next
  fix q vs w rn w'
  assume "q \<noteq> upsert_device_sql" "pg_execute ref_postgres q vs w = (rn, w')"
  then show "map_of (device_rows w') = map_of (device_rows w)"
    using ref_execute_other by (simp add: ref_postgres_def)
qed

text \<open>The trust of a device row after a wrong password.\<close>

definition distrusted_row :: "device_row \<Rightarrow> device_row" where
  "distrusted_row row =
     (let t = saturating_sub_u32 (i32_max0 (d_trust_score row)) 15
      in \<lparr>d_trust_score = t, d_is_trusted = d_is_trusted row \<and> 70 \<le> t\<rparr>)"

section \<open>The devices of a server\<close>

locale device_services = device_sql "db_of S" devices
  for S :: "'w proxy_server" and devices +
  assumes now_keeps_devices: "moves (\<lambda>w w'. devices w' = devices w) (utc_now (platform_of S))"
    and uuid_keeps_devices: "moves (\<lambda>w w'. devices w' = devices w) (uuid_v4 (platform_of S))"
begin

abbreviation same_devices :: "'w \<Rightarrow> 'w \<Rightarrow> bool" where
  "same_devices w w' \<equiv> devices w' = devices w"

lemma same_devices_preorder: "reflp same_devices" "transp same_devices"
  by (auto simp: reflp_def transp_def)

lemma new_device_keeps:
  assumes "new_device (platform_of S) u ua ip m w = (d, w')"
  shows "devices w' = devices w \<and> fingerprint_hash d = generate_hash (sha256_hex (platform_of S)) ua ip m
    \<and> trust_score d = 50 \<and> \<not> is_trusted d"
proof -
  obtain i w1 where u: "uuid_v4 (platform_of S) w = (i, w1)" by (cases "uuid_v4 (platform_of S) w")
  obtain t w2 where t: "utc_now (platform_of S) w1 = (t, w2)" by (cases "utc_now (platform_of S) w1")
  obtain s w3 where s: "utc_now (platform_of S) w2 = (s, w3)" by (cases "utc_now (platform_of S) w2")
  have "devices w3 = devices w"
    using withinD [OF uuid_keeps_devices u] withinD [OF now_keeps_devices t]
      withinD [OF now_keeps_devices s] by simp
  with assms u t s show ?thesis
    by (cases "parse_user_agent ua") (auto simp: new_device_def Let_def)
qed

lemma new_event_keeps: "moves same_devices (new_event (platform_of S) ty u d ip res act out)"
proof (rule withinI)
  fix w e w'
  assume "new_event (platform_of S) ty u d ip res act out w = (e, w')"
  then obtain i w1 t where "uuid_v4 (platform_of S) w = (i, w1)" "utc_now (platform_of S) w1 = (t, w')"
    by (auto simp: new_event_def Let_def split: prod.splits)
  then show "same_devices w w'"
    using withinD [OF now_keeps_devices] withinD [OF uuid_keeps_devices] by metis
qed

lemma parse_or_fresh_keeps: "moves same_devices (parse_or_fresh (platform_of S) i)"
  by (rule withinI) (auto simp: parse_or_fresh_def split: option.splits
      dest!: withinD [OF uuid_keeps_devices])

lemma audit_login_keeps: "moves same_devices (audit_login S user d ip ok)"
proof -
  have ins: "moves same_devices (pg_execute (db_of S) audit_insert_sql vs)" for vs
    using execute_keeps sql_texts(3) by (intro withinI) metis
  have "moves same_devices (log_event (platform_of S) (db_of S) e)" for e
    unfolding log_event_def
    by (intro within_bind within_pure within_call within_read same_devices_preorder
        parse_or_fresh_keeps ins)
  then show ?thesis
    unfolding audit_login_def log_authentication_def
    by (intro within_bind within_read within_discard same_devices_preorder new_event_keeps)
qed

lemma login_device_Ok:
  assumes "login_device S ip ua user w = (Ok (d, ex), w')"
  shows "devices w' = devices w
    \<and> fingerprint_hash d = generate_hash (sha256_hex (platform_of S)) ua ip no_metadata
    \<and> ex = device_of (devices w) (u_id user) (fingerprint_hash d)
    \<and> (trust_score d, is_trusted d) =
        (case ex of Some row \<Rightarrow> (i32_max0 (d_trust_score row), d_is_trusted row) | None \<Rightarrow> (50, False))"
proof -
  obtain d0 w1 where new: "new_device (platform_of S) (u_id user) ua ip no_metadata w = (d0, w1)"
    by (cases "new_device (platform_of S) (u_id user) ua ip no_metadata w")
  with assms have look:
    "find_device_by_fingerprint (db_of S) (u_id user) (fingerprint_hash d0) w1 = (Ok ex, w')"
    and d: "d = (case ex of Some row \<Rightarrow> d0\<lparr>trust_score := i32_max0 (d_trust_score row),
      is_trusted := d_is_trusted row\<rparr> | None \<Rightarrow> d0)"
    by (cases ex, simp_all add: login_device_def read_io_def bind_io_def ret_def
        split: prod.splits outcome.splits option.splits, auto)
  note n = new_device_keeps [OF new] and l = dt.lookup_Ok [OF look] dt.lookup_keeps [OF look]
  have "fingerprint_hash d = fingerprint_hash d0" by (simp add: d split: option.split)
  with n l show ?thesis by (simp add: d split: option.split)
qed

lemma store_device_Ok:
  assumes "store_device S ip user d w = (Ok (), w')"
  shows "devices w' = upserted_device (devices w) (u_id user) (fingerprint_hash d)
    \<lparr>d_trust_score = trust_score d, d_is_trusted = is_trusted d\<rparr>"
  using dt.store_Ok assms unfolding store_device_def by blast

lemma reject_password_steps:
  assumes "reject_password S ip user body d w = (Err (AuthenticationFailed m), w')"
  obtains w1 where "store_device S ip user (decrease_trust 15 d) w = (Ok (), w1)"
    "devices w' = devices w1"
proof -
  obtain r w1 where st: "store_device S ip user (decrease_trust 15 d) w = (r, w1)"
    by (cases "store_device S ip user (decrease_trust 15 d) w")
  have "r = Ok ()"
    using assms st
    by (cases r) (auto simp: reject_password_def store_device_def upsert_device_def bind_io_def
        call_io_def ret_def of_sum_def split: prod.splits sum.splits outcome.splits)
  moreover obtain w2 where
    a: "audit_login S user (unwrap_or (lb_device_id body) ''unknown'') ip False w1 = (Ok (), w2)"
    unfolding audit_login_def by (rule exE [OF discard_total [OF panic_free_logs(1)]])
  ultimately have "w' = w2"
    using assms st by (simp add: reject_password_def bind_io_def throw_def)
  with a withinD [OF audit_login_keeps a] st \<open>r = Ok ()\<close> that show thesis by simp
qed

lemma rejected_rows:
  assumes "login_device S ip ua user w = (Ok (d, ex), w1)"
    and "reject_password S ip user body d w1 = (Err (AuthenticationFailed m), w2)"
  shows "devices w2 = (devices w)(generate_hash (sha256_hex (platform_of S)) ua ip no_metadata \<mapsto>
    (case devices w (generate_hash (sha256_hex (platform_of S)) ua ip no_metadata) of
       None \<Rightarrow> (u_id user, \<lparr>d_trust_score = 35, d_is_trusted = False\<rparr>)
     | Some (v, row) \<Rightarrow>
         (v, if v = u_id user then distrusted_row row
             else \<lparr>d_trust_score = 35, d_is_trusted = False\<rparr>)))"
proof -
  let ?fp = "generate_hash (sha256_hex (platform_of S)) ua ip no_metadata"
  note d = login_device_Ok [OF assms(1)]
  obtain w3 where st: "store_device S ip user (decrease_trust 15 d) w1 = (Ok (), w3)"
    and w2: "devices w2 = devices w3"
    using assms(2) by (rule reject_password_steps)
  have fp: "fingerprint_hash (decrease_trust 15 d) = ?fp"
    using d by (simp add: decrease_trust_def Let_def)
  have new: "\<lparr>d_trust_score = trust_score (decrease_trust 15 d),
      d_is_trusted = is_trusted (decrease_trust 15 d)\<rparr>
    = (case ex of Some row \<Rightarrow> distrusted_row row
       | None \<Rightarrow> \<lparr>d_trust_score = 35, d_is_trusted = False\<rparr>)"
    using d by (auto simp: decrease_trust_def distrusted_row_def saturating_sub_u32_def Let_def
        word_less_nat_alt word_le_nat_alt not_le split: option.splits)
  have "devices w2 = upserted_device (devices w) (u_id user) ?fp
      (case ex of Some row \<Rightarrow> distrusted_row row
       | None \<Rightarrow> \<lparr>d_trust_score = 35, d_is_trusted = False\<rparr>)"
    using store_device_Ok [OF st] d by (simp add: w2 fp new)
  moreover have "ex = device_of (devices w) (u_id user) ?fp" using d by simp
  ultimately show ?thesis
    by (cases "devices w ?fp") (auto simp: upserted_device_def device_of_def)
qed

end

section \<open>A wrong password\<close>

text \<open>C27: What a wrong password does to the \<open>devices\<close> table, when the statements succeed: of the one
  row with the fingerprint of the request (user agent and address, nothing of the user), the user's
  own loses 15 points of trust, never below 0, and the trusted flag below 70; a missing one is
  created with 35 points; and a row of another user, which the lookup by user and fingerprint does
  not see but the upsert by fingerprint overwrites, is reset to 35 points and untrusted, still as
  the other user's row. No other row changes.\<close>

theorem wrong_password_device_rows:
  assumes "device_services S devices"
    and "login_device S ip ua user w = (Ok (d, ex), w1)"
    and "reject_password S ip user body d w1 = (Err (AuthenticationFailed m), w2)"
  shows "devices w2 = (devices w)(generate_hash (sha256_hex (platform_of S)) ua ip no_metadata \<mapsto>
    (case devices w (generate_hash (sha256_hex (platform_of S)) ua ip no_metadata) of
       None \<Rightarrow> (u_id user, \<lparr>d_trust_score = 35, d_is_trusted = False\<rparr>)
     | Some (v, row) \<Rightarrow>
         (v, if v = u_id user then distrusted_row row
             else \<lparr>d_trust_score = 35, d_is_trusted = False\<rparr>)))"
  using device_services.rejected_rows [OF assms] .

interpretation ref_device_server: device_services "ref_server c" "\<lambda>w. map_of (device_rows w)" for c
proof -
  have "device_sql (db_of (ref_server c)) (\<lambda>w. map_of (device_rows w))"
    using ref_devices.device_sql_axioms
    by (simp add: ref_server_def new_proxy_server_def ref_services_def)
  moreover have "device_services_axioms (ref_server c) (\<lambda>w. map_of (device_rows w))"
    by unfold_locales
      (simp_all add: ref_server_def new_proxy_server_def ref_services_def ref_platform_def moves_def)
  ultimately show "device_services (ref_server c) (\<lambda>w. map_of (device_rows w))"
    by (rule device_services.intro)
qed

text \<open>Bob mistypes his password on the machine that Alice's trusted device row describes.\<close>

definition bob_row :: user_row where
  "bob_row = alice_row\<lparr>u_id := ''uuid-bob'', username := ''bob''\<rparr>"

definition shared_device_world :: world where
  "shared_device_world = start_world\<lparr>device_rows :=
     [(''curl10.0.0.1'', ''uuid-alice'', \<lparr>d_trust_score = 80, d_is_trusted = True\<rparr>)]\<rparr>"

lemma ref_reject_password:
  "\<exists>w'. reject_password default_server ip user body d w
     = (Err (AuthenticationFailed ''invalid credentials''), w')"
proof -
  obtain w1 where "store_device default_server ip user (decrease_trust 15 d) w = (Ok (), w1)"
    by (simp add: default_services store_device_def upsert_device_def io_run ref_postgres_def
        ref_execute_def sql_texts Let_def)
  moreover obtain w2 where
    "audit_login default_server user (unwrap_or (lb_device_id body) ''unknown'') ip False w1 = (Ok (), w2)"
    unfolding audit_login_def by (rule exE [OF discard_total [OF panic_free_logs(1)]])
  ultimately show ?thesis by (simp add: reject_password_def bind_io_def throw_def)
qed

definition bob_login :: login_body where
  "bob_login = \<lparr>lb_username = ''bob'', lb_password = ''mistyped'', lb_device_id = None,
     lb_mfa_token = None\<rparr>"

theorem wrong_password_device_rows_witness:
  "\<exists>d ex w1 w2. login_device default_server ''10.0.0.1'' ''curl'' bob_row shared_device_world = (Ok (d, ex), w1)
    \<and> reject_password default_server ''10.0.0.1'' bob_row bob_login d w1
        = (Err (AuthenticationFailed ''invalid credentials''), w2)
    \<and> map_of (device_rows w2) ''curl10.0.0.1''
        = Some (''uuid-alice'', \<lparr>d_trust_score = 35, d_is_trusted = False\<rparr>)"
proof -
  obtain d ex w1 where l:
    "login_device default_server ''10.0.0.1'' ''curl'' bob_row shared_device_world = (Ok (d, ex), w1)"
    using login_device_ok by blast
  obtain w2 where r: "reject_password default_server ''10.0.0.1'' bob_row bob_login d w1
      = (Err (AuthenticationFailed ''invalid credentials''), w2)"
    using ref_reject_password by blast
  have "generate_hash (sha256_hex (platform_of default_server)) ''curl'' ''10.0.0.1'' no_metadata
      = ''curl10.0.0.1''"
    by (simp add: generate_hash_def default_services ref_platform_def no_metadata_def opt_text_def)
  with wrong_password_device_rows [OF ref_device_server.device_services_axioms
      l [unfolded default_server_def] r [unfolded default_server_def]]
  have "map_of (device_rows w2) ''curl10.0.0.1''
      = Some (''uuid-alice'', \<lparr>d_trust_score = 35, d_is_trusted = False\<rparr>)"
    by (simp add: default_server_def shared_device_world_def bob_row_def alice_row_def)
  with l r show ?thesis by blast
qed

end
