(* ===== verification/Device_Trust.thy ===== *)
theory Device_Trust
  imports Device_Rows
begin

text \<open>
  The \<open>devices\<close> table as a state machine. A login makes at most one step: of the row with the
  fingerprint of its user agent and address it raises or lowers the trust, or it starts one; no
  other request touches the table. A step keeps the trust of every row between 0 and 100 and its
  flag in agreement with its score.
\<close>

section \<open>The steps\<close>

definition raised_row :: "device_row \<Rightarrow> device_row" where
  "raised_row row =
     (let t = min (i32_max0 (d_trust_score row) + 10) 100
      in \<lparr>d_trust_score = t, d_is_trusted = d_is_trusted row \<or> 70 \<le> t\<rparr>)"

text \<open>What a login may store, by the row its lookup finds: after a success, after a wrong password.\<close>

definition adjusted_rows :: "device_row option \<Rightarrow> device_row list" where
  "adjusted_rows found =
     (case found of
        None \<Rightarrow> [\<lparr>d_trust_score = 50, d_is_trusted = False\<rparr>, \<lparr>d_trust_score = 35, d_is_trusted = False\<rparr>]
      | Some row \<Rightarrow> [raised_row row, distrusted_row row])"

definition device_step :: "string \<Rightarrow> devices \<Rightarrow> devices \<Rightarrow> bool" where
  "device_step fp ds ds' \<longleftrightarrow> ds' = ds \<or>
     (\<exists>u. \<exists>row \<in> set (adjusted_rows (device_of ds u fp)). ds' = upserted_device ds u fp row)"

definition row_sound :: "device_row \<Rightarrow> bool" where
  "row_sound row \<longleftrightarrow> d_trust_score row \<le> 100 \<and> (d_is_trusted row \<longleftrightarrow> 70 \<le> d_trust_score row)"

definition devices_sound :: "devices \<Rightarrow> bool" where
  "devices_sound ds \<longleftrightarrow> (\<forall>fp u row. ds fp = Some (u, row) \<longrightarrow> row_sound row)"

lemma sound_trust:
  assumes "row_sound row"
  shows "i32_max0 (d_trust_score row) = d_trust_score row"
proof -
  have "uint (d_trust_score row) \<le> 100"
    using assms by (simp add: row_sound_def word_le_def)
  then have "signed_take_bit 31 (uint (d_trust_score row)) = uint (d_trust_score row)"
    by (intro signed_take_bit_int_eq_self) (rule order_trans [OF _ uint_ge_0], simp_all)
  then show ?thesis by (simp add: i32_max0_def sint_uint)
qed

lemma adjusted_sound:
  assumes "\<And>r. found = Some r \<Longrightarrow> row_sound r" "row \<in> set (adjusted_rows found)"
  shows "row_sound row"
proof (cases found)
  case None
  with assms(2) show ?thesis by (auto simp: adjusted_rows_def row_sound_def)
next
  case (Some r)
  let ?t = "d_trust_score r"
  note r = assms(1) [OF Some] and t = sound_trust [OF assms(1) [OF Some]]
  have le: "unat ?t \<le> 100" "d_is_trusted r \<longleftrightarrow> 70 \<le> unat ?t"
    using r by (simp_all add: row_sound_def word_le_nat_alt)
  have "unat (?t + 10) = unat ?t + 10"
    using le(1) by (subst unat_add_lem [THEN iffD1]) simp_all
  moreover have "unat (saturating_sub_u32 ?t 15) = unat ?t - 15"
    by (simp add: unat_saturating_sub_u32)
  ultimately show ?thesis
    using assms(2) le Some
    by (auto simp: adjusted_rows_def raised_row_def distrusted_row_def Let_def t row_sound_def
        word_le_nat_alt min_def)
qed

lemma device_step_sound:
  assumes "device_step fp ds ds'" "devices_sound ds"
  shows "devices_sound ds'"
proof (cases "ds' = ds")
  case False
  with assms(1) obtain u row where row: "row \<in> set (adjusted_rows (device_of ds u fp))"
    "ds' = upserted_device ds u fp row" by (auto simp: device_step_def)
  have "row_sound row"
  proof (rule adjusted_sound [OF _ row(1)])
    fix r
    assume "device_of ds u fp = Some r"
    then show "row_sound r"
      using assms(2) by (auto simp: device_of_def devices_sound_def split: option.splits if_splits)
  qed
  with assms(2) show ?thesis
    by (auto simp: row(2) upserted_device_def devices_sound_def split: option.splits if_splits)
qed (use assms(2) in simp)

section \<open>A login\<close>

text \<open>What a login knows of the table once it has looked its device up.\<close>

definition looked_up :: "user_row \<Rightarrow> string \<Rightarrow> device_fingerprint \<Rightarrow> device_row option \<Rightarrow> devices \<Rightarrow> bool" where
  "looked_up user fp d ex ds \<longleftrightarrow> fingerprint_hash d = fp \<and> ex = device_of ds (u_id user) fp
     \<and> (trust_score d, is_trusted d) =
         (case ex of Some row \<Rightarrow> (i32_max0 (d_trust_score row), d_is_trusted row) | None \<Rightarrow> (50, False))"

definition login_fingerprint :: "'w proxy_server \<Rightarrow> 'w request \<Rightarrow> ip_addr \<Rightarrow> string" where
  "login_fingerprint S req ip = generate_hash (sha256_hex (platform_of S))
     (unwrap_or (header_text (sv_http (services S)) req ''user-agent'') ''unknown'') ip no_metadata"

locale device_server = device_services S devices + service_base S "\<lambda>w w'. devices w' = devices w"
  for S :: "'w proxy_server" and devices +
  assumes upsert_fails:
    "pg_execute (db_of S) upsert_device_sql [SqlUuid u, SqlText fp, SqlText ua, SqlText p, SqlText b,
      SqlText ip, SqlInt t, SqlBool tr] w = (Inl e, w') \<Longrightarrow> devices w' = devices w
      \<or> devices w' = upserted_device (devices w) u fp \<lparr>d_trust_score = t, d_is_trusted = tr\<rparr>"
    and upstream_keeps: "moves (\<lambda>w w'. devices w' = devices w) (http_send (sv_http (services S)) up)"
    and upstream_body_keeps: "http_send (sv_http (services S)) up w = (Inr ur, w') \<Longrightarrow>
      moves (\<lambda>w w'. devices w' = devices w) (ur_body ur)"
begin

text \<open>Relations on the table alone, composed with operations that leave it alone.\<close>

abbreviation table :: "(devices \<Rightarrow> devices \<Rightarrow> bool) \<Rightarrow> 'w \<Rightarrow> 'w \<Rightarrow> bool" where
  "table F w w' \<equiv> F (devices w) (devices w')"

lemma table_after:
  assumes "reflp F" "moves same_devices m" "\<And>x w w1. m w = (Ok x, w1) \<Longrightarrow> table F w1 (snd (k x w1))"
  shows "moves (table F) (bind_io m k)"
proof (rule withinI)
  fix w r w'
  assume "bind_io m k w = (r, w')"
  then show "table F w w'"
  proof (cases rule: bind_io_runs)
    case (stopped c)
    with withinD [OF assms(2)] assms(1) show ?thesis by (metis reflpD)
  next
    case (continued x w1)
    with withinD [OF assms(2)] assms(3) show ?thesis by (metis snd_conv)
  qed
qed

lemma table_before:
  assumes "moves (table F) m" "\<And>x. moves same_devices (k x)"
  shows "moves (table F) (bind_io m k)"
proof (rule withinI)
  fix w r w'
  assume "bind_io m k w = (r, w')"
  then show "table F w w'"
    by (cases rule: bind_io_runs) (metis withinD [OF assms(1)] withinD [OF assms(2)])+
qed

lemma table_move: "moves (table F) m \<Longrightarrow> table F w (snd (m w))"
  by (simp add: moves_def)

lemma table_bind:
  assumes "reflp F" "moves same_devices m" "\<And>x. moves (table F) (k x)"
  shows "moves (table F) (bind_io m k)"
  using assms(1,2) by (rule table_after) (rule table_move [OF assms(3)])

lemma store_device_step:
  "moves (table (\<lambda>ds ds'. ds' = ds \<or> ds' = upserted_device ds (u_id user) (fingerprint_hash d)
     \<lparr>d_trust_score = trust_score d, d_is_trusted = is_trusted d\<rparr>)) (store_device S ip user d)"
proof (rule withinI)
  fix w r w'
  assume "store_device S ip user d w = (r, w')"
  then obtain x where "pg_execute (db_of S) upsert_device_sql [SqlUuid (u_id user),
      SqlText (fingerprint_hash d), SqlText (dev_user_agent d), SqlText (dev_platform d),
      SqlText (dev_browser d), SqlText ip, SqlInt (trust_score d), SqlBool (is_trusted d)] w = (x, w')"
    by (auto simp: store_device_def upsert_device_def io_run of_sum_def split: prod.splits sum.splits)
  then show "devices w' = devices w \<or> devices w' = upserted_device (devices w) (u_id user)
      (fingerprint_hash d) \<lparr>d_trust_score = trust_score d, d_is_trusted = is_trusted d\<rparr>"
    by (cases x) (auto dest: upsert upsert_fails)
qed

abbreviation login_step where
  "login_step user fp d ex \<equiv> table (\<lambda>ds ds'. looked_up user fp d ex ds \<longrightarrow> device_step fp ds ds')"

lemma store_adjusted:
  assumes "\<And>ds. looked_up user fp d ex ds \<Longrightarrow> fingerprint_hash d' = fp
    \<and> \<lparr>d_trust_score = trust_score d', d_is_trusted = is_trusted d'\<rparr> \<in> set (adjusted_rows ex)"
  shows "moves (login_step user fp d ex) (store_device S ip user d')"
  by (rule moves_weaken [OF store_device_step])
    (use assms in \<open>fastforce simp: device_step_def looked_up_def\<close>)

lemma lowered_row:
  assumes "looked_up user fp d ex ds"
  shows "fingerprint_hash (decrease_trust 15 d) = fp \<and> \<lparr>d_trust_score = trust_score (decrease_trust 15 d),
    d_is_trusted = is_trusted (decrease_trust 15 d)\<rparr> \<in> set (adjusted_rows ex)"
  using assms
  by (auto simp: looked_up_def decrease_trust_def distrusted_row_def saturating_sub_u32_def Let_def
      adjusted_rows_def word_less_nat_alt word_le_nat_alt not_le split: option.splits)

lemma lifted_row:
  assumes "looked_up user fp d ex ds" "d' = (if ex \<noteq> None then increase_trust 10 d else d)"
  shows "fingerprint_hash d' = fp \<and> \<lparr>d_trust_score = trust_score d',
    d_is_trusted = is_trusted d'\<rparr> \<in> set (adjusted_rows ex)"
  using assms
  by (auto simp: looked_up_def increase_trust_def raised_row_def Let_def adjusted_rows_def
      split: option.splits)

lemma reject_step: "moves (login_step user fp d ex) (reject_password S ip user body d)"
  unfolding reject_password_def
  by (intro table_before store_adjusted lowered_row) (auto intro!: frame_basic frame)

lemma record_step: "moves (login_step user fp d ex) (record_device S ip user d ex)"
  unfolding record_device_def Let_def
proof (rule table_after)
  let ?d = "if ex \<noteq> None then increase_trust 10 d else d"
  fix x w w1
  assume "read_io (update_last_seen (platform_of S) ?d) w = (Ok x, w1)"
  then have x: "fingerprint_hash x = fingerprint_hash ?d" "trust_score x = trust_score ?d"
    "is_trusted x = is_trusted ?d"
    by (auto simp: read_io_def update_last_seen_def split: prod.splits)
  have "moves (login_step user fp d ex) (bind_io (store_device S ip user x) (\<lambda>_. ret x))"
    by (intro table_before store_adjusted) (auto simp: x dest: lifted_row [OF _ refl] intro!: frame_basic)
  then show "login_step user fp d ex w1 (snd (bind_io (store_device S ip user x) (\<lambda>_. ret x) w1))"
    by (rule table_move)
qed (auto simp: reflp_def device_step_def intro!: frame_basic frame)

text \<open>The whole login: the table is left alone up to the lookup, and after the one upsert.\<close>

lemma login_rest_step:
  assumes "\<And>m d'. moves same_devices (k m d')"
  shows "moves (login_step user fp d ex)
    (bind_io (lift_res (verify_password (sv_argon2 (services S)) pw (password_hash user))) (\<lambda>ok.
     if \<not> ok then reject_password S ip user body d
     else bind_io (login_mfa S user body) (\<lambda>m. bind_io (record_device S ip user d ex) (\<lambda>d'. k m d'))))"
proof -
  have refl: "reflp (\<lambda>ds ds'. looked_up user fp d ex ds \<longrightarrow> device_step fp ds ds')"
    by (simp add: reflp_def device_step_def)
  have "moves (login_step user fp d ex)
      (bind_io (login_mfa S user body) (\<lambda>m. bind_io (record_device S ip user d ex) (\<lambda>d'. k m d')))"
    by (rule table_bind [OF refl inside_login_steps(2)], rule table_before [OF record_step assms])
  then show ?thesis
    by (rule table_bind [OF refl frame_basic(4) within_if [OF reject_step]])
qed

lemma lookup_step:
  assumes "\<And>d ex. moves (login_step user (generate_hash (sha256_hex (platform_of S)) ua ip no_metadata) d ex) (k d ex)"
  shows "moves (table (device_step (generate_hash (sha256_hex (platform_of S)) ua ip no_metadata)))
    (bind_io (login_device S ip ua user) (\<lambda>(d, ex). k d ex))"
proof (rule table_after [OF _ inside_login_device])
  let ?fp = "generate_hash (sha256_hex (platform_of S)) ua ip no_metadata"
  fix x w w1
  assume l: "login_device S ip ua user w = (Ok x, w1)"
  obtain d ex where x: "x = (d, ex)" by (cases x)
  have "looked_up user ?fp d ex (devices w1)"
    using login_device_Ok [OF l [unfolded x]] by (simp add: looked_up_def)
  with table_move [OF assms] show "device_step ?fp (devices w1) (devices (snd ((case x of (d, ex) \<Rightarrow> k d ex) w1)))"
    by (auto simp: x)
qed (simp add: reflp_def device_step_def)

lemma login_devices:
  assumes "moves same_devices (req_body req)"
  shows "moves (table (device_step (login_fingerprint S req ip))) (handle_login S req ip)"
proof -
  have refl: "reflp (device_step fp)" for fp by (simp add: reflp_def device_step_def)
  show ?thesis
    unfolding handle_login_def Let_def login_fingerprint_def
    apply (rule table_bind [OF refl], rule inside_rate_limit)
    apply (rule table_bind [OF refl], rule inside_body [OF assms])
    apply (rule table_bind [OF refl], rule frame_basic)
    apply (rule table_bind [OF refl], rule inside_login_steps)
    apply (rule lookup_step, rule login_rest_step)
    apply (intro frame_basic frame)
    apply (clarsimp split: prod.split)
    apply (intro frame_basic)
    done
qed

text \<open>Any request: only a login reaches the table.\<close>

lemma forward_keeps_devices:
  "moves same_devices (req_body req) \<Longrightarrow> moves same_devices (forward_upstream S req)"
  by (rule inside_forward) (rule upstream_keeps upstream_body_keeps | assumption)+

lemma other_requests_keep:
  assumes "moves same_devices (req_body req)" "req_path req \<noteq> ''/auth/login'' \<or> req_method req \<noteq> ''POST''"
  shows "moves same_devices (handle_request S req ip)"
  by (rule inside_request_by [OF assms(1) forward_keeps_devices [OF assms(1)] _ inside_session_verify [OF assms(1)]])
    (use assms(2) in simp)

lemma request_device_step:
  assumes "moves same_devices (req_body req)" "handle_request S req ip w = (r, w')"
  shows "if req_path req = ''/auth/login'' \<and> req_method req = ''POST''
    then device_step (login_fingerprint S req ip) (devices w) (devices w')
    else devices w' = devices w"
proof (cases "req_path req = ''/auth/login'' \<and> req_method req = ''POST''")
  case True
  moreover obtain rl wl where "handle_login S req ip w = (rl, wl)" by (cases "handle_login S req ip w")
  moreover note withinD [OF login_devices [OF assms(1)] this]
  ultimately show ?thesis
    using assms(2) by (auto simp: handle_request_def route_def split: outcome.splits)
next
  case False
  then show ?thesis
    using withinD [OF other_requests_keep [OF assms(1)] assms(2)] by auto
qed

end

section \<open>The table over requests\<close>


section \<open>The reference services\<close>

interpretation ref_trust: device_server "ref_server c" "\<lambda>w. map_of (device_rows w)" for c
proof -
  have user: "device_rows (snd (ref_select_user q vs w)) = device_rows w" for q vs w
    by (auto simp: ref_select_user_def Let_def split: list.splits sql_value.splits)
  have exec: "device_rows (snd (ref_execute q vs w)) = device_rows w" if "q \<noteq> upsert_device_sql" for q vs w
    using ref_execute_other [OF that] by (metis prod.collapse)
  have "service_base (ref_server c) (\<lambda>w w'. map_of (device_rows w') = map_of (device_rows w))"
    by unfold_locales
      (auto simp: reflp_def transp_def moves_def ref_server_def new_proxy_server_def
        ref_services_def ref_platform_def ref_redis_def ref_expire_def ref_jwt_def ref_argon2_def
        ref_totp_def ref_postgres_def ref_insert_user_def Let_def user exec
        split: option.splits list.splits sql_value.splits)
  moreover have "device_server_axioms (ref_server c) (\<lambda>w. map_of (device_rows w))"
    by unfold_locales
      (auto simp: moves_def ref_server_def new_proxy_server_def ref_services_def ref_postgres_def
        ref_execute_def ref_http_def sql_texts Let_def)
  ultimately show "device_server (ref_server c) (\<lambda>w. map_of (device_rows w))"
    by (intro device_server.intro ref_device_server.device_services_axioms)
qed

lemma alice_login_handled:
  "\<exists>r w. handle_request default_server (login_request ''correct horse'') ''10.0.0.1'' login_world = (Ok r, w)"
proof -
  obtain resp w where "handle_login default_server (login_request ''correct horse'') ''10.0.0.1''
    login_world = (Ok resp, w)" using alice_logs_in by blast
  then show ?thesis
    by (simp add: handle_request_def route_def Let_def) (simp add: login_request_def)
qed


end
