(* ===== verification/Interleaving.thy ===== *)
theory Interleaving
  imports Frame
begin

text \<open>
  Requests handled at the same time. A request runs in a world that others change between its calls:
  \<open>stepwise c\<close> is the call \<open>c\<close> made at the world a schedule presents (or at the one the last call left,
  when the schedule is over), with the worlds before and after it written down. \<open>stepwise_server S\<close>
  is the server whose services are called this way, so \<open>handle_request (stepwise_server S)\<close> is the
  same code, run step by step. An \<open>interleaving\<close> is a sequence of steps of which each thread's own are
  a run of it. The proofs follow rely and guarantee: a thread promises of its steps what it may assume of those
  of the others.
\<close>

record 'w thread =
  here :: 'w
  schedule :: "'w list"
  taken :: "('w \<times> 'w) list"

section \<open>Services called step by step\<close>

definition next_world :: "'w thread \<Rightarrow> 'w" where
  "next_world v = (case schedule v of [] \<Rightarrow> here v | w # _ \<Rightarrow> w)"

definition advance :: "'w thread \<Rightarrow> 'w \<Rightarrow> 'w thread" where
  "advance v w =
     v\<lparr>here := w, schedule := tl (schedule v), taken := taken v @ [(next_world v, w)]\<rparr>"

definition stepwise :: "('w \<Rightarrow> 'r \<times> 'w) \<Rightarrow> 'w thread \<Rightarrow> 'r \<times> 'w thread" where
  "stepwise c v = (case c (next_world v) of (x, w) \<Rightarrow> (x, advance v w))"

definition stepwise_platform :: "'w platform \<Rightarrow> 'w thread platform" where
  "stepwise_platform P =
     \<lparr>utc_now = stepwise (utc_now P), uuid_v4 = stepwise (uuid_v4 P), sha256_hex = sha256_hex P,
      parse_uuid = parse_uuid P, parse_ip = parse_ip P\<rparr>"

definition stepwise_redis :: "'w redis \<Rightarrow> 'w thread redis" where
  "stepwise_redis R =
     \<lparr>redis_get = \<lambda>k. stepwise (redis_get R k),
      redis_set_ex = \<lambda>k v ttl. stepwise (redis_set_ex R k v ttl),
      redis_del = \<lambda>k. stepwise (redis_del R k),
      redis_scan_match = \<lambda>pat. stepwise (redis_scan_match R pat),
      redis_incr = \<lambda>k n. stepwise (redis_incr R k n),
      redis_expire = \<lambda>k n. stepwise (redis_expire R k n)\<rparr>"

definition stepwise_jwt :: "'w jwt_lib \<Rightarrow> 'w thread jwt_lib" where
  "stepwise_jwt J =
     \<lparr>jwt_encode = jwt_encode J, jwt_decode = \<lambda>sec tok. stepwise (jwt_decode J sec tok)\<rparr>"

definition stepwise_argon2 :: "'w argon2 \<Rightarrow> 'w thread argon2" where
  "stepwise_argon2 A =
     \<lparr>a2_salt = stepwise (a2_salt A), a2_hash = a2_hash A, a2_parse = a2_parse A, a2_matches = a2_matches A\<rparr>"

definition stepwise_totp :: "'w totp_lib \<Rightarrow> 'w thread totp_lib" where
  "stepwise_totp T =
     \<lparr>gen_range = \<lambda>n. stepwise (gen_range T n), base32_decode = base32_decode T,
      totp_validate = totp_validate T,
      totp_check_current = \<lambda>t code. stepwise (totp_check_current T t code),
      totp_generate_current = \<lambda>t. stepwise (totp_generate_current T t)\<rparr>"

definition stepwise_db :: "('w, 'j) postgres \<Rightarrow> ('w thread, 'j) postgres" where
  "stepwise_db D =
     \<lparr>pg_fetch_optional_user = \<lambda>q vs. stepwise (pg_fetch_optional_user D q vs),
      pg_fetch_one_user = \<lambda>q vs. stepwise (pg_fetch_one_user D q vs),
      pg_fetch_optional_device = \<lambda>q vs. stepwise (pg_fetch_optional_device D q vs),
      pg_execute = \<lambda>q vs. stepwise (pg_execute D q vs)\<rparr>"

text \<open>The body of a response is read by further calls.\<close>

definition stepwise_response :: "'w upstream_response \<Rightarrow> 'w thread upstream_response" where
  "stepwise_response r =
     \<lparr>ur_status = ur_status r, ur_headers = ur_headers r, ur_body = stepwise (ur_body r)\<rparr>"

definition stepwise_http :: "'w http \<Rightarrow> 'w thread http" where
  "stepwise_http H =
     \<lparr>header_to_str = header_to_str H, parse_uri = parse_uri H, builder_accepts = builder_accepts H,
      http_send = \<lambda>r. stepwise (map_prod (map_sum id stepwise_response) id \<circ> http_send H r)\<rparr>"

definition stepwise_services :: "'w services \<Rightarrow> 'w thread services" where
  "stepwise_services s =
     \<lparr>sv_platform = stepwise_platform (sv_platform s), sv_redis = stepwise_redis (sv_redis s),
      sv_codec = sv_codec s, sv_jwt = stepwise_jwt (sv_jwt s), sv_argon2 = stepwise_argon2 (sv_argon2 s),
      sv_totp = stepwise_totp (sv_totp s), sv_db = stepwise_db (sv_db s),
      sv_http = stepwise_http (sv_http s), sv_json = sv_json s, sv_login_body = sv_login_body s,
      sv_register_body = sv_register_body s, sv_mfa_verify_body = sv_mfa_verify_body s\<rparr>"

definition stepwise_server :: "'w proxy_server \<Rightarrow> 'w thread proxy_server" where
  "stepwise_server S =
     \<lparr>services = stepwise_services (services S), config = config S, jwt_manager = jwt_manager S,
      policy_engine = policy_engine S, risk_engine = risk_engine S\<rparr>"

definition stepwise_request :: "'w request \<Rightarrow> 'w thread request" where
  "stepwise_request req =
     \<lparr>req_method = req_method req, req_path = req_path req,
      req_path_and_query = req_path_and_query req, req_headers = req_headers req,
      req_body = stepwise (req_body req)\<rparr>"

lemmas stepwise_defs = stepwise_platform_def stepwise_redis_def stepwise_jwt_def stepwise_argon2_def
  stepwise_totp_def stepwise_db_def stepwise_http_def stepwise_services_def stepwise_server_def

lemma stepwise_request_fields [simp]:
  "req_method (stepwise_request req) = req_method req" "req_path (stepwise_request req) = req_path req"
  "req_path_and_query (stepwise_request req) = req_path_and_query req"
  "req_headers (stepwise_request req) = req_headers req"
  "req_body (stepwise_request req) = stepwise (req_body req)"
  by (simp_all add: stepwise_request_def)

lemma header_stepwise [simp]:
  "header_text (stepwise_http H) (stepwise_request req) n = header_text H req n"
  by (simp add: header_text_def stepwise_http_def)

text \<open>What a server keeps apart from its calls.\<close>

lemma stepwise_server_fields [simp]:
  "config (stepwise_server S) = config S" "jwt_manager (stepwise_server S) = jwt_manager S"
  "policy_engine (stepwise_server S) = policy_engine S" "risk_engine (stepwise_server S) = risk_engine S"
  "services (stepwise_server S) = stepwise_services (services S)"
  by (simp_all add: stepwise_server_def)

lemma stepwise_services_fields [simp]:
  "sv_platform (stepwise_services s) = stepwise_platform (sv_platform s)"
  "sv_redis (stepwise_services s) = stepwise_redis (sv_redis s)" "sv_codec (stepwise_services s) = sv_codec s"
  "sv_jwt (stepwise_services s) = stepwise_jwt (sv_jwt s)"
  "sv_argon2 (stepwise_services s) = stepwise_argon2 (sv_argon2 s)"
  "sv_totp (stepwise_services s) = stepwise_totp (sv_totp s)"
  "sv_db (stepwise_services s) = stepwise_db (sv_db s)" "sv_http (stepwise_services s) = stepwise_http (sv_http s)"
  "sv_json (stepwise_services s) = sv_json s" "sv_login_body (stepwise_services s) = sv_login_body s"
  "sv_register_body (stepwise_services s) = sv_register_body s"
  "sv_mfa_verify_body (stepwise_services s) = sv_mfa_verify_body s"
  by (simp_all add: stepwise_services_def)

section \<open>Interleavings\<close>

text \<open>A run of a thread from a world, seen through its steps: all of them, or the first ones.\<close>

definition start_thread :: "'w \<Rightarrow> 'w list \<Rightarrow> 'w thread" where
  "start_thread w sched = \<lparr>here = w, schedule = sched, taken = []\<rparr>"

definition run_of :: "('w thread \<Rightarrow> 'r \<times> 'w thread) \<Rightarrow> 'w \<Rightarrow> ('w \<times> 'w) list \<Rightarrow> bool" where
  "run_of m w cs \<longleftrightarrow>
     (\<exists>sched. take (length cs) (taken (snd (m (start_thread w sched)))) = cs)"

text \<open>The steps of thread \<open>i\<close>; and steps that follow one another but for what the environment does.\<close>

definition steps_of :: "'i \<Rightarrow> ('i \<times> 'w \<times> 'w) list \<Rightarrow> ('w \<times> 'w) list" where
  "steps_of i tr = map snd (filter (\<lambda>x. fst x = i) tr)"

fun connected :: "('w \<Rightarrow> 'w \<Rightarrow> bool) \<Rightarrow> 'w \<Rightarrow> ('i \<times> 'w \<times> 'w) list \<Rightarrow> bool" where
  "connected E w [] \<longleftrightarrow> True"
| "connected E w ((i, a, b) # tr) \<longleftrightarrow> E w a \<and> connected E b tr"

definition interleaving ::
  "('i \<Rightarrow> 'w thread \<Rightarrow> 'r \<times> 'w thread) \<Rightarrow> ('w \<Rightarrow> 'w \<Rightarrow> bool) \<Rightarrow> 'w \<Rightarrow> ('i \<times> 'w \<times> 'w) list \<Rightarrow> bool" where
  "interleaving m E w tr \<longleftrightarrow> connected E w tr \<and> (\<forall>i. run_of (m i) w (steps_of i tr))"

text \<open>The requests of the server, all handled at the same time.\<close>

definition at_once ::
  "'w proxy_server \<Rightarrow> ('i \<Rightarrow> 'w request \<times> ip_addr) \<Rightarrow> 'i \<Rightarrow> 'w thread
     \<Rightarrow> response proxy_result \<times> 'w thread" where
  "at_once S reqs i = handle_request (stepwise_server S) (stepwise_request (fst (reqs i))) (snd (reqs i))"

lemma steps_of_append [simp]: "steps_of i (p @ q) = steps_of i p @ steps_of i q"
  by (simp add: steps_of_def)

lemma steps_of_mem: "(a, b) \<in> set (steps_of i tr) \<longleftrightarrow> (i, a, b) \<in> set tr"
  by (force simp: steps_of_def)

lemma steps_of_Cons [simp]: "steps_of i ((j, s) # tr) = (if j = i then s # steps_of i tr else steps_of i tr)"
  by (simp add: steps_of_def)

lemma steps_of_Nil [simp]: "steps_of i [] = []"
  by (simp add: steps_of_def)

fun last_world :: "'w \<Rightarrow> ('i \<times> 'w \<times> 'w) list \<Rightarrow> 'w" where
  "last_world w [] = w"
| "last_world w ((i, a, b) # tr) = last_world b tr"

lemma connected_append [simp]:
  "connected E w (p @ q) \<longleftrightarrow> connected E w p \<and> connected E (last_world w p) q"
  by (induction E w p rule: connected.induct) auto

lemma last_world_append: "last_world w (p @ q) = last_world (last_world w p) q"
  by (induction w p rule: last_world.induct) auto

lemma connected_mono: "connected E w tr \<Longrightarrow> (\<And>a b. E a b \<Longrightarrow> E' a b) \<Longrightarrow> connected E' w tr"
  by (induction E w tr rule: connected.induct) auto

lemma interleaving_mono: "interleaving m E w tr \<Longrightarrow> (\<And>a b. E a b \<Longrightarrow> E' a b) \<Longrightarrow> interleaving m E' w tr"
  unfolding interleaving_def using connected_mono [of E w tr E'] by blast

text \<open>What differs at the end was changed by a step, unless the environment changed it.\<close>

lemma last_world_step: "last_world w tr \<noteq> w \<Longrightarrow> \<exists>i a. (i, a, last_world w tr) \<in> set tr"
  by (induction w tr rule: last_world.induct) auto

lemma changing_step:
  assumes "connected E w tr" "\<And>a b. E a b \<Longrightarrow> f b = f a" "f (last_world w tr) \<noteq> f w"
  shows "\<exists>i a b. (i, a, b) \<in> set tr \<and> f b \<noteq> f a"
  using assms(1,3)
proof (induction tr arbitrary: w)
  case (Cons s tr)
  obtain i a b where s: "s = (i, a, b)" by (cases s)
  then have "f a = f w" "connected E b tr" using Cons.prems(1) assms(2) by simp_all
  with Cons.IH [of b] Cons.prems(2) s show ?case
    by (cases "f b = f a") (simp, metis list.set_intros, metis list.set_intros(1))
qed simp

section \<open>Rely and guarantee\<close>

text \<open>
  \<open>B\<close> is a preorder on worlds and \<open>G\<close> a property of them. A thread relies on the others to move the
  world along \<open>B\<close> and to keep \<open>G\<close>, and guarantees the same of its own steps as long as they do.
\<close>

fun ends_at :: "'w \<Rightarrow> ('w \<times> 'w) list \<Rightarrow> 'w" where
  "ends_at h [] = h"
| "ends_at h ((a, b) # cs) = ends_at b cs"

fun relied :: "('w \<Rightarrow> 'w \<Rightarrow> bool) \<Rightarrow> ('w \<Rightarrow> bool) \<Rightarrow> 'w \<Rightarrow> ('w \<times> 'w) list \<Rightarrow> bool" where
  "relied B G h [] \<longleftrightarrow> True"
| "relied B G h ((a, b) # cs) \<longleftrightarrow> B h a \<and> G a \<and> relied B G b cs"

fun guards :: "('w \<Rightarrow> 'w \<Rightarrow> bool) \<Rightarrow> ('w \<Rightarrow> bool) \<Rightarrow> 'w \<Rightarrow> ('w \<times> 'w) list \<Rightarrow> bool" where
  "guards B G h [] \<longleftrightarrow> True"
| "guards B G h ((a, b) # cs) \<longleftrightarrow> (B h a \<and> G a \<longrightarrow> B a b \<and> G b \<and> guards B G b cs)"

lemma ends_at_append [simp]: "ends_at h (cs @ ds) = ends_at (ends_at h cs) ds"
  by (induction h cs rule: ends_at.induct) auto

lemma relied_append [simp]:
  "relied B G h (cs @ ds) \<longleftrightarrow> relied B G h cs \<and> relied B G (ends_at h cs) ds"
  by (induction h cs rule: ends_at.induct) auto

lemma guards_append [simp]:
  "guards B G h (cs @ ds) \<longleftrightarrow> guards B G h cs \<and> (relied B G h cs \<longrightarrow> guards B G (ends_at h cs) ds)"
  by (induction h cs rule: ends_at.induct) auto

text \<open>
  The steps an operation adds to a thread, and what it meets: from a world with \<open>G\<close> and \<open>P\<close> it keeps the
  guarantee, and if its reliance was justified a result \<open>x\<close> it returns has \<open>Q x\<close> in the world it leaves.
\<close>

definition extends :: "'w thread \<Rightarrow> 'w thread \<Rightarrow> ('w \<times> 'w) list \<Rightarrow> bool" where
  "extends v v' cs \<longleftrightarrow> taken v' = taken v @ cs \<and> here v' = ends_at (here v) cs"

definition upholds ::
  "('w \<Rightarrow> 'w \<Rightarrow> bool) \<Rightarrow> ('w \<Rightarrow> bool) \<Rightarrow> ('w \<Rightarrow> bool) \<Rightarrow> ('a \<Rightarrow> 'w \<Rightarrow> bool) \<Rightarrow> 'w \<Rightarrow> ('w \<times> 'w) list
     \<Rightarrow> ('e, 'a) outcome \<Rightarrow> bool" where
  "upholds B G P Q h cs r \<longleftrightarrow>
     (G h \<longrightarrow> P h \<longrightarrow>
        guards B G h cs \<and> (relied B G h cs \<longrightarrow> (\<forall>x. r = Ok x \<longrightarrow> Q x (ends_at h cs))))"

definition meets ::
  "('w \<Rightarrow> 'w \<Rightarrow> bool) \<Rightarrow> ('w \<Rightarrow> bool) \<Rightarrow> ('w \<Rightarrow> bool) \<Rightarrow> ('w thread, 'e, 'a) io \<Rightarrow> ('a \<Rightarrow> 'w \<Rightarrow> bool) \<Rightarrow> bool" where
  "meets B G P m Q \<longleftrightarrow>
     (\<forall>v r v'. m v = (r, v') \<longrightarrow> (\<exists>cs. extends v v' cs \<and> upholds B G P Q (here v) cs r))"

definition under :: "('w \<Rightarrow> 'w \<Rightarrow> bool) \<Rightarrow> ('w \<Rightarrow> bool) \<Rightarrow> 'w thread \<Rightarrow> 'w thread \<Rightarrow> bool" where
  "under B G v v' \<longleftrightarrow> (\<exists>cs. extends v v' cs \<and> (G (here v) \<longrightarrow> guards B G (here v) cs))"

lemma extends_refl [simp]: "extends v v []"
  by (simp add: extends_def)

lemma extends_trans: "extends v v1 cs \<Longrightarrow> extends v1 v2 ds \<Longrightarrow> extends v v2 (cs @ ds)"
  by (simp add: extends_def)

lemma extends_unique: "extends v v' cs \<Longrightarrow> extends v v' ds \<Longrightarrow> cs = ds"
  by (simp add: extends_def)

lemma extends_advance: "extends v (advance v b) [(next_world v, b)]"
  by (simp add: extends_def advance_def)

lemma stepwise_extends: "stepwise c v = (x, v') \<Longrightarrow> \<exists>a b. c a = (x, b) \<and> extends v v' [(a, b)]"
  using extends_advance by (fastforce simp: stepwise_def split: prod.splits)

lemma meetsI:
  assumes "\<And>v r v'. m v = (r, v') \<Longrightarrow> \<exists>cs. extends v v' cs \<and> upholds B G P Q (here v) cs r"
  shows "meets B G P m Q"
  using assms by (simp add: meets_def)

lemma meetsE:
  assumes "meets B G P m Q" "m v = (r, v')"
  obtains cs where "extends v v' cs" "upholds B G P Q (here v) cs r"
  using assms unfolding meets_def by blast

lemma extends_here: "extends v v' cs \<Longrightarrow> here v' = ends_at (here v) cs"
  by (simp add: extends_def)

lemma meets_under: "moves (under B G) m \<longleftrightarrow> meets B G (\<lambda>_. True) m (\<lambda>_ _. True)"
proof -
  have "(\<forall>v r v'. m v = (r, v') \<longrightarrow> Z v v') \<longleftrightarrow> (\<forall>v. Z v (snd (m v)))" for Z
    by (metis prod.collapse snd_conv)
  then show ?thesis by (simp add: meets_def moves_def under_def upholds_def)
qed

lemma meets_conseq:
  assumes "meets B G P m Q" "\<And>w. P' w \<Longrightarrow> P w" "\<And>x w. Q x w \<Longrightarrow> Q' x w"
  shows "meets B G P' m Q'"
proof (rule meetsI)
  fix v r v'
  assume m: "m v = (r, v')"
  obtain cs where "extends v v' cs" "upholds B G P Q (here v) cs r" using meetsE [OF assms(1) m] .
  with assms(2,3) show "\<exists>cs. extends v v' cs \<and> upholds B G P' Q' (here v) cs r"
    by (auto simp: upholds_def)
qed

locale rely_guarantee =
  fixes B :: "'w \<Rightarrow> 'w \<Rightarrow> bool" and G :: "'w \<Rightarrow> bool"
  assumes B_refl: "reflp B" and B_trans: "transp B"
begin

definition keeping :: "'w \<Rightarrow> 'w \<Rightarrow> bool" where
  "keeping w w' \<longleftrightarrow> B w w' \<and> (G w \<longrightarrow> G w')"

definition stable :: "('w \<Rightarrow> bool) \<Rightarrow> bool" where
  "stable P \<longleftrightarrow> (\<forall>w w'. P w \<longrightarrow> B w w' \<longrightarrow> P w')"

lemma keeping_preorder: "reflp keeping" "transp keeping"
  using B_refl B_trans by (auto simp: keeping_def reflp_def transp_def)

lemma stableD: "stable P \<Longrightarrow> P w \<Longrightarrow> B w w' \<Longrightarrow> P w'"
  by (auto simp: stable_def)

lemma stable_const [simp]: "stable (\<lambda>_. c)"
  by (simp add: stable_def)

lemma stable_conj: "stable P \<Longrightarrow> stable Q \<Longrightarrow> stable (\<lambda>w. P w \<and> Q w)"
  by (auto simp: stable_def)

text \<open>Where a thread's reliance was justified, it has moved along \<open>B\<close> and kept \<open>G\<close>.\<close>

lemma guarded_end:
  "guards B G h cs \<Longrightarrow> relied B G h cs \<Longrightarrow> G h \<Longrightarrow> B h (ends_at h cs) \<and> G (ends_at h cs)"
proof (induction h cs rule: ends_at.induct)
  case (1 h)
  with B_refl show ?case by (simp add: reflpD)
next
  case (2 h a b cs)
  then have "B h a" "B a b" "B b (ends_at b cs) \<and> G (ends_at b cs)" by auto
  with B_trans show ?case by (auto dest: transpD)
qed

lemma under_preorder: "reflp (under B G)" "transp (under B G)"
proof -
  show "reflp (under B G)" by (auto simp: reflp_def under_def intro!: exI [of _ "[]"])
  show "transp (under B G)"
  proof (rule transpI)
    fix u v w
    assume "under B G u v" "under B G v w"
    then obtain cs ds where cs: "extends u v cs" "G (here u) \<longrightarrow> guards B G (here u) cs"
      and ds: "extends v w ds" "G (here v) \<longrightarrow> guards B G (here v) ds"
      by (auto simp: under_def)
    have "here v = ends_at (here u) cs" using cs(1) by (simp add: extends_def)
    with cs(2) ds(2) guarded_end [of "here u" cs] have "G (here u) \<longrightarrow> guards B G (here u) (cs @ ds)"
      by simp
    with extends_trans [OF cs(1) ds(1)] show "under B G u w" by (auto simp: under_def)
  qed
qed

section \<open>Rules\<close>

lemma meets_frame:
  assumes "moves (under B G) m" "stable P"
  shows "meets B G P m (\<lambda>_. P)"
proof (rule meetsI)
  fix v r v'
  assume "m v = (r, v')"
  with assms(1) have "under B G v v'" by (rule withinD)
  then obtain cs where "extends v v' cs" "G (here v) \<longrightarrow> guards B G (here v) cs"
    by (auto simp: under_def)
  moreover from this(2) have "upholds B G P (\<lambda>_. P) (here v) cs r"
    using guarded_end [of "here v" cs] stableD [OF assms(2)] by (auto simp: upholds_def)
  ultimately show "\<exists>cs. extends v v' cs \<and> upholds B G P (\<lambda>_. P) (here v) cs r" by blast
qed

lemma meets_bind:
  assumes "meets B G P m Q" "\<And>x. meets B G (Q x) (k x) R"
  shows "meets B G P (bind_io m k) R"
proof (rule meetsI)
  fix v r v'
  assume b: "bind_io m k v = (r, v')"
  then show "\<exists>cs. extends v v' cs \<and> upholds B G P R (here v) cs r"
  proof (cases rule: bind_io_runs)
    case (stopped c)
    obtain cs where "extends v v' cs" "upholds B G P Q (here v) cs c" using meetsE [OF assms(1) stopped(1)] .
    moreover have "r \<noteq> Ok y" for y
      using b stopped by (cases c) (auto simp: bind_io_def)
    ultimately show ?thesis by (auto simp: upholds_def)
  next
    case (continued x v1)
    obtain cs where "extends v v1 cs" "upholds B G P Q (here v) cs (fst (m v))"
      using meetsE [OF assms(1), of v "fst (m v)" v1] continued(1) by auto
    note cs = this [unfolded continued(1) fst_conv]
    obtain ds where ds: "extends v1 v' ds" "upholds B G (Q x) R (here v1) ds r"
      using meetsE [OF assms(2) continued(2)] .
    have "upholds B G P R (here v) (cs @ ds) r"
      using cs(2) ds(2) guarded_end [of "here v" cs] unfolding extends_here [OF cs(1)] upholds_def by auto
    with extends_trans [OF cs(1) ds(1)] show ?thesis by blast
  qed
qed

lemma meets_pure:
  "(\<And>w. P w \<Longrightarrow> Q x w) \<Longrightarrow> meets B G P (ret x) Q" "meets B G P (throw e) Q"
  "(\<And>w x. P w \<Longrightarrow> o1 = Ok x \<Longrightarrow> Q x w) \<Longrightarrow> meets B G P (lift_res o1) Q"
  by (auto simp: meets_def ret_def throw_def lift_res_def upholds_def intro!: exI [of _ "[]"])

lemma meets_const: "meets B G P m Q \<Longrightarrow> meets B G (\<lambda>w. P w \<and> c) m (\<lambda>x w. Q x w \<and> c)"
  by (cases c) (auto simp: meets_def upholds_def, meson)

text \<open>A result is one the operation returned.\<close>

lemma meets_result:
  assumes "meets B G P m Q"
  shows "meets B G P m (\<lambda>x w. Q x w \<and> (\<exists>v v'. m v = (Ok x, v')))"
proof (rule meetsI)
  fix v r v'
  assume m: "m v = (r, v')"
  obtain cs where "extends v v' cs" "upholds B G P Q (here v) cs r" using meetsE [OF assms m] .
  moreover from this(2) m have "upholds B G P (\<lambda>x w. Q x w \<and> (\<exists>v v'. m v = (Ok x, v'))) (here v) cs r"
    by (auto simp: upholds_def)
  ultimately show "\<exists>cs. extends v v' cs
      \<and> upholds B G P (\<lambda>x w. Q x w \<and> (\<exists>v v'. m v = (Ok x, v'))) (here v) cs r" by blast
qed

lemma meets_if:
  "(c \<Longrightarrow> meets B G P m Q) \<Longrightarrow> (\<not> c \<Longrightarrow> meets B G P n Q) \<Longrightarrow> meets B G P (if c then m else n) Q"
  by simp

lemma meets_if_under:
  assumes "meets B G P m Q" "\<And>w. P w"
  shows "moves (under B G) m"
  unfolding meets_under by (rule meets_conseq [OF assms(1)]) (simp_all add: assms(2))

text \<open>One call: what others do before it keeps \<open>P\<close>, and at the world it is made in it meets its promise.\<close>

lemma meets_step:
  assumes "stable P" "\<And>a x b. G a \<Longrightarrow> P a \<Longrightarrow> c a = (x, b) \<Longrightarrow> B a b \<and> G b"
    and "\<And>a x b y. G a \<Longrightarrow> P a \<Longrightarrow> c a = (x, b) \<Longrightarrow> f x = Ok y \<Longrightarrow> Q y b"
  shows "meets B G P (\<lambda>v. case stepwise c v of (x, v') \<Rightarrow> (f x, v')) Q"
proof (rule meetsI)
  fix v r v'
  assume "(case stepwise c v of (x, v') \<Rightarrow> (f x, v')) = (r, v')"
  then obtain x where x: "stepwise c v = (x, v')" "r = f x" by (auto split: prod.splits)
  from stepwise_extends [OF x(1)] obtain a b where ab: "c a = (x, b)" "extends v v' [(a, b)]" by blast
  have "P (here v) \<Longrightarrow> B (here v) a \<Longrightarrow> P a" by (rule stableD [OF assms(1)])
  with assms(2) [OF _ _ ab(1)] assms(3) [OF _ _ ab(1)] x(2)
  have "upholds B G P Q (here v) [(a, b)] r" by (auto simp: upholds_def)
  with ab(2) show "\<exists>cs. extends v v' cs \<and> upholds B G P Q (here v) cs r" by blast
qed

lemma meets_call:
  assumes "stable P" "\<And>a x b. G a \<Longrightarrow> P a \<Longrightarrow> c a = (x, b) \<Longrightarrow> B a b \<and> G b"
    and "\<And>a b y. G a \<Longrightarrow> P a \<Longrightarrow> c a = (Inr y, b) \<Longrightarrow> Q y b"
  shows "meets B G P (call_io f (stepwise c)) Q"
  unfolding call_io_def using assms by (intro meets_step) (auto simp: of_sum_Ok_iff)

lemma meets_read:
  assumes "stable P" "\<And>a x b. G a \<Longrightarrow> P a \<Longrightarrow> c a = (x, b) \<Longrightarrow> B a b \<and> G b \<and> Q x b"
  shows "meets B G P (read_io (stepwise c)) Q"
  unfolding read_io_def using assms(2) by (intro meets_step [OF assms(1)]) auto

end

section \<open>Frames of a server called step by step\<close>

text \<open>\<open>L\<close> relates a thread before and after any step along \<open>Q\<close>.\<close>

definition steps_along :: "('w \<Rightarrow> 'w \<Rightarrow> bool) \<Rightarrow> ('w thread \<Rightarrow> 'w thread \<Rightarrow> bool) \<Rightarrow> bool" where
  "steps_along Q L \<longleftrightarrow> (\<forall>v b. Q (next_world v) b \<longrightarrow> L v (advance v b))"

lemma moves_stepwise: "steps_along Q L \<Longrightarrow> moves Q c \<Longrightarrow> moves L (stepwise c)"
  unfolding steps_along_def moves_def stepwise_def by (metis (mono_tags) case_prod_conv prod.collapse snd_conv)

lemma call_base_stepwise:
  assumes "call_base S Q" "reflp L" "transp L" "steps_along Q L"
  shows "call_base (stepwise_server S) L"
  by unfold_locales
    (rule assms(2,3)
      | simp add: stepwise_platform_def stepwise_redis_def stepwise_jwt_def stepwise_argon2_def
          stepwise_totp_def stepwise_db_def,
        rule moves_stepwise [OF assms(4)], rule call_base.frame_base_calls [OF assms(1)]
          other_base.frame_pg_statement [OF call_base.axioms(1) [OF assms(1)]], assumption?)+

lemma call_frame_stepwise:
  assumes "call_frame S Q" "reflp L" "transp L" "steps_along Q L"
  shows "call_frame (stepwise_server S) L"
  by (intro call_frame.intro call_base_stepwise [OF call_frame.axioms(1) [OF assms(1)] assms(2-4)]
      call_frame_axioms.intro)
    (simp add: stepwise_db_def, rule moves_stepwise [OF assms(4)], rule call_frame.frame_calls [OF assms(1)])

lemma stepwise_manager:
  "sm_platform (session_manager_of (stepwise_server S)) = stepwise_platform (platform_of S)"
  "sm_redis (session_manager_of (stepwise_server S)) = stepwise_redis (sv_redis (services S))"
  "sm_codec (session_manager_of (stepwise_server S)) = sv_codec (services S)"
  "session_duration_minutes (session_manager_of (stepwise_server S))
     = session_duration_minutes (session_manager_of S)"
  by (simp_all add: session_manager_of_def)

lemma service_base_stepwise:
  assumes "service_base S Q" "reflp L" "transp L" "steps_along Q L"
  shows "service_base (stepwise_server S) L"
proof -
  note kv = service_base.axioms(1) [OF assms(1)]
  show ?thesis
    by (intro service_base.intro kv_base.intro kv_base_axioms.intro service_base_axioms.intro
        call_base_stepwise [OF kv_base.axioms(1) [OF kv] assms(2-4)])
      (simp add: stepwise_redis_def, rule moves_stepwise [OF assms(4)],
        rule kv_base.frame_redis_get [OF kv] kv_base.frame_redis_del [OF kv]
          kv_base.frame_redis_scan [OF kv] service_base.frame_redis_set [OF assms(1)])+
qed

lemma kv_frame_stepwise:
  assumes "kv_frame S Q" "reflp L" "transp L" "steps_along Q L"
  shows "kv_frame (stepwise_server S) L"
  by (intro kv_frameI call_frame_stepwise [OF kv_frame.axioms(1) [OF assms(1)] assms(2-4)]
      kv_base_axioms.intro)
    (simp add: stepwise_redis_def, rule moves_stepwise [OF assms(4)],
      rule kv_base.frame_redis_get [OF kv_frame.axioms(2), OF assms(1)] kv_base.frame_redis_del [OF kv_frame.axioms(2), OF assms(1)]
        kv_base.frame_redis_scan [OF kv_frame.axioms(2), OF assms(1)])+

lemma service_frame_stepwise:
  assumes "service_frame S Q" "reflp L" "transp L" "steps_along Q L"
  shows "service_frame (stepwise_server S) L"
  by (intro service_frameI kv_frame_stepwise [OF service_frame.axioms(1) [OF assms(1)] assms(2-4)]
      service_base_axioms.intro)
    (simp add: stepwise_redis_def, rule moves_stepwise [OF assms(4)],
      rule service_base.frame_redis_set [OF service_frame.axioms(2), OF assms(1)])

lemma forward_base_stepwise:
  assumes "call_base S Q" "reflp L" "transp L" "steps_along Q L" "moves Q (req_body req)"
    and "\<And>up. moves Q (http_send (sv_http (services S)) up)"
    and "\<And>up w ur w'. http_send (sv_http (services S)) up w = (Inr ur, w') \<Longrightarrow> moves Q (ur_body ur)"
  shows "moves L (forward_upstream (stepwise_server S) (stepwise_request req))"
proof (rule call_base.inside_forward [OF call_base_stepwise [OF assms(1-4)]])
  let ?send = "\<lambda>up. map_prod (map_sum id stepwise_response) id \<circ> http_send (sv_http (services S)) up"
  have send: "http_send (sv_http (services (stepwise_server S))) up = stepwise (?send up)" for up
    by (simp add: stepwise_http_def)
  show "moves L (req_body (stepwise_request req))"
    by (simp add: moves_stepwise [OF assms(4,5)])
  fix up
  have "moves Q (?send up)" using assms(6) [of up] by (simp add: moves_def)
  then show "moves L (http_send (sv_http (services (stepwise_server S))) up)"
    unfolding send by (rule moves_stepwise [OF assms(4)])
  fix v ur v'
  assume "http_send (sv_http (services (stepwise_server S))) up v = (Inr ur, v')"
  then obtain ur0 w' where "http_send (sv_http (services S)) up (next_world v) = (Inr ur0, w')"
      "ur = stepwise_response ur0"
    unfolding send stepwise_def
    by (cases "http_send (sv_http (services S)) up (next_world v)";
        cases "fst (http_send (sv_http (services S)) up (next_world v))") auto
  then show "moves L (ur_body ur)"
    using assms(7) by (auto simp: stepwise_response_def intro: moves_stepwise [OF assms(4)])
qed

lemmas forward_stepwise = forward_base_stepwise [OF call_frame.axioms(1)]

text \<open>Three frames: what a thread guarantees, what all its steps do, and whence they start.\<close>

definition all_along :: "('w \<Rightarrow> 'w \<Rightarrow> bool) \<Rightarrow> 'w thread \<Rightarrow> 'w thread \<Rightarrow> bool" where
  "all_along Q v v' \<longleftrightarrow> (\<exists>cs. extends v v' cs \<and> (\<forall>(a, b) \<in> set cs. Q a b))"

fun scheduled :: "'w \<Rightarrow> 'w list \<Rightarrow> ('w \<times> 'w) list \<Rightarrow> bool" where
  "scheduled h us [] \<longleftrightarrow> True"
| "scheduled h [] ((a, b) # cs) \<longleftrightarrow> a = h \<and> scheduled b [] cs"
| "scheduled h (u # us) ((a, b) # cs) \<longleftrightarrow> a = u \<and> scheduled b us cs"

definition on_schedule :: "'w thread \<Rightarrow> 'w thread \<Rightarrow> bool" where
  "on_schedule v v' \<longleftrightarrow> (\<exists>cs. extends v v' cs \<and> scheduled (here v) (schedule v) cs
     \<and> schedule v' = drop (length cs) (schedule v))"

lemma all_along_preorder: "reflp (all_along Q)" "transp (all_along Q)"
proof -
  show "reflp (all_along Q)" by (auto simp: reflp_def all_along_def intro!: exI [of _ "[]"])
  show "transp (all_along Q)"
    by (rule transpI) (auto simp: all_along_def dest: extends_trans, metis (no_types) Un_iff extends_trans set_append)
qed

lemma all_along_steps: "steps_along Q (all_along Q)"
  unfolding steps_along_def all_along_def using extends_advance by fastforce

lemma all_along_any: "all_along (\<lambda>_ _. True) v v' \<longleftrightarrow> (\<exists>cs. extends v v' cs)"
  by (simp add: all_along_def)

text \<open>Any operation of the server adds steps to a thread.\<close>

lemma any_service_frame: "service_frame S (\<lambda>_ _. True)"
  by unfold_locales (simp_all add: reflp_def transp_def moves_def)

lemmas adds_steps = service_frame_stepwise [OF any_service_frame all_along_preorder all_along_steps]

lemma scheduled_append:
  "scheduled h us cs \<Longrightarrow> scheduled (ends_at h cs) (drop (length cs) us) ds \<Longrightarrow> scheduled h us (cs @ ds)"
  by (induction h us cs rule: scheduled.induct) auto

lemma on_schedule_preorder:
  "reflp (on_schedule :: 'w thread \<Rightarrow> _)" "transp (on_schedule :: 'w thread \<Rightarrow> _)"
proof -
  show "reflp (on_schedule :: 'w thread \<Rightarrow> _)" by (auto simp: reflp_def on_schedule_def intro!: exI [of _ "[]"])
  show "transp (on_schedule :: 'w thread \<Rightarrow> _)"
  proof (rule transpI)
    fix u v w :: "'w thread"
    assume "on_schedule u v" "on_schedule v w"
    then obtain cs ds where cs: "extends u v cs" "scheduled (here u) (schedule u) cs"
        "schedule v = drop (length cs) (schedule u)"
      and ds: "extends v w ds" "scheduled (here v) (schedule v) ds"
        "schedule w = drop (length ds) (schedule v)"
      by (auto simp: on_schedule_def)
    have "scheduled (here u) (schedule u) (cs @ ds)"
      using cs ds(2) by (intro scheduled_append) (simp_all add: extends_def)
    with extends_trans [OF cs(1) ds(1)] show "on_schedule u w"
      using cs(3) ds(3) by (auto simp: on_schedule_def add.commute)
  qed
qed

lemma on_schedule_steps: "steps_along (\<lambda>_ _. True) on_schedule"
  unfolding steps_along_def
proof (intro allI impI)
  fix v :: "'w thread" and b
  have "scheduled (here v) (schedule v) [(next_world v, b)]"
    by (cases "schedule v") (simp_all add: next_world_def)
  moreover have "schedule (advance v b) = drop 1 (schedule v)"
    by (simp add: advance_def drop_Suc)
  ultimately show "on_schedule v (advance v b)"
    unfolding on_schedule_def by (intro exI [of _ "[(next_world v, b)]"]) (simp add: extends_advance)
qed

context rely_guarantee begin

lemma under_steps: "steps_along keeping (under B G)"
  unfolding steps_along_def under_def keeping_def using extends_advance by fastforce

end

section \<open>What interleaved threads keep\<close>

lemma run_ofE:
  assumes "run_of m w cs" "moves (under B G) m" "G w"
  shows "guards B G w cs"
proof -
  obtain sched where t: "take (length cs) (taken (snd (m (start_thread w sched)))) = cs"
    using assms(1) by (auto simp: run_of_def)
  have "under B G (start_thread w sched) (snd (m (start_thread w sched)))"
    using assms(2) by (simp add: moves_def)
  with assms(3) have "guards B G w (taken (snd (m (start_thread w sched))))"
    by (auto simp: under_def extends_def start_thread_def)
  with t show ?thesis by (metis append_take_drop_id guards_append)
qed

context rely_guarantee begin

lemma relied_thread:
  assumes "connected E w p" "\<And>w w'. E w w' \<Longrightarrow> keeping w w'"
    and "\<forall>(j, a, b) \<in> set p. B a b \<and> G b" "B h w" "G w"
  shows "relied B G h (steps_of i p) \<and> B (ends_at h (steps_of i p)) (last_world w p) \<and> G (last_world w p)"
  using assms(1,3-)
proof (induction p arbitrary: h w)
  case (Cons s p)
  obtain j a b where s: "s = (j, a, b)" by (cases s)
  have a: "B h a" "G a" "B a b" "G b" "B h b"
    using Cons.prems assms(2) [of w a] B_trans unfolding s by (auto simp: keeping_def dest: transpD)
  have rest: "connected E b p" "\<forall>(j, a, b) \<in> set p. B a b \<and> G b" "B b b"
    using Cons.prems B_refl unfolding s by (auto simp: reflpD)
  show ?case
    using a Cons.IH [OF rest(1,2) a(5,4)] Cons.IH [OF rest a(4)] by (simp add: s)
qed simp

theorem interleaving_keeps:
  assumes "interleaving m E w tr" "\<And>i. moves (under B G) (m i)"
    and "\<And>w w'. E w w' \<Longrightarrow> keeping w w'" "G w" "(i, a, b) \<in> set tr"
  shows "B w a \<and> G a \<and> B a b \<and> G b"
proof -
  have con: "connected E w tr" and run: "\<And>i. run_of (m i) w (steps_of i tr)"
    using assms(1) by (simp_all add: interleaving_def)
  have "\<forall>(i, a, b) \<in> set p. B w a \<and> G a \<and> B a b \<and> G b" if "tr = p @ q" for p q
    using that
  proof (induction p arbitrary: q rule: rev_induct)
    case (snoc s p)
    obtain i a b where s: "s = (i, a, b)" by (cases s)
    have IH: "\<forall>(i, a, b) \<in> set p. B w a \<and> G a \<and> B a b \<and> G b"
      using snoc.IH [of "s # q"] snoc.prems by simp
    have st: "steps_of i tr = steps_of i p @ (a, b) # steps_of i q"
      using snoc.prems s by simp
    have "connected E w p" "E (last_world w p) a" using con snoc.prems s by auto
    note e = assms(3) [OF this(2)]
    have "\<forall>(j, a, b) \<in> set p. B a b \<and> G b" using IH by blast
    note r = relied_thread [OF \<open>connected E w p\<close> assms(3) this _ assms(4)]
    have r1: "relied B G w (steps_of j p) \<and> B (ends_at w (steps_of j p)) (last_world w p) \<and> G (last_world w p)" for j
      using r [of w j] B_refl by (simp add: reflpD)
    have a: "B (ends_at w (steps_of i p)) a" "G a"
      using r1 [of i] e B_trans by (auto simp: keeping_def dest: transpD)
    have g: "guards B G w (steps_of i tr)" using run assms(2,4) by (rule run_ofE)
    have "B w (ends_at w (steps_of i p))"
      using guarded_end [of w "steps_of i p"] g r1 [of i] assms(4) unfolding st by auto
    with a g r1 [of i] have "B w a \<and> G a \<and> B a b \<and> G b"
      using B_trans unfolding st by (auto dest: transpD)
    with IH show ?case by (simp add: s)
  qed simp
  from this [of tr "[]"] assms(5) show ?thesis by auto
qed

end

end
