(* ===== verification/Simulation.thy ===== *)
theory Simulation
  imports Handlers
begin

text \<open>
  The proxy sees the world only through its services. If two servers have services that answer alike
  along a relation \<open>W\<close> of their worlds, a request does the same in both: every operation, from the
  calls up to \<open>handle_request\<close>, is parametric in the world.
\<close>

abbreviation same_run :: "('v \<Rightarrow> 'w \<Rightarrow> bool) \<Rightarrow> ('v \<Rightarrow> 'r \<times>
    'v) \<Rightarrow> ('w \<Rightarrow> 'r \<times> 'w) \<Rightarrow> bool" where
  "same_run W \<equiv> rel_fun W (rel_prod (=) W)"

abbreviation same_io ::
  "('v \<Rightarrow> 'w \<Rightarrow> bool) \<Rightarrow> ('a \<Rightarrow> 'b \<Rightarrow> bool)
      \<Rightarrow> ('v, 'e, 'a) io \<Rightarrow> ('w, 'e, 'b) io \<Rightarrow> bool" where
  "same_io W A \<equiv> rel_fun W (rel_prod (rel_outcome (=) A) W)"

text \<open>For equal arguments.\<close>

abbreviation given :: "('b \<Rightarrow> 'c \<Rightarrow> bool) \<Rightarrow> ('a \<Rightarrow> 'b) \<Rightarrow> ('a \<Rightarrow> 'c) \<Rightarrow> bool" where
  "given B \<equiv> rel_fun (=) B"

lemma of_sum_transfer [transfer_rule]: "given (rel_fun (rel_sum (=) A) (rel_outcome (=) A)) of_sum of_sum"
  unfolding of_sum_def by transfer_prover

lemma effects_transfer [transfer_rule]:
  "rel_fun A (same_io W A) ret ret" "given (same_io W A) throw throw"
  "rel_fun (same_io W A) (rel_fun (rel_fun A (same_io W B)) (same_io W B)) bind_io bind_io"
  "rel_fun (rel_outcome (=) A) (same_io W A) lift_res lift_res"
  "given (rel_fun (rel_fun W (rel_prod (rel_sum (=) A) W)) (same_io W A)) call_io call_io"
  "rel_fun (same_run W) (same_io W (=)) read_io read_io"
  "rel_fun (same_io W A) (same_io W (=)) discard discard"
  "rel_fun (same_io W A) (rel_fun A (same_io W A)) unwrap_or_io unwrap_or_io"
  "given (given (same_io W (=))) guard_io guard_io"
  unfolding ret_def throw_def bind_io_def lift_res_def call_io_def read_io_def discard_def
    unwrap_or_io_def guard_io_def
  by transfer_prover+

text \<open>Services that answer alike: from related worlds with the same answer, into related worlds.\<close>

definition platform_rel :: "('v \<Rightarrow> 'w \<Rightarrow> bool) \<Rightarrow> 'v platform \<Rightarrow> 'w
    platform \<Rightarrow> bool" where
  "platform_rel W P Q \<longleftrightarrow> same_run W (utc_now P) (utc_now Q) \<and> same_run W (uuid_v4 P)
      (uuid_v4 Q)
     \<and> sha256_hex P = sha256_hex Q \<and> parse_uuid P = parse_uuid Q \<and> parse_ip P = parse_ip Q"

definition redis_rel :: "('v \<Rightarrow> 'w \<Rightarrow> bool) \<Rightarrow> 'v redis \<Rightarrow> 'w redis
    \<Rightarrow> bool" where
  "redis_rel W P Q \<longleftrightarrow> (\<forall>k. same_run W (redis_get P k) (redis_get Q k))
     \<and> (\<forall>k x ttl. same_run W (redis_set_ex P k x ttl) (redis_set_ex Q k x ttl))
     \<and> (\<forall>k. same_run W (redis_del P k) (redis_del Q k))
     \<and> (\<forall>k. same_run W (redis_scan_match P k) (redis_scan_match Q k))
     \<and> (\<forall>k n. same_run W (redis_incr P k n) (redis_incr Q k n))
     \<and> (\<forall>k n. same_run W (redis_expire P k n) (redis_expire Q k n))"

definition jwt_rel :: "('v \<Rightarrow> 'w \<Rightarrow> bool) \<Rightarrow> 'v jwt_lib \<Rightarrow> 'w
    jwt_lib \<Rightarrow> bool" where
  "jwt_rel W P Q \<longleftrightarrow> jwt_encode P = jwt_encode Q
     \<and> (\<forall>sec tok. same_run W (jwt_decode P sec tok) (jwt_decode Q sec tok))"

definition argon2_rel :: "('v \<Rightarrow> 'w \<Rightarrow> bool) \<Rightarrow> 'v argon2 \<Rightarrow> 'w
    argon2 \<Rightarrow> bool" where
  "argon2_rel W P Q \<longleftrightarrow> same_run W (a2_salt P) (a2_salt Q) \<and> a2_hash P = a2_hash Q
     \<and> a2_parse P = a2_parse Q \<and> a2_matches P = a2_matches Q"

definition totp_rel :: "('v \<Rightarrow> 'w \<Rightarrow> bool) \<Rightarrow> 'v totp_lib \<Rightarrow> 'w
    totp_lib \<Rightarrow> bool" where
  "totp_rel W P Q \<longleftrightarrow> (\<forall>n. same_run W (gen_range P n) (gen_range Q n))
     \<and> base32_decode P = base32_decode Q \<and> totp_validate P = totp_validate Q
     \<and> (\<forall>t c. same_run W (totp_check_current P t c) (totp_check_current Q t c))"

definition db_rel :: "('v \<Rightarrow> 'w \<Rightarrow> bool) \<Rightarrow> ('v, 'j) postgres \<Rightarrow>
    ('w, 'j) postgres \<Rightarrow> bool" where
  "db_rel W P Q \<longleftrightarrow>
     (\<forall>q vs. same_run W (pg_fetch_optional_user P q vs) (pg_fetch_optional_user Q q vs))
     \<and> (\<forall>q vs. same_run W (pg_fetch_one_user P q vs) (pg_fetch_one_user Q q vs))
     \<and> (\<forall>q vs. same_run W (pg_fetch_optional_device P q vs) (pg_fetch_optional_device Q q vs))
     \<and> (\<forall>q vs. same_run W (pg_execute P q vs) (pg_execute Q q vs))"

definition response_rel ::
  "('v \<Rightarrow> 'w \<Rightarrow> bool) \<Rightarrow> 'v upstream_response \<Rightarrow> 'w
      upstream_response \<Rightarrow> bool" where
  "response_rel W P Q \<longleftrightarrow> ur_status P = ur_status Q \<and> ur_headers P = ur_headers Q
     \<and> same_run W (ur_body P) (ur_body Q)"

definition http_rel :: "('v \<Rightarrow> 'w \<Rightarrow> bool) \<Rightarrow> 'v http \<Rightarrow> 'w http
    \<Rightarrow> bool" where
  "http_rel W P Q \<longleftrightarrow> header_to_str P = header_to_str Q \<and> parse_uri P = parse_uri Q
     \<and> builder_accepts P = builder_accepts Q
     \<and> (\<forall>r. (rel_fun W (rel_prod (rel_sum (=) (response_rel W)) W)) (http_send P r) (http_send Q r))"

definition request_rel :: "('v \<Rightarrow> 'w \<Rightarrow> bool) \<Rightarrow> 'v request \<Rightarrow> 'w
    request \<Rightarrow> bool" where
  "request_rel W P Q \<longleftrightarrow> req_method P = req_method Q \<and> req_path P = req_path Q
     \<and> req_path_and_query P = req_path_and_query Q \<and> req_headers P = req_headers Q
     \<and> same_run W (req_body P) (req_body Q)"

definition services_rel :: "('v \<Rightarrow> 'w \<Rightarrow> bool) \<Rightarrow> 'v services \<Rightarrow> 'w
    services \<Rightarrow> bool" where
  "services_rel W P Q \<longleftrightarrow> platform_rel W (sv_platform P) (sv_platform Q)
     \<and> redis_rel W (sv_redis P) (sv_redis Q) \<and> sv_codec P = sv_codec Q \<and> jwt_rel W (sv_jwt P)
         (sv_jwt Q)
     \<and> argon2_rel W (sv_argon2 P) (sv_argon2 Q) \<and> totp_rel W (sv_totp P) (sv_totp Q)
     \<and> db_rel W (sv_db P) (sv_db Q) \<and> http_rel W (sv_http P) (sv_http Q) \<and> sv_json P = sv_json Q
     \<and> sv_login_body P = sv_login_body Q \<and> sv_register_body P = sv_register_body Q
     \<and> sv_mfa_verify_body P = sv_mfa_verify_body Q"

text \<open>Servers that differ in their services only.\<close>

definition server_rel :: "('v \<Rightarrow> 'w \<Rightarrow> bool) \<Rightarrow> 'v proxy_server \<Rightarrow>
    'w proxy_server \<Rightarrow> bool" where
  "server_rel W P Q \<longleftrightarrow> services_rel W (services P) (services Q) \<and> config P = config Q
     \<and> jwt_manager P = jwt_manager Q \<and> policy_engine P = policy_engine Q \<and> risk_engine P =
         risk_engine Q"

lemma server_transfer [transfer_rule]:
  "rel_fun (server_rel W) (services_rel W) services services"
  "rel_fun (server_rel W) (=) config config"
  "rel_fun (server_rel W) (=) jwt_manager jwt_manager"
  "rel_fun (server_rel W) (=) policy_engine policy_engine"
  "rel_fun (server_rel W) (=) risk_engine risk_engine"
  "rel_fun (services_rel W) (platform_rel W) sv_platform sv_platform"
  "rel_fun (services_rel W) (redis_rel W) sv_redis sv_redis"
  "rel_fun (services_rel W) (=) sv_codec sv_codec"
  "rel_fun (services_rel W) (jwt_rel W) sv_jwt sv_jwt"
  "rel_fun (services_rel W) (argon2_rel W) sv_argon2 sv_argon2"
  "rel_fun (services_rel W) (totp_rel W) sv_totp sv_totp"
  "rel_fun (services_rel W) (db_rel W) sv_db sv_db"
  "rel_fun (services_rel W) (http_rel W) sv_http sv_http"
  "rel_fun (services_rel W) (=) sv_json sv_json"
  "rel_fun (services_rel W) (=) sv_login_body sv_login_body"
  "rel_fun (services_rel W) (=) sv_register_body sv_register_body"
  "rel_fun (services_rel W) (=) sv_mfa_verify_body sv_mfa_verify_body"
  by (rule rel_funI, simp add: server_rel_def services_rel_def)+

lemma calls_transfer [transfer_rule]:
  "rel_fun (platform_rel W) (same_run W) utc_now utc_now"
  "rel_fun (platform_rel W) (same_run W) uuid_v4 uuid_v4"
  "rel_fun (platform_rel W) (=) sha256_hex sha256_hex"
  "rel_fun (platform_rel W) (=) parse_uuid parse_uuid"
  "rel_fun (platform_rel W) (=) parse_ip parse_ip"
  "rel_fun (redis_rel W) (given (same_run W)) redis_get redis_get"
  "rel_fun (redis_rel W) (given (given (given (same_run W)))) redis_set_ex redis_set_ex"
  "rel_fun (redis_rel W) (given (same_run W)) redis_del redis_del"
  "rel_fun (redis_rel W) (given (same_run W)) redis_scan_match redis_scan_match"
  "rel_fun (redis_rel W) (given (given (same_run W))) redis_incr redis_incr"
  "rel_fun (redis_rel W) (given (given (same_run W))) redis_expire redis_expire"
  "rel_fun (jwt_rel W) (=) jwt_encode jwt_encode"
  "rel_fun (jwt_rel W) (given (given (same_run W))) jwt_decode jwt_decode"
  "rel_fun (argon2_rel W) (same_run W) a2_salt a2_salt"
  "rel_fun (argon2_rel W) (=) a2_hash a2_hash"
  "rel_fun (argon2_rel W) (=) a2_parse a2_parse"
  "rel_fun (argon2_rel W) (=) a2_matches a2_matches"
  "rel_fun (totp_rel W) (given (same_run W)) gen_range gen_range"
  "rel_fun (totp_rel W) (=) base32_decode base32_decode"
  "rel_fun (totp_rel W) (=) totp_validate totp_validate"
  "rel_fun (totp_rel W) (given (given (same_run W))) totp_check_current totp_check_current"
  "rel_fun (db_rel W) (given (given (same_run W))) pg_fetch_optional_user pg_fetch_optional_user"
  "rel_fun (db_rel W) (given (given (same_run W))) pg_fetch_one_user pg_fetch_one_user"
  "rel_fun (db_rel W) (given (given (same_run W))) pg_fetch_optional_device pg_fetch_optional_device"
  "rel_fun (db_rel W) (given (given (same_run W))) pg_execute pg_execute"
  by (rule rel_funI, simp add: platform_rel_def redis_rel_def jwt_rel_def argon2_rel_def totp_rel_def
      db_rel_def rel_fun_def [of "(=)"])+

lemma http_transfer [transfer_rule]:
  "rel_fun (http_rel W) (=) header_to_str header_to_str"
  "rel_fun (http_rel W) (=) parse_uri parse_uri"
  "rel_fun (http_rel W) (=) builder_accepts builder_accepts"
  "rel_fun (http_rel W) (given (rel_fun W (rel_prod (rel_sum (=) (response_rel W)) W))) http_send http_send"
  "rel_fun (request_rel W) (=) req_method req_method"
  "rel_fun (request_rel W) (=) req_path req_path"
  "rel_fun (request_rel W) (=) req_path_and_query req_path_and_query"
  "rel_fun (request_rel W) (=) req_headers req_headers"
  "rel_fun (request_rel W) (same_run W) req_body req_body"
  "rel_fun (response_rel W) (=) ur_status ur_status"
  "rel_fun (response_rel W) (=) ur_headers ur_headers"
  "rel_fun (response_rel W) (same_run W) ur_body ur_body"
  by (rule rel_funI, simp add: http_rel_def request_rel_def response_rel_def rel_fun_def [of "(=)"])+

lemma device_transfer [transfer_rule]:
  "rel_fun (platform_rel W) (given (given (given (given (same_run W))))) new_device new_device"
  "rel_fun (platform_rel W) (given (same_run W)) update_last_seen update_last_seen"
  "rel_fun (platform_rel W) (given (same_run W)) calculate_device_risk calculate_device_risk"
  "rel_fun (platform_rel W) (given (given (same_io W (=)))) calculate_risk calculate_risk"
  unfolding new_device_def update_last_seen_def calculate_device_risk_def calculate_risk_def
  by transfer_prover+


lemma audit_transfer [transfer_rule]:
  "rel_fun (platform_rel W) (given (given (given (given (given (given
      (given (same_run W))))))))
     new_event new_event"
  "rel_fun (platform_rel W) (given (same_run W)) parse_or_fresh parse_or_fresh"
  "rel_fun (platform_rel W) (given (given (=))) audit_binds audit_binds"
  unfolding new_event_def parse_or_fresh_def audit_binds_def
  by transfer_prover+

lemma log_event_transfer [transfer_rule]:
  "rel_fun (platform_rel W) (rel_fun (db_rel W) (given (same_io W (=)))) log_event log_event"
  unfolding log_event_def by transfer_prover

lemma logs_transfer [transfer_rule]:
  "rel_fun (platform_rel W) (rel_fun (db_rel W) (given (given (given (given (same_io W
      (=)))))))
     log_authentication log_authentication"
  "rel_fun (platform_rel W) (rel_fun (db_rel W) (given (given (given (given (given (given (same_io W (=)))))))))
     log_authorization log_authorization"
  "rel_fun (platform_rel W) (rel_fun (db_rel W) (given (given (given (given (given (same_io W (=))))))))
     log_risk_evaluation log_risk_evaluation"
  unfolding log_authentication_def log_authorization_def log_risk_evaluation_def
  by transfer_prover+

lemma token_transfer [transfer_rule]:
  "rel_fun (platform_rel W) (rel_fun (jwt_rel W) (given (given (given (given (given (given (same_io W (=)))))))))
     generate_token generate_token"
  "rel_fun (jwt_rel W) (given (given (same_io W (=)))) validate_token validate_token"
  "rel_fun (argon2_rel W) (given (same_io W (=))) hash_password hash_password"
  "rel_fun (argon2_rel W) (given (given (=))) verify_password verify_password"
  unfolding generate_token_def validate_token_def hash_password_def verify_password_def
  by transfer_prover+

lemma random_chars_transfer [transfer_rule]:
  "rel_fun (totp_rel W) (given (same_io W (=))) random_chars random_chars"
  unfolding random_chars_def by transfer_prover

lemma totp_transfer [transfer_rule]:
  "rel_fun (totp_rel W) (given (given (=))) new_totp new_totp"
  "rel_fun (totp_rel W) (same_io W (=)) generate_secret generate_secret"
  "rel_fun (totp_rel W) (given (given (given (same_io W (=))))) verify_token verify_token"
  unfolding new_totp_def generate_secret_def verify_token_def
  by transfer_prover+

lemma db_transfer [transfer_rule]:
  "rel_fun (db_rel W) (given (same_io W (=))) find_user_by_username find_user_by_username"
  "rel_fun (db_rel W) (given (same_io W (=))) find_user_by_id find_user_by_id"
  "rel_fun (db_rel W) (given (given (given (same_io W (=))))) create_user create_user"
  "rel_fun (db_rel W) (given (given (same_io W (=)))) set_user_mfa_secret set_user_mfa_secret"
  "rel_fun (db_rel W) (given (given (same_io W (=)))) find_device_by_fingerprint find_device_by_fingerprint"
  "rel_fun (db_rel W) (given (given (given (given (given (given (given (given (same_io W (=))))))))))
     upsert_device upsert_device"
  unfolding find_user_by_username_def find_user_by_id_def create_user_def set_user_mfa_secret_def
    find_device_by_fingerprint_def upsert_device_def
  by transfer_prover+


section \<open>Sessions\<close>

definition manager_rel :: "('v \<Rightarrow> 'w \<Rightarrow> bool) \<Rightarrow> 'v session_manager
    \<Rightarrow> 'w session_manager \<Rightarrow> bool" where
  "manager_rel W P Q \<longleftrightarrow> platform_rel W (sm_platform P) (sm_platform Q)
     \<and> redis_rel W (sm_redis P) (sm_redis Q) \<and> sm_codec P = sm_codec Q
     \<and> session_duration_minutes P = session_duration_minutes Q"

lemma manager_transfer [transfer_rule]:
  "rel_fun (manager_rel W) (platform_rel W) sm_platform sm_platform"
  "rel_fun (manager_rel W) (redis_rel W) sm_redis sm_redis"
  "rel_fun (manager_rel W) (=) sm_codec sm_codec"
  "rel_fun (manager_rel W) (=) session_duration_minutes session_duration_minutes"
  "rel_fun (server_rel W) (manager_rel W) session_manager_of session_manager_of"
  by (rule rel_funI, simp add: manager_rel_def session_manager_of_def server_rel_def services_rel_def)+

lemma session_transfer [transfer_rule]:
  "rel_fun (platform_rel W) (given (given (given (given (given (same_io W (=))))))) new_session new_session"
  "rel_fun (platform_rel W) (given (same_run W)) is_expired is_expired"
  "rel_fun (platform_rel W) (given (same_run W)) update_activity update_activity"
  "rel_fun (manager_rel W) (given (same_io W (=))) serialize_session serialize_session"
  "rel_fun (manager_rel W) (given (same_io W (=))) delete_session delete_session"
  "rel_fun (manager_rel W) (given (same_run W)) get_or_skip get_or_skip"
  "rel_fun (manager_rel W) (same_io W (=)) scan_session_keys scan_session_keys"
  unfolding new_session_def is_expired_def update_activity_def serialize_session_def delete_session_def
    get_or_skip_def scan_session_keys_def
  by transfer_prover+

lemma write_transfer [transfer_rule]:
  "rel_fun (manager_rel W) (given (given (given (given (same_io W (=)))))) create_session create_session"
  "rel_fun (manager_rel W) (given (same_io W (=))) update_session update_session"
  unfolding create_session_def update_session_def by transfer_prover+

lemma get_transfer [transfer_rule]:
  "rel_fun (manager_rel W) (given (same_io W (=))) get_session get_session"
  unfolding get_session_def by transfer_prover

lemma collect_run:
  assumes [transfer_rule]: "manager_rel W N M"
  shows "same_io W (=) (collect_sessions N user ks acc) (collect_sessions M user ks acc)"
proof (induction ks arbitrary: acc)
  case Nil
  show ?case unfolding collect_sessions.simps by transfer_prover
next
  case (Cons k ks)
  define f g where "f = collect_sessions N user ks" and "g = collect_sessions M user ks"
  have [transfer_rule]: "given (same_io W (=)) f g"
    using Cons.IH by (simp add: rel_fun_def f_def g_def)
  show ?case unfolding collect_sessions.simps f_def [symmetric] g_def [symmetric] by transfer_prover
qed

lemma delete_run:
  assumes [transfer_rule]: "manager_rel W N M"
  shows "same_io W (=) (delete_sessions N ss) (delete_sessions M ss)"
proof (induction ss)
  case Nil
  show ?case unfolding delete_sessions.simps by transfer_prover
next
  case (Cons s ss)
  define f g where "f = delete_sessions N ss" and "g = delete_sessions M ss"
  have [transfer_rule]: "same_io W (=) f g"
    using Cons.IH unfolding f_def g_def .
  show ?case unfolding delete_sessions.simps f_def [symmetric] g_def [symmetric] by transfer_prover
qed

lemma loops_transfer [transfer_rule]:
  "rel_fun (manager_rel W) (given (given (given (same_io W (=))))) collect_sessions collect_sessions"
  "rel_fun (manager_rel W) (given (same_io W (=))) delete_sessions delete_sessions"
  by (intro rel_funI, simp only:, erule rel_funD [OF collect_run], assumption)
    (intro rel_funI, simp only:, erule rel_funD [OF delete_run], assumption)

lemma revoke_transfer [transfer_rule]:
  "rel_fun (manager_rel W) (given (same_io W (=))) revoke_user_sessions revoke_user_sessions"
  unfolding revoke_user_sessions_def get_user_sessions_def by transfer_prover

section \<open>Requests\<close>

lemma request_transfer [transfer_rule]:
  "rel_fun (http_rel W) (rel_fun (request_rel W) (given (=))) header_text header_text"
  "rel_fun (same_run W) (same_io W (=)) collect_body collect_body"
  unfolding header_text_def collect_body_def by transfer_prover+

lemma gate_transfer [transfer_rule]:
  "rel_fun (server_rel W) (rel_fun (request_rel W) (same_io W (=))) bearer_claims bearer_claims"
  "rel_fun (server_rel W) (given (given (given (given (same_io W (=)))))) check_rate_limit check_rate_limit"
  "rel_fun (server_rel W) (given (given (given (same_run W)))) request_device request_device"
  "rel_fun (server_rel W) (given (given (given (given (given (given
      (same_io W (=))))))))
     audit_authorization audit_authorization"
  "rel_fun (server_rel W) (rel_fun (request_rel W) (given (given (=)))) upstream_request_of upstream_request_of"
  unfolding bearer_claims_def check_rate_limit_def request_device_def audit_authorization_def
      upstream_request_of_def
  by transfer_prover+

lemma request_risk_transfer [transfer_rule]:
  "rel_fun (server_rel W) (given (given (given (same_io W (=))))) evaluate_request_risk evaluate_request_risk"
  unfolding evaluate_request_risk_def by transfer_prover

lemma case_recommendation_transfer [transfer_rule]:
  "rel_fun A (rel_fun A (rel_fun A (given A))) case_risk_recommendation case_risk_recommendation"
  by (auto simp: rel_fun_def split: risk_recommendation.split)

lemma authorize_risk_transfer [transfer_rule]:
  "rel_fun (server_rel W) (given (given (given (given (given (same_io W (=))))))) authorize_risk authorize_risk"
  unfolding authorize_risk_def by transfer_prover

lemma authorize_transfer [transfer_rule]:
  "rel_fun (server_rel W) (rel_fun (request_rel W) (given (given (given (same_io W (=)))))) authorize authorize"
  unfolding authorize_def by transfer_prover

lemma forward_transfer [transfer_rule]:
  "rel_fun (server_rel W) (rel_fun (request_rel W) (same_io W (=))) forward_upstream forward_upstream"
  unfolding forward_upstream_def by transfer_prover


section \<open>Handlers\<close>

lemma user_transfer [transfer_rule]:
  "rel_fun (server_rel W) (given (same_io W (=))) find_active_user find_active_user"
  "rel_fun (server_rel W) (given (given (given (same_io W (=))))) login_device login_device"
  "rel_fun (server_rel W) (given (given (given (same_io W (=))))) store_device store_device"
  "rel_fun (server_rel W) (given (given (given (given (same_io W (=)))))) audit_login audit_login"
  "rel_fun (server_rel W) (given (given (same_io W (=)))) login_mfa login_mfa"
  "rel_fun (server_rel W) (given (given (given (same_io W (=))))) login_risk login_risk"
  "rel_fun (server_rel W) (given (same_run W)) fresh_device_id fresh_device_id"
  "rel_fun (server_rel W) (given (same_io W (=))) user_of_claims user_of_claims"
  unfolding find_active_user_def login_device_def store_device_def audit_login_def login_mfa_def login_risk_def
    fresh_device_id_def user_of_claims_def
  by transfer_prover+

lemma login_step_transfer [transfer_rule]:
  "rel_fun (server_rel W) (given (given (given (given (same_io W (=)))))) reject_password reject_password"
  "rel_fun (server_rel W) (given (given (given (given (same_io W (=)))))) record_device record_device"
  "rel_fun (server_rel W) (given (given (given (given (given (given
      (same_io W (=)))))))) open_session open_session"
  unfolding reject_password_def record_device_def open_session_def by transfer_prover+

lemma handler_transfer [transfer_rule]:
  "rel_fun (server_rel W) (rel_fun (request_rel W) (given (same_io W (=)))) handle_login handle_login"
  "rel_fun (server_rel W) (rel_fun (request_rel W) (given (same_io W (=)))) handle_register handle_register"
  "rel_fun (server_rel W) (rel_fun (request_rel W) (same_io W (=))) handle_mfa_enroll handle_mfa_enroll"
  "rel_fun (server_rel W) (rel_fun (request_rel W) (given (same_io W (=)))) handle_mfa_verify handle_mfa_verify"
  "rel_fun (server_rel W) (rel_fun (request_rel W) (same_io W (=))) handle_logout handle_logout"
  "rel_fun (server_rel W) (rel_fun (request_rel W) (same_io W (=))) handle_logout_all handle_logout_all"
  unfolding handle_login_def handle_register_def handle_mfa_enroll_def handle_mfa_verify_def
    handle_logout_def handle_logout_all_def
  by transfer_prover+

lemma route_transfer [transfer_rule]:
  "rel_fun (server_rel W) (rel_fun (request_rel W) (given (same_io W (=)))) route route"
  unfolding route_def by transfer_prover

lemma handle_transfer [transfer_rule]:
  "rel_fun (server_rel W) (rel_fun (request_rel W) (given (same_io W (=)))) handle_request handle_request"
  unfolding handle_request_def by transfer_prover

end
