(* ===== verification/Quiet_Services.thy ===== *)
theory Quiet_Services
  imports Frame
begin

text \<open>
  \<open>quiet_services S ent tm\<close>: the session manager's services keep their laws, and no other call of the
  server touches what Redis stores under string keys. Every preorder that allows this stillness is then a
  \<open>call_frame\<close>.
\<close>

section \<open>Runs\<close>

inductive served :: "'w proxy_server \<Rightarrow> ('w \<Rightarrow> 'w \<Rightarrow> bool) \<Rightarrow> 'w \<Rightarrow> 'w \<Rightarrow> bool"
  for S :: "'w proxy_server" and E :: "'w \<Rightarrow> 'w \<Rightarrow> bool"
where
  started: "served S E w w"
| request: "served S E w w1 \<Longrightarrow> moves E (req_body req) \<Longrightarrow> handle_request S req ip w1 = (r, w2)
    \<Longrightarrow> served S E w w2"
| environment: "served S E w w1 \<Longrightarrow> E w1 w2 \<Longrightarrow> served S E w w2"

section \<open>Calls that leave the sessions alone\<close>

lemma manager_parts:
  "sm_platform (session_manager_of S) = platform_of S"
  "sm_redis (session_manager_of S) = sv_redis (services S)"
  by (simp_all add: session_manager_of_def)

locale quiet_services =
  session_services "session_manager_of S" ent tm + qc: call_frame S "quiet ent tm"
  for S :: "'w proxy_server" and ent and tm +
  assumes upstream_quiet: "moves (quiet ent tm) (http_send (sv_http (services S)) up)"
    and upstream_body_quiet: "http_send (sv_http (services S)) up w = (Inr ur, w') \<Longrightarrow>
      moves (quiet ent tm) (ur_body ur)"
begin

lemma calls_framed_by:
  assumes "reflp R" "transp R" "\<And>w w'. quiet ent tm w w' \<Longrightarrow> R w w'"
  shows "call_frame S R"
  by unfold_locales (rule assms(1,2) | rule moves_weaken, rule qc.frame_calls, erule assms(3))+

lemma forward_framed_by:
  assumes "reflp R" "transp R" "\<And>w w'. quiet ent tm w w' \<Longrightarrow> R w w'"
    and "moves (quiet ent tm) (req_body req)"
  shows "moves R (forward_upstream S req)"
  using moves_weaken [OF qc.inside_forward [OF assms(4) upstream_quiet upstream_body_quiet] assms(3)] .

end

lemma ref_store_calls: "call_frame (ref_server c) (\<lambda>w w'. strings w' = strings w \<and> clock w' = clock w)"
proof -
  have user: "snd (ref_select_user q vs w) = w" for q vs w
    by (auto simp: ref_select_user_def Let_def split: list.splits sql_value.splits)
  have exec: "strings (snd (ref_execute q vs w)) = strings w \<and> clock (snd (ref_execute q vs w)) = clock w"
    for q vs w
    by (auto simp: ref_execute_def Let_def split: list.splits sql_value.splits)
  show ?thesis
    by unfold_locales
      (auto simp: reflp_def transp_def moves_def ref_server_def
        new_proxy_server_def ref_services_def ref_platform_def ref_redis_def ref_expire_def ref_jwt_def
        ref_argon2_def ref_totp_def ref_postgres_def ref_insert_user_def Let_def user exec
        split: option.splits list.splits sql_value.splits)
qed

lemma ref_quiet_calls: "call_frame (ref_server c) (quiet ref_entries clock)"
  by unfold_locales
    (rule reflp_quiet transp_quiet
      | rule moves_weaken, rule call_frame.frame_calls [OF ref_store_calls],
        simp add: quiet_def ref_entries_def)+

interpretation ref_quiet: quiet_services "ref_server c" ref_entries clock for c
proof -
  have "session_services (session_manager_of (ref_server c)) ref_entries clock"
    using ref_sessions.session_services_axioms by simp
  moreover have "quiet_services_axioms (ref_server c) ref_entries clock"
    by unfold_locales
      (auto simp: moves_def quiet_def ref_entries_def ref_server_def new_proxy_server_def
        ref_services_def ref_http_def)
  ultimately show "quiet_services (ref_server c) ref_entries clock"
    using ref_quiet_calls by (intro quiet_services.intro)
qed

end
