(* ===== verification/Interleaved_Runs.thy ===== *)
theory Interleaved_Runs
  imports Interleaving Simulation Quiet_Services
begin

text \<open>
  Interleavings against the sequential model. A thread whose schedule is over runs as the request does
  alone; and requests handled one after the other are an interleaving of their threads.
\<close>

section \<open>A thread alone\<close>

definition alone :: "'w thread \<Rightarrow> 'w \<Rightarrow> bool" where
  "alone v w \<longleftrightarrow> schedule v = [] \<and> here v = w"

text \<open>Two threads that differ in how they get to the world of their next call.\<close>

definition same_next :: "'w thread \<Rightarrow> 'w thread \<Rightarrow> bool" where
  "same_next u v \<longleftrightarrow>
     next_world u = next_world v \<and> tl (schedule u) = tl (schedule v) \<and> taken u = taken v"

lemma stepwise_alone: "same_run alone (stepwise c) c"
  by (auto simp: rel_fun_def alone_def stepwise_def next_world_def advance_def split: prod.split)

lemma same_next_advance: "same_next u v \<Longrightarrow> same_next (advance u b) (advance v b)"
  by (cases "tl (schedule v)") (simp_all add: same_next_def advance_def next_world_def)

lemma stepwise_same_next:
  fixes c :: "'w \<Rightarrow> 'r \<times> 'w"
  shows "same_run same_next (stepwise c) (stepwise c)"
proof (rule rel_funI)
  fix u v :: "'w thread"
  assume v: "same_next u v"
  obtain x b where "c (next_world v) = (x, b)" by (cases "c (next_world v)")
  with v same_next_advance [OF v, of b] show "rel_prod (=) same_next (stepwise c u) (stepwise c v)"
    by (simp add: stepwise_def same_next_def)
qed

lemma send_alone:
  fixes f :: "'w \<Rightarrow> (string + 'w upstream_response) \<times> 'w"
  shows "rel_fun alone (rel_prod (rel_sum (=) (response_rel alone)) alone)
    (stepwise (map_prod (map_sum id stepwise_response) id \<circ> f)) f"
proof (rule rel_funI)
  fix v and w :: 'w
  assume v: "alone v w"
  obtain r w' where r: "f w = (r, w')" by (cases "f w")
  have "rel_sum (=) (response_rel alone) (map_sum id stepwise_response r) r"
    by (cases r) (simp_all add: response_rel_def stepwise_response_def stepwise_alone)
  with r v show "rel_prod (rel_sum (=) (response_rel alone)) alone
      (stepwise (map_prod (map_sum id stepwise_response) id \<circ> f) v) (f w)"
    by (simp add: stepwise_def alone_def next_world_def advance_def)
qed

lemma send_same_next:
  fixes f :: "'w \<Rightarrow> (string + 'w upstream_response) \<times> 'w"
  shows "rel_fun same_next (rel_prod (rel_sum (=) (response_rel same_next)) same_next)
    (stepwise (map_prod (map_sum id stepwise_response) id \<circ> f))
    (stepwise (map_prod (map_sum id stepwise_response) id \<circ> f))"
proof (rule rel_funI)
  fix u v :: "'w thread"
  assume v: "same_next u v"
  obtain r w' where r: "f (next_world v) = (r, w')" by (cases "f (next_world v)")
  have "rel_sum (=) (response_rel same_next) (map_sum id stepwise_response r) (map_sum id stepwise_response r)"
    by (cases r) (simp_all add: response_rel_def stepwise_response_def stepwise_same_next)
  with r v same_next_advance [OF v] show "rel_prod (rel_sum (=) (response_rel same_next)) same_next
      (stepwise (map_prod (map_sum id stepwise_response) id \<circ> f) u)
      (stepwise (map_prod (map_sum id stepwise_response) id \<circ> f) v)"
    by (simp add: stepwise_def same_next_def)
qed

lemmas service_rels = server_rel_def services_rel_def platform_rel_def redis_rel_def jwt_rel_def
  argon2_rel_def totp_rel_def db_rel_def http_rel_def request_rel_def

lemmas stepwise_fields = stepwise_platform_def stepwise_redis_def stepwise_jwt_def stepwise_argon2_def
  stepwise_totp_def stepwise_db_def stepwise_http_def

lemma server_alone: "server_rel alone (stepwise_server S) S"
  by (simp add: service_rels stepwise_fields stepwise_alone send_alone)

lemma request_alone: "request_rel alone (stepwise_request req) req"
  by (simp add: service_rels stepwise_alone)

lemma server_same_next: "server_rel same_next (stepwise_server S) (stepwise_server S)"
  by (simp add: service_rels stepwise_fields stepwise_same_next send_same_next)

lemma request_same_next: "request_rel same_next (stepwise_request req) (stepwise_request req)"
  by (simp add: service_rels stepwise_same_next)

lemma forward_on_schedule: "moves on_schedule (forward_upstream (stepwise_server S) (stepwise_request req))"
  by (rule forward_stepwise [OF service_frame.service_calls [OF any_service_frame] on_schedule_preorder
        on_schedule_steps]) (simp_all add: moves_def)

lemma handled_on_schedule:
  assumes "handle_request (stepwise_server S) (stepwise_request req) ip v = (r, v')"
  shows "on_schedule v v'"
proof (rule withinD [OF handler_frame.inside_request [OF service_frame.handlers_framed
      [OF service_frame_stepwise [OF any_service_frame on_schedule_preorder on_schedule_steps]]] assms])
  show "moves on_schedule (req_body (stepwise_request req))"
    using moves_stepwise [OF on_schedule_steps] by (simp add: moves_def)
qed (rule forward_on_schedule)

text \<open>A request run by a thread that is not scheduled elsewhere.\<close>

lemma handle_alone:
  assumes "handle_request S req ip w = (r, w')"
  shows "\<exists>v'. handle_request (stepwise_server S) (stepwise_request req) ip (start_thread w []) = (r, v')
    \<and> here v' = w' \<and> scheduled w [] (taken v') \<and> ends_at w (taken v') = w'"
proof -
  let ?h = "handle_request (stepwise_server S) (stepwise_request req) ip (start_thread w [])"
  have "alone (start_thread w []) w" by (simp add: alone_def start_thread_def)
  from handle_transfer [THEN rel_funD, OF server_alone, THEN rel_funD, OF request_alone, THEN rel_funD, OF refl,
      THEN rel_funD, OF this]
  have same: "rel_prod (rel_outcome (=) (=)) alone ?h (handle_request S req ip w)" .
  obtain r' v' where h: "?h = (r', v')" by (cases ?h)
  with same assms have r: "r' = r" "here v' = w'"
    by (simp_all add: outcome.rel_eq alone_def)
  have "on_schedule (start_thread w []) v'" by (rule handled_on_schedule [OF h])
  then show ?thesis
    using h r by (auto simp: on_schedule_def extends_def start_thread_def)
qed

section \<open>Requests one after the other\<close>

text \<open>A thread scheduled at \<open>u\<close> takes the steps of one that starts there.\<close>

lemma handle_scheduled:
  "taken (snd (handle_request (stepwise_server S) (stepwise_request req) ip (start_thread w [u])))
     = taken (snd (handle_request (stepwise_server S) (stepwise_request req) ip (start_thread u [])))"
proof -
  have "same_next (start_thread w [u]) (start_thread u [])"
    by (simp add: same_next_def start_thread_def next_world_def)
  from handle_transfer [THEN rel_funD, OF server_same_next, THEN rel_funD, OF request_same_next, THEN rel_funD,
      OF refl, THEN rel_funD, OF this]
  show ?thesis by (auto simp: rel_prod_sel same_next_def)
qed

lemma steps_of_thread [simp]: "steps_of i (map (Pair k) cs) = (if i = k then cs else [])"
  by (induction cs) auto

lemma scheduled_connected:
  assumes "reflp E" "E l h" "scheduled h [] cs"
  shows "connected E l (map (Pair k) cs) \<and> last_world l (map (Pair k) cs) = ends_at l cs"
  using assms(2,3)
proof (induction cs arbitrary: l h)
  case (Cons c cs)
  obtain a b where "c = (a, b)" by (cases c)
  with Cons assms(1) show ?case by (auto simp: reflp_def)
qed simp

lemma ends_at_change: "cs \<noteq> [] \<Longrightarrow> ends_at h cs = ends_at h' cs"
  by (induction h cs rule: ends_at.induct) auto

lemma run_of_Nil: "run_of m w []"
  by (simp add: run_of_def)

lemma interleaving_next:
  fixes n :: nat
  assumes "interleaving (at_once S reqs) E w tr" "\<forall>i \<ge> n. steps_of i tr = []" "E (last_world w tr) u"
    and "reflp E" "handle_request S req ip u = (r, u')"
  shows "\<exists>cs. interleaving (at_once S (reqs(n := (req, ip)))) E w (tr @ map (Pair n) cs)
    \<and> E (last_world w (tr @ map (Pair n) cs)) u'"
proof -
  let ?h = "\<lambda>v. handle_request (stepwise_server S) (stepwise_request req) ip v"
  obtain v where v: "?h (start_thread u []) = (r, v)" "scheduled u [] (taken v)" "ends_at u (taken v) = u'"
    using handle_alone [OF assms(5)] by blast
  let ?cs = "taken v"
  have n: "steps_of n tr = []" using assms(2) by simp
  note c = scheduled_connected [OF assms(4,3) v(2), of n]
  have "run_of (?h) w ?cs"
    using handle_scheduled [of S req ip w u] v(1) by (auto simp: run_of_def intro!: exI [of _ "[u]"])
  then have "run_of (at_once S (reqs(n := (req, ip))) i) w (steps_of i (tr @ map (Pair n) ?cs))" for i
    using assms(1,2) n by (simp add: interleaving_def at_once_def)
  moreover have "E (last_world w (tr @ map (Pair n) ?cs)) u'"
    using c v(3) assms(3,4) ends_at_change [of ?cs "last_world w tr" u]
    by (cases "?cs = []") (auto simp: reflp_def last_world_append)
  moreover have "connected E w (tr @ map (Pair n) ?cs)"
    using c assms(1) by (simp add: interleaving_def)
  ultimately show ?thesis
    by (intro exI [of _ ?cs]) (simp add: interleaving_def)
qed

lemma lone_request:
  assumes "handle_request S req ip w = (r, w')" "reflp E"
  shows "\<exists>tr. interleaving (at_once S (\<lambda>_ :: nat. (req, ip))) E w tr \<and> E (last_world w tr) w'"
proof -
  have "interleaving (at_once S (\<lambda>_ :: nat. (req, ip))) E w []" "E (last_world w []) w"
    using assms(2) by (simp_all add: interleaving_def run_of_Nil reflp_def)
  from interleaving_next [OF this(1) _ this(2) assms(2,1), of 0] show ?thesis by (auto simp: fun_upd_idem)
qed

theorem served_is_interleaving:
  fixes S :: "'w proxy_server"
  assumes "served S E w w'" "reflp E" "transp E"
  shows "\<exists>(reqs :: nat \<Rightarrow> 'w request \<times> ip_addr) tr. interleaving (at_once S reqs) E w tr
    \<and> E (last_world w tr) w' \<and> (\<forall>k. moves E (req_body (fst (reqs k))))"
proof -
  have "\<exists>(reqs :: nat \<Rightarrow> 'w request \<times> ip_addr) tr n. interleaving (at_once S reqs) E w tr
    \<and> E (last_world w tr) w' \<and> (\<forall>k. moves E (req_body (fst (reqs k)))) \<and> (\<forall>i
        \<ge> n. steps_of i tr = [])"
    using assms(1)
  proof induction
    case (started w)
    let ?silent = "\<lambda>_. (\<lparr>req_method = '''', req_path = '''', req_path_and_query = None,
        req_headers = [],
      req_body = \<lambda>w. (Inr '''', w)\<rparr>, undefined)"
    have "interleaving (at_once S ?silent) E w [] \<and> E (last_world w []) w
      \<and> (\<forall>k. moves E (req_body (fst (?silent k))))"
      using assms(2) by (simp add: interleaving_def run_of_Nil moves_def reflp_def)
    then show ?case by (intro exI [of _ ?silent] exI [of _ "[]"] exI [of _ 0]) simp
  next
    case (request w w1 req ip r w2)
    then obtain reqs :: "nat \<Rightarrow> 'w request \<times> ip_addr" and tr n where tr: "interleaving
        (at_once S reqs) E w tr"
      "E (last_world w tr) w1" "\<forall>k. moves E (req_body (fst (reqs k)))" "\<forall>i \<ge> n. steps_of i
          tr = []" by blast
    obtain cs where cs: "interleaving (at_once S (reqs(n := (req, ip)))) E w (tr @ map (Pair n) cs)"
      "E (last_world w (tr @ map (Pair n) cs)) w2"
      using interleaving_next [OF tr(1,4,2) assms(2) request(3)] by blast
    moreover have "\<forall>k. moves E (req_body (fst ((reqs(n := (req, ip))) k)))"
      using tr(3) request(2) by simp
    moreover have "\<forall>i \<ge> Suc n. steps_of i (tr @ map (Pair n) cs) = []"
      using tr(4) by simp
    ultimately show ?case by blast
  next
    case (environment w w1 w2)
    then show ?case using assms(3) by (meson transpD)
  qed
  then show ?thesis by blast
qed

end
