(* ===== verification/Device_Interleaving.thy ===== *)
theory Device_Interleaving
  imports Device_Trust Interleaved_Runs
begin

text \<open>
  The range of the device trust when requests interleave. A login reads a device row and writes it
  back later; others may change the row in between, so that an adjustment can be lost, but what is
  written is an adjustment of a row that was sound when it was read.
\<close>

section \<open>The table, step by step\<close>

lemma trust_wf_row: "trust_wf d \<longleftrightarrow> row_sound \<lparr>d_trust_score = trust_score d, d_is_trusted = is_trusted d\<rparr>"
  by (simp add: trust_wf_def row_sound_def)

lemma upserted_sound:
  assumes "devices_sound ds" "row_sound row"
  shows "devices_sound (upserted_device ds u fp row)"
  using assms by (auto simp: upserted_device_def devices_sound_def split: option.splits if_splits)

lemma read_new_device_wf: "read_io (new_device P u ua ip m) w = (Ok d, w') \<Longrightarrow> trust_wf d"
  by (cases "new_device P u ua ip m w") (auto simp: read_io_def dest: new_device_wf)

context device_server begin

abbreviation table_sound :: "'w \<Rightarrow> bool" where
  "table_sound w \<equiv> devices_sound (devices w)"

abbreviation stepped where
  "stepped \<equiv> stepwise_server S"

abbreviation anything :: "'w \<Rightarrow> 'w \<Rightarrow> bool" where
  "anything \<equiv> \<lambda>_ _. True"

abbreviation guarded where
  "guarded \<equiv> under anything table_sound"

end

sublocale device_server \<subseteq> dg: rely_guarantee "\<lambda>_ _. True" "\<lambda>w. devices_sound (devices w)"
  by unfold_locales (simp_all add: reflp_def transp_def)

context device_server begin

lemma same_keeping: "same_devices w w' \<Longrightarrow> dg.keeping w w'"
  by (simp add: dg.keeping_def)

lemma same_steps: "steps_along same_devices guarded"
  using dg.under_steps by (auto simp: steps_along_def intro: same_keeping)

lemma stepped_base: "service_base stepped guarded"
  by (rule service_base_stepwise [OF _ dg.under_preorder same_steps]) (rule service_base_axioms)

end

sublocale device_server \<subseteq> sb: service_base "stepwise_server S"
    "under (\<lambda>_ _. True) (\<lambda>w. devices_sound (devices w))"
  by (rule stepped_base)

context device_server begin

lemma upsert_keeps_sound:
  assumes "row_sound \<lparr>d_trust_score = t, d_is_trusted = tr\<rparr>"
  shows "moves dg.keeping (pg_execute (db_of S) upsert_device_sql [SqlUuid u, SqlText fp, SqlText ua,
    SqlText p, SqlText b, SqlText ip, SqlInt t, SqlBool tr])"
proof (rule withinI)
  fix w r w'
  assume "pg_execute (db_of S) upsert_device_sql [SqlUuid u, SqlText fp, SqlText ua,
    SqlText p, SqlText b, SqlText ip, SqlInt t, SqlBool tr] w = (r, w')"
  then have "devices w' = devices w
      \<or> devices w' = upserted_device (devices w) u fp \<lparr>d_trust_score = t, d_is_trusted = tr\<rparr>"
    by (cases r) (auto dest: upsert upsert_fails)
  with upserted_sound [OF _ assms] show "dg.keeping w w'" by (auto simp: dg.keeping_def)
qed

text \<open>With what is stored being sound, a login keeps the table sound.\<close>

abbreviation sound_op where
  "sound_op d m \<equiv> meets anything table_sound (\<lambda>_. trust_wf d) m (\<lambda>_ _. True)"

lemma sound_op_inside: "moves guarded m \<Longrightarrow> sound_op d m"
  by (rule meets_conseq, rule dg.meets_frame, assumption, rule dg.stable_const [of True]) simp_all

lemma sound_op_bind: "moves guarded m \<Longrightarrow> (\<And>x. sound_op d (k x)) \<Longrightarrow> sound_op d (bind_io m k)"
  by (rule dg.meets_bind, rule dg.meets_frame, assumption, rule dg.stable_const) assumption

lemma sound_op_then: "sound_op d m \<Longrightarrow> (\<And>x. moves guarded (k x)) \<Longrightarrow> sound_op d (bind_io m k)"
  by (rule dg.meets_bind, assumption) (simp add: meets_under)

lemma store_sound: "sound_op d (store_device stepped ip user d)"
proof -
  have call: "sound_op d (call_io DatabaseError (stepwise (pg_execute (db_of S) upsert_device_sql
      [SqlUuid (u_id user), SqlText (fingerprint_hash d), SqlText (dev_user_agent d),
       SqlText (dev_platform d), SqlText (dev_browser d), SqlText ip, SqlInt (trust_score d),
       SqlBool (is_trusted d)])))"
    using withinD [OF upsert_keeps_sound]
    by (intro dg.meets_call dg.stable_const) (auto simp: dg.keeping_def trust_wf_row)
  show ?thesis
    unfolding store_device_def upsert_device_def
    by (rule sound_op_then) (use call in \<open>simp_all add: stepwise_db_def sb.frame_basic\<close>)
qed

lemma reject_sound: "sound_op d (reject_password stepped ip user body d)"
proof -
  have "sound_op d (store_device stepped ip user (decrease_trust 15 d))"
    by (rule meets_conseq [OF store_sound]) (simp_all add: decrease_trust_wf)
  then show ?thesis
    unfolding reject_password_def by (rule sound_op_then) (intro sb.frame_basic frame)
qed

lemma record_sound: "sound_op d (record_device stepped ip user d ex)"
  unfolding record_device_def Let_def
proof (rule dg.meets_bind)
  let ?d = "if ex \<noteq> None then increase_trust 10 d else d"
  let ?seen = "read_io (update_last_seen (platform_of stepped) ?d)"
  have "moves guarded ?seen" by (intro sb.frame_basic frame)
  note seen = dg.meets_result [OF dg.meets_frame [OF this dg.stable_const [of "trust_wf d"]]]
  show "meets anything table_sound (\<lambda>_. trust_wf d) ?seen (\<lambda>x _. trust_wf x)"
    using increase_trust_wf [of d 10]
    by (intro meets_conseq [OF seen])
      (auto simp: read_io_def update_last_seen_def trust_wf_def split: prod.splits if_splits)
  show "sound_op x (bind_io (store_device stepped ip user x) (\<lambda>_. ret x))" for x
    by (rule sound_op_then [OF store_sound]) (rule sb.frame_basic)
qed

text \<open>What the lookup returns was sound in the world it was made in.\<close>

lemma lookup_meets:
  "meets anything table_sound (\<lambda>_. True) (find_device_by_fingerprint (db_of stepped) u fp)
     (\<lambda>ex _. \<forall>row. ex = Some row \<longrightarrow> row_sound row)"
proof -
  have db: "pg_fetch_optional_device (db_of stepped) q vs = stepwise (pg_fetch_optional_device (db_of S) q vs)" for q vs
    by (simp add: stepwise_db_def)
  show ?thesis
    unfolding find_device_by_fingerprint_def db
  proof (intro dg.meets_call dg.stable_const)
    fix a x b
    assume g: "table_sound a"
      and x: "pg_fetch_optional_device (db_of S) find_device_by_fingerprint_sql [SqlUuid u, SqlText fp] a = (x, b)"
    from g select_device_keeps [OF x] show "True \<and> table_sound b" by simp
  next
    fix a b y
    assume g: "table_sound a"
      and y: "pg_fetch_optional_device (db_of S) find_device_by_fingerprint_sql [SqlUuid u, SqlText fp] a = (Inr y, b)"
    from g select_device [OF y] show "\<forall>row. y = Some row \<longrightarrow> row_sound row"
      by (auto simp: device_of_def devices_sound_def split: option.splits if_splits)
  qed
qed

lemma login_device_meets:
  "meets anything table_sound (\<lambda>_. True) (login_device stepped ip ua user) (\<lambda>x _. trust_wf (fst x))"
  unfolding login_device_def
proof (rule dg.meets_bind)
  let ?new = "read_io (new_device (platform_of stepped) (u_id user) ua ip no_metadata)"
  have "moves guarded ?new" by (intro sb.frame_basic frame)
  note new = dg.meets_result [OF dg.meets_frame [OF this dg.stable_const [of True]]]
  show "meets anything table_sound (\<lambda>_. True) ?new (\<lambda>d _. trust_wf d)"
    by (rule meets_conseq [OF new]) (auto dest: read_new_device_wf)
  fix d
  show "meets anything table_sound (\<lambda>_. trust_wf d)
      (bind_io (find_device_by_fingerprint (db_of stepped) (u_id user) (fingerprint_hash d)) (\<lambda>existing.
        ret (case existing of
               Some row \<Rightarrow>
                 (d\<lparr>trust_score := i32_max0 (d_trust_score row), is_trusted := d_is_trusted row\<rparr>, existing)
             | None \<Rightarrow> (d, existing)))) (\<lambda>x _. trust_wf (fst x))"
  proof (rule dg.meets_bind [OF _ dg.meets_pure(1)])
    show "meets anything table_sound (\<lambda>_. trust_wf d)
        (find_device_by_fingerprint (db_of stepped) (u_id user) (fingerprint_hash d))
        (\<lambda>ex _. (\<forall>row. ex = Some row \<longrightarrow> row_sound row) \<and> trust_wf d)"
      by (rule meets_conseq [OF dg.meets_const [OF lookup_meets]]) simp_all
    fix ex w
    assume "(\<forall>row. ex = Some row \<longrightarrow> row_sound row) \<and> trust_wf d"
    then show "trust_wf (fst (case ex of Some row \<Rightarrow>
          (d\<lparr>trust_score := i32_max0 (d_trust_score row), is_trusted := d_is_trusted row\<rparr>, ex)
        | None \<Rightarrow> (d, ex)))"
      by (auto simp: sound_trust trust_wf_def row_sound_def split: option.split)
  qed
qed

section \<open>Requests\<close>

lemma login_under:
  assumes "moves guarded (req_body req)"
  shows "moves guarded (handle_login stepped req ip)"
proof -
  have rest: "moves guarded (bind_io (login_device stepped ip ua user) (\<lambda>(d, ex). k d ex))"
    if "\<And>d ex. sound_op d (k d ex)"
    for ua user and k :: "device_fingerprint \<Rightarrow> device_row option \<Rightarrow> ('w thread, response) proxy_io"
    by (rule dg.meets_if_under [OF dg.meets_bind [OF login_device_meets]])
      (use that in \<open>simp_all add: case_prod_beta\<close>)
  show ?thesis
    unfolding handle_login_def Let_def
    apply (rule sb.frame_basic(1), rule sb.inside_rate_limit)
    apply (rule sb.frame_basic(1), rule sb.inside_body [OF assms])
    apply (rule sb.frame_basic(1), rule sb.frame_basic)
    apply (rule sb.frame_basic(1), rule sb.inside_login_steps)
    apply (rule rest, rule sound_op_bind, rule sb.frame_basic)
    apply (rule dg.meets_if, rule reject_sound)
    apply (rule sound_op_bind, rule sb.inside_login_steps)
    apply (rule sound_op_then, rule record_sound)
    apply (intro sb.frame_basic frame)
    apply (clarsimp split: prod.split)
    apply (intro sb.frame_basic)
    done
qed

lemma at_once_guarded:
  assumes "moves same_devices (req_body (fst (reqs i)))"
  shows "moves guarded (at_once S reqs i)"
  unfolding at_once_def
proof (rule sb.inside_request_by)
  let ?req = "stepwise_request (fst (reqs i))"
  show body: "moves guarded (req_body ?req)"
    using moves_stepwise [OF same_steps assms] by simp
  show "moves guarded (forward_upstream stepped ?req)"
    by (rule forward_base_stepwise [OF call_base_axioms dg.under_preorder same_steps assms])
      (rule upstream_keeps, erule upstream_body_keeps)
  show "moves guarded (handle_login stepped ?req (snd (reqs i)))" by (rule login_under [OF body])
  show "moves guarded (handle_mfa_verify stepped ?req (snd (reqs i)))"
    by (rule sb.inside_session_verify [OF body])
qed

lemma interleaved_sound:
  assumes "interleaving (at_once S reqs) same_devices w tr"
    and "\<And>i. moves same_devices (req_body (fst (reqs i)))" "table_sound w" "(i, a, b) \<in> set tr"
  shows "table_sound a \<and> table_sound b"
proof -
  have "moves guarded (at_once S reqs i)" for i using assms(2) by (rule at_once_guarded)
  from dg.interleaving_keeps [OF assms(1) this same_keeping assms(3,4)] show ?thesis by simp
qed

text \<open>A login that succeeds has stored a row for its fingerprint.\<close>

lemma login_stores:
  assumes "handle_login S req ip w = (Ok resp, w')"
  shows "devices w' (login_fingerprint S req ip) \<noteq> None"
  using assms
proof (rule handle_login_Ok)
  fix bytes body user device existing d score m s token w1 w2 w3 w4 w5 w6 w7 w8
  let ?ua = "unwrap_or (header_text (sv_http (services S)) req ''user-agent'') ''unknown''"
  assume l: "login_device S ip ?ua user w3 = (Ok (device, existing), w4)"
    and r: "record_device S ip user device existing w5 = (Ok d, w6)"
    and k: "login_risk S ip user d w6 = (Ok score, w7)"
    and o: "open_session S ip ?ua user body m score w7 = (Ok (s, token), w')"
  obtain w0 where st: "store_device S ip user d w0 = (Ok (), w6)"
    and d: "fingerprint_hash d = fingerprint_hash device"
    using r by (auto simp: record_device_def Let_def io_Ok update_last_seen_def increase_trust_def
        split: prod.splits)
  have "devices w6 (login_fingerprint S req ip) \<noteq> None"
    using store_device_Ok [OF st] login_device_Ok [OF l] d
    by (simp add: upserted_device_def login_fingerprint_def split: option.split)
  then show ?thesis
    using withinD [OF inside_login_steps(3) k] withinD [OF inside_open_session o] by simp
qed

end

section \<open>Any number of requests at the same time\<close>

text \<open>C26: However many requests are handled at the same time, and in whatever order their calls come, the
  trust of every row of the \<open>devices\<close> table is a number from 0 to 100 and its flag is set exactly from 70
  on, at every moment, between any two calls of any request: although a login reads the row of its
  device and writes it back later, so that logins at the same time can lose one another's
  adjustment, no order of their calls takes a score out of the range that the check of the schema
  asks for, nor makes the score and the flag that the risk of a login uses disagree.\<close>

theorem interleaved_device_trust:
  assumes "device_server S devices" "devices_sound (devices w)"
    and "interleaving (at_once S reqs) (\<lambda>w w'. devices w' = devices w) w tr"
    and "\<And>i. moves (\<lambda>w w'. devices w' = devices w) (req_body (fst (reqs i)))" "(i, a, b) \<in> set tr"
  shows "devices_sound (devices a) \<and> devices_sound (devices b)"
  using device_server.interleaved_sound [OF assms(1,3,4,2,5)] .

text \<open>The witness: Alice's login, step by step, from an empty table; it leaves a row.\<close>

theorem interleaved_device_trust_witness:
  "\<exists>tr i a b. interleaving (at_once default_server (\<lambda>_ :: nat. (login_request ''correct horse'', ''10.0.0.1'')))
      (\<lambda>w w'. map_of (device_rows w') = map_of (device_rows w)) login_world tr
    \<and> (i, a, b) \<in> set tr \<and> map_of (device_rows b) \<noteq> map_of (device_rows a)
    \<and> devices_sound (map_of (device_rows a)) \<and> devices_sound (map_of (device_rows b))"
proof -
  let ?reqs = "\<lambda>_ :: nat. (login_request ''correct horse'', ''10.0.0.1'')"
  let ?f = "\<lambda>w. map_of (device_rows w)"
  let ?E = "\<lambda>w w'. ?f w' = ?f w"
  obtain resp w' where l: "handle_login default_server (login_request ''correct horse'') ''10.0.0.1'' login_world
    = (Ok resp, w')" using alice_logs_in by blast
  have h: "handle_request default_server (login_request ''correct horse'') ''10.0.0.1'' login_world = (Ok resp, w')"
    using l by (simp add: handle_request_def route_def Let_def) (simp add: login_request_def)
  have empty: "?f login_world = Map.empty" by (simp add: login_world_def start_world_def)
  have "?f w' \<noteq> Map.empty"
    using ref_trust.login_stores [OF l [unfolded default_server_def]] by auto
  moreover obtain tr where tr: "interleaving (at_once default_server ?reqs) ?E login_world tr"
    "?E (last_world login_world tr) w'" using lone_request [OF h, of ?E] by (auto simp: reflp_def)
  ultimately have "?f (last_world login_world tr) \<noteq> ?f login_world" by (simp add: empty)
  moreover have "connected ?E login_world tr" using tr(1) by (simp add: interleaving_def)
  ultimately obtain i a b where s: "(i, a, b) \<in> set tr" "?f b \<noteq> ?f a"
    using changing_step [of ?E login_world tr ?f] by blast
  have "moves ?E (req_body (fst (?reqs k)))" for k by (simp add: moves_def login_request_def)
  with interleaved_device_trust [OF ref_trust.device_server_axioms _ tr(1) [unfolded default_server_def] _ s(1)]
  have "devices_sound (?f a) \<and> devices_sound (?f b)" by (simp add: empty devices_sound_def)
  with tr(1) s show ?thesis by blast
qed

end
