(* ===== verification/Logout.thy ===== *)
theory Logout
  imports Quiet_Services Gate_Claims Login_Claims
begin

text \<open>
  Runs of the server: one request after the other, each handled from start to end, and between them
  whatever the rest of the world does without writing sessions. A session that was deleted is not
  brought back by any of them: no handler stores a session it did not just get or create, and
  created sessions have fresh ids. (Interleaving the steps of two requests can bring one back:
  \<open>session_stale_update_resurrects\<close>.)
\<close>

section \<open>What no request changes\<close>

text \<open>Nothing stored changes, time passes, and ids once issued stay issued.\<close>

definition silent ::
  "('w \<Rightarrow> entries) \<Rightarrow> ('w \<Rightarrow> instant) \<Rightarrow> ('w \<Rightarrow> string set) \<Rightarrow> 'w \<Rightarrow> 'w \<Rightarrow> bool" where
  "silent ent tm issued w w' \<longleftrightarrow> quiet ent tm w w' \<and> issued w \<subseteq> issued w'"

definition grows :: "('w \<Rightarrow> string set) \<Rightarrow> 'w \<Rightarrow> 'w \<Rightarrow> bool" where
  "grows issued w w' \<longleftrightarrow> issued w \<subseteq> issued w'"

locale live_services =
  quiet_services S ent tm + gr: service_frame S "grows issued"
  for S :: "'w proxy_server" and ent tm and issued :: "'w \<Rightarrow> string set" +
  assumes fresh_uuid: "uuid_v4 (platform_of S) w = (j, w') \<Longrightarrow> j \<notin> issued w \<and> j \<in> issued w'"
    and upstream_grows: "moves (grows issued) (http_send (sv_http (services S)) up)"
    and upstream_body_grows: "http_send (sv_http (services S)) up w = (Inr ur, w') \<Longrightarrow>
      moves (grows issued) (ur_body ur)"
begin

abbreviation the_manager where
  "the_manager \<equiv> session_manager_of S"

definition ended :: "string \<Rightarrow> 'w \<Rightarrow> bool" where
  "ended i w \<longleftrightarrow> ss.gone i w \<and> i \<in> issued w"

definition keeps_ended :: "string \<Rightarrow> 'w \<Rightarrow> 'w \<Rightarrow> bool" where
  "keeps_ended i w w' \<longleftrightarrow> issued w \<subseteq> issued w' \<and> (ended i w \<longrightarrow> ended i w')"

lemma keeps_ended_preorder: "reflp (keeps_ended i)" "transp (keeps_ended i)"
  by (auto simp: keeps_ended_def reflp_def transp_def)

lemma silent_keeps: "silent ent tm issued w w' \<Longrightarrow> keeps_ended i w w'"
  using stored_session_quiet [of ent tm w w' the_manager]
  by (auto simp: silent_def keeps_ended_def ended_def ss.gone_def)

lemma silent_moves:
  "moves (quiet ent tm) m \<Longrightarrow> moves (grows issued) m \<Longrightarrow> moves (silent ent tm issued) m"
  by (simp add: moves_def silent_def grows_def)

lemma keeps_gone:
  assumes "moves (grows issued) m" "\<And>w r w'. m w = (r, w') \<Longrightarrow> ss.gone i w \<Longrightarrow> i \<in> issued w \<Longrightarrow> ss.gone i w'"
  shows "moves (keeps_ended i) m"
proof (rule withinI)
  fix w r w'
  assume m: "m w = (r, w')"
  then have "issued w \<subseteq> issued w'"
    using withinD [OF assms(1) m] by (simp add: grows_def)
  with assms(2) [OF m] show "keeps_ended i w w'"
    by (auto simp: keeps_ended_def ended_def)
qed

lemma calls_framed: "call_frame S (keeps_ended i)"
  by unfold_locales
    (rule keeps_ended_preorder
      | rule moves_weaken, rule silent_moves, rule qc.frame_calls, rule gr.frame_calls, erule silent_keeps)+

lemma new_session_fresh:
  assumes "new_session (platform_of S) u d ip ua dur w = (Ok s, w')" "i \<in> issued w"
  shows "sess_id s \<noteq> i"
proof -
  obtain t w1 w2 where now: "utc_now (platform_of S) w = (t, w1)"
    and id: "uuid_v4 (platform_of S) w1 = (sess_id s, w2)"
    using assms(1) by (auto simp: new_session_def io_Ok io_cases)
  show ?thesis
    using withinD [OF gr.frame_now now] fresh_uuid [OF id] assms(2) by (auto simp: grows_def)
qed

lemma create_keeps_gone:
  assumes "create_session the_manager u d ip ua w = (r, w')" "ss.gone i w" "i \<in> issued w"
  shows "ss.gone i w' \<and> (\<forall>s. r = Ok s \<longrightarrow> sess_id s \<noteq> i)"
  using assms(1)
proof (cases rule: create_session_steps)
  case failed
  with assms(2) stored_session_quiet [OF failed(1), of the_manager] show ?thesis
    by (simp add: ss.gone_def)
next
  case (stored s w1 js c)
  have "sess_id s \<noteq> i"
    using stored(1) assms(3) by (intro new_session_fresh) (simp_all add: manager_parts)
  moreover have "ss.gone i w1"
    using stored_session_quiet [OF stored(2), of the_manager] assms(2) by (simp add: ss.gone_def)
  then have "ss.gone i w'"
    using set_session_effect [OF stored(4,3)] \<open>sess_id s \<noteq> i\<close> by (auto simp: ss.gone_def)
  ultimately show ?thesis using stored(5) by auto
qed

lemma keeps_endedD: "keeps_ended i w w' \<Longrightarrow> ended i w \<Longrightarrow> ended i w'"
  by (simp add: keeps_ended_def)

lemma endedI: "ss.gone i w' \<Longrightarrow> grows issued w w' \<Longrightarrow> i \<in> issued w \<Longrightarrow> ended i w'"
  by (auto simp: ended_def grows_def)

end

sublocale live_services \<subseteq> cf: call_frame S "keeps_ended i" for i
  by (rule calls_framed)

context live_services begin

lemma update_then_keeps:
  assumes "bind_io (update_session the_manager s) k w = (r, w')" "ended i w" "sess_id s \<noteq> i"
    and "\<And>x. moves (keeps_ended i) (k x)"
  shows "ended i w'"
  using assms(1)
proof (cases rule: bind_io_runs)
  case (stopped c)
  then show ?thesis
    using ss.gone_update [OF stopped(1)] withinD [OF gr.inside_sessions(2) stopped(1)] assms(2,3)
    by (auto simp: ended_def grows_def)
next
  case (continued x w1)
  have "ended i w1"
    using ss.gone_update [OF continued(1)] withinD [OF gr.inside_sessions(2) continued(1)] assms(2,3)
    by (auto simp: ended_def grows_def)
  then show ?thesis by (rule keeps_endedD [OF withinD [OF assms(4) continued(2)]])
qed

lemma open_session_keeps: "moves (keeps_ended i) (open_session S ip ua user body mfa score)"
proof (rule keeps_gone [OF gr.inside_open_session])
  fix w r w'
  assume o: "open_session S ip ua user body mfa score w = (r, w')" "ss.gone i w" "i \<in> issued w"
  then have e: "ended i w" by (simp add: ended_def)
  obtain dev w1 where dev: "fresh_device_id S body w = (dev, w1)" by (cases "fresh_device_id S body w")
  have e1: "ended i w1" by (rule keeps_endedD [OF withinD [OF cf.inside_fresh_device_id dev] e])
  obtain c w2 where c: "create_session the_manager (u_id user) dev ip ua w1 = (c, w2)"
    by (cases "create_session the_manager (u_id user) dev ip ua w1")
  have e2: "ended i w2" and id: "c = Ok s \<Longrightarrow> sess_id s \<noteq> i" for s
    using create_keeps_gone [OF c] e1 withinD [OF gr.inside_sessions(1) c]
    by (auto simp: ended_def grows_def)
  show "ss.gone i w'"
  proof (cases c)
    case (Ok s)
    let ?s = "s\<lparr>sess_mfa_verified := mfa, sess_risk_score := total_score score\<rparr>"
    have "bind_io (update_session the_manager ?s) (\<lambda>_. bind_io (audit_login S user dev ip True) (\<lambda>_.
        bind_io (generate_token (platform_of S) (sv_jwt (services S)) (jwt_manager S) (u_id user) dev
          (sess_risk_score ?s) mfa (sess_id ?s)) (\<lambda>token. ret (?s, token)))) w2 = (r, w')"
      using o(1) dev c by (simp add: open_session_def bind_io_def read_io_def Ok Let_def)
    then have "ended i w'"
      by (rule update_then_keeps) (use e2 id [OF Ok] in
        \<open>auto intro!: cf.frame_basic cf.inside_audits cf.inside_tokens\<close>)
    then show ?thesis by (simp add: ended_def)
  qed (use o(1) dev c e2 in \<open>simp_all add: open_session_def bind_io_def read_io_def ended_def\<close>)
qed

lemma step_up_keeps:
  "moves (keeps_ended i) (bind_io (get_session the_manager j)
    (\<lambda>s. update_session the_manager (s\<lparr>sess_mfa_verified := True\<rparr>)))"
proof (rule keeps_gone [OF gr.inside_step_up])
  fix w r w'
  assume b: "bind_io (get_session the_manager j)
      (\<lambda>s. update_session the_manager (s\<lparr>sess_mfa_verified := True\<rparr>)) w = (r, w')"
    and g: "ss.gone i w" "i \<in> issued w"
  from b show "ss.gone i w'"
  proof (cases rule: bind_io_runs)
    case (stopped c)
    with ss.gone_get [OF stopped(1) g(1)] show ?thesis by simp
  next
    case (continued s w1)
    have "sess_id s = j" "i \<noteq> j" "ss.gone i w1"
      using ss.get_Ok [OF continued(1)] ss.gone_get [OF continued(1) g(1)] g(1)
      by (auto simp: ss.gone_def)
    then show ?thesis using ss.gone_update [OF continued(2)] by simp
  qed
qed

lemma handlers_keep: "handler_frame S (keeps_ended i)"
proof
  fix j u ip ua user body mfa score
  show "moves (keeps_ended i) (get_session the_manager j)"
    using ss.gone_get by (intro keeps_gone gr.inside_get_session) blast
  show "moves (keeps_ended i) (delete_session the_manager j)"
    using ss.gone_delete by (intro keeps_gone gr.inside_sessions) blast
  show "moves (keeps_ended i) (revoke_user_sessions the_manager u)"
    using ss.gone_revoke by (intro keeps_gone gr.inside_revoke) blast
  show "moves (keeps_ended i) (open_session S ip ua user body mfa score)"
    by (rule open_session_keeps)
  show "moves (keeps_ended i) (bind_io (get_session the_manager j)
      (\<lambda>s. update_session the_manager (s\<lparr>sess_mfa_verified := True\<rparr>)))"
    by (rule step_up_keeps)
qed

lemma forward_keeps:
  assumes "moves (silent ent tm issued) (req_body req)"
  shows "moves (keeps_ended i) (forward_upstream S req)"
proof -
  have parts: "moves (quiet ent tm) (req_body req)" "moves (grows issued) (req_body req)"
    using assms by (simp_all add: moves_def silent_def grows_def)
  have "moves (quiet ent tm) (forward_upstream S req)"
    using parts(1) by (intro forward_framed_by reflp_quiet transp_quiet)
  moreover have "moves (grows issued) (forward_upstream S req)"
    using parts(2) upstream_grows upstream_body_grows by (rule gr.inside_forward)
  ultimately show ?thesis
    using silent_moves moves_weaken silent_keeps by metis
qed

lemma request_keeps:
  assumes "moves (silent ent tm issued) (req_body req)"
  shows "moves (keeps_ended i) (handle_request S req ip)"
  using assms silent_keeps
  by (intro handler_frame.inside_request [OF handlers_keep] forward_keeps) (auto simp: moves_def)

lemma served_keeps:
  assumes "served S (silent ent tm issued) w w'"
  shows "keeps_ended i w w'"
  using assms
proof induction
  case started
  show ?case using keeps_ended_preorder(1) by (simp add: reflpD)
next
  case (request w w1 req ip r w2)
  then show ?case using withinD [OF request_keeps] keeps_ended_preorder(2) by (metis transpD)
next
  case (environment w w1 w2)
  then show ?case using silent_keeps keeps_ended_preorder(2) by (metis transpD)
qed

lemma ended_not_authorized:
  assumes "ended i w" "bearer_claims S req w = (Ok c, w1)" "clm_session_id c = i"
  shows "fst (authorize S req mth path ip w) \<noteq> Ok ()"
proof
  assume "fst (authorize S req mth path ip w) = Ok ()"
  then have "\<exists>s w2. get_session the_manager i w1 = (Ok s, w2)"
    using assms(2,3) by (cases "authorize S req mth path ip w") (auto simp: authorize_def io_Ok)
  moreover have "ss.gone i w1"
    using keeps_endedD [OF withinD [OF cf.inside_bearer_claims assms(2)] assms(1)]
    by (simp add: ended_def)
  ultimately show False using ss.gone_get by blast
qed

lemma logout_ends:
  assumes "well_keyed the_manager ent w" "bearer_claims S req w = (Ok c, w0)" "clm_session_id c \<in> issued w"
    and "handle_logout S req w = (Ok resp, w1)"
  shows "ended (clm_session_id c) w1"
proof -
  have del: "delete_session the_manager (clm_session_id c) w0 = (Ok (), w1)"
    using assms(2,4) by (auto simp: handle_logout_def bind_io_def lift_res_def split: outcome.splits prod.splits)
  have "quiet ent tm w w0" by (rule withinD [OF qc.inside_bearer_claims assms(2)])
  then have "well_keyed the_manager ent w0"
    using assms(1) by (simp add: stored_session_quiet)
  then have "ss.gone (clm_session_id c) w1" by (rule ss.delete_gone [OF del])
  moreover have "issued w \<subseteq> issued w0" "issued w0 \<subseteq> issued w1"
    using withinD [OF gr.inside_bearer_claims assms(2)] withinD [OF gr.inside_sessions(3) del]
    by (simp_all add: grows_def)
  ultimately show ?thesis using assms(3) by (auto simp: ended_def)
qed

end

section \<open>Logged out is logged out\<close>

text \<open>C4: A logout is final. After a successful logout with a token, through any run of the server in
  which requests are handled one after the other (logins, further logouts, MFA steps, forwarded
  requests, of any users, failing or not) and the rest of the world writes no sessions, the gate
  admits no request whose token names the session logged out, however long the token itself is
  still valid.\<close>

theorem logout_is_final:
  assumes "live_services S ent tm issued" "well_keyed (session_manager_of S) ent w"
    and "bearer_claims S req w = (Ok c, w0)" "clm_session_id c \<in> issued w"
    and "handle_logout S req w = (Ok resp, w1)"
    and "served S (silent ent tm issued) w1 w2"
    and "bearer_claims S req' w2 = (Ok c', w3)" "clm_session_id c' = clm_session_id c"
  shows "fst (authorize S req' mth path ip w2) \<noteq> Ok ()"
proof -
  have "live_services.ended S ent issued (clm_session_id c) w2"
    using live_services.served_keeps [OF assms(1,6)] live_services.logout_ends [OF assms(1-5)]
    by (rule live_services.keeps_endedD [OF assms(1)])
  then show ?thesis
    using live_services.ended_not_authorized [OF assms(1) _ assms(7,8)] by blast
qed

definition ref_issued :: "world \<Rightarrow> string set" where
  "ref_issued w = (\<lambda>n. ''uuid-'' @ bits n) ` {..<uuids w}"

lemma bits_inject [simp]: "bits m = bits n \<longleftrightarrow> m = n"
  by (metis of_bits_bits)

lemma ref_issued_mono: "uuids w \<le> uuids w' \<Longrightarrow> ref_issued w \<subseteq> ref_issued w'"
  by (auto simp: ref_issued_def)

lemma ref_uuids: "service_frame (ref_server c) (\<lambda>w w'. uuids w \<le> uuids w')"
proof -
  have user: "uuids (snd (ref_select_user q vs w)) = uuids w" for q vs w
    by (auto simp: ref_select_user_def Let_def split: list.splits sql_value.splits)
  have exec: "uuids (snd (ref_execute q vs w)) = uuids w" for q vs w
    by (auto simp: ref_execute_def Let_def split: list.splits sql_value.splits)
  show ?thesis
    by unfold_locales
      (auto simp: reflp_def transp_def moves_def ref_server_def new_proxy_server_def
        ref_services_def ref_platform_def ref_redis_def ref_expire_def ref_jwt_def ref_argon2_def
        ref_totp_def ref_postgres_def ref_insert_user_def Let_def user exec
        split: option.splits list.splits sql_value.splits)
qed

lemma ref_growth: "service_frame (ref_server c) (grows ref_issued)"
proof -
  have calls: "call_frame (ref_server c) (\<lambda>w w'. uuids w \<le> uuids w')"
    by (rule service_frame.service_calls [OF ref_uuids])
  have up: "moves (\<lambda>w w'. uuids w \<le> uuids w') m \<Longrightarrow> moves (grows ref_issued) m" for m :: "world \<Rightarrow> 'r \<times> world"
    by (auto simp: moves_def grows_def dest: subsetD [OF ref_issued_mono])
  show ?thesis
    by unfold_locales
      (auto simp: reflp_def transp_def grows_def
        | rule up, rule call_frame.frame_calls [OF calls] service_base.frame_redis [OF service_frame.axioms(2), OF ref_uuids])+
qed

interpretation ref_live: live_services "ref_server c" ref_entries clock ref_issued for c
proof -
  have "live_services_axioms (ref_server c) ref_issued"
    by unfold_locales
      (auto simp: moves_def grows_def ref_issued_def ref_server_def new_proxy_server_def ref_services_def
        ref_platform_def ref_http_def)
  then show "live_services (ref_server c) ref_entries clock ref_issued"
    using ref_growth ref_quiet.quiet_services_axioms by (intro live_services.intro)
qed

text \<open>Alice logs out, and sends a request with the old token.\<close>

definition logout_request :: "world request" where
  "logout_request = alice_request\<lparr>req_method := ''POST'', req_path := ''/auth/logout''\<rparr>"

lemma alice_logs_out:
  "handle_logout default_server logout_request gate_world
     = (Ok \<lparr>resp_status = 200, resp_headers = json_headers,
          resp_body = json_text (json_obj [(''ok'', JBool True)])\<rparr>, gate_world\<lparr>strings := []\<rparr>)"
proof -
  have "bearer_claims default_server logout_request gate_world = (Ok alice_claims, gate_world)"
    by (intro alice_bearer) (simp_all add: logout_request_def gate_world_def alice_world_def)
  then show ?thesis
    by (simp add: handle_logout_def bind_io_def default_services delete_session_def alice_claims_def
        gate_world_def json_response_def ref_run)
qed

theorem logout_is_final_witness:
  "fst (authorize default_server alice_request ''GET'' ''/api/x'' ''10.0.0.1''
     (snd (handle_request default_server alice_request ''10.0.0.1'' (gate_world\<lparr>strings := []\<rparr>)))) \<noteq> Ok ()"
proof -
  let ?w1 = "gate_world\<lparr>strings := []\<rparr>"
  obtain r w2 where h: "handle_request default_server alice_request ''10.0.0.1'' ?w1 = (r, w2)"
    by (cases "handle_request default_server alice_request ''10.0.0.1'' ?w1")
  have c1: "clock ?w1 = clock start_world" by (simp add: gate_world_def alice_world_def)
  have "moves (\<lambda>w w'. clock w' = clock w) (handle_request default_server alice_request ''10.0.0.1'')"
    unfolding default_server_def
    by (rule handler_frame.inside_request [OF service_frame.handlers_framed [OF ref_clock]])
      (simp_all add: moves_def alice_forwarded [unfolded default_server_def], simp add: alice_request_def)
  then have "clock w2 = clock ?w1" using h by (rule withinD)
  then have bearer: "bearer_claims default_server alice_request w2 = (Ok alice_claims, w2)"
    "bearer_claims default_server logout_request gate_world = (Ok alice_claims, gate_world)"
    by (intro alice_bearer; simp add: c1 logout_request_def gate_world_def alice_world_def)+
  have keyed: "well_keyed (session_manager_of default_server) ref_entries gate_world"
    by (simp add: well_keyed_def gate_world_def default_server_def ref_run)
      (simp add: alice_mfa_session_def alice_session_def)
  have issued: "clm_session_id alice_claims \<in> ref_issued gate_world"
    by (simp add: alice_claims_def ref_issued_def gate_world_def alice_world_def lessThan_Suc bits.simps)
  have "served default_server (silent ref_entries clock ref_issued) ?w1 w2"
    by (rule served.request [OF served.started _ h])
      (simp add: alice_request_def moves_def silent_def quiet_def)
  from logout_is_final [OF ref_live.live_services_axioms [of "default_config no_env", folded default_server_def]
      keyed bearer(2) issued alice_logs_out this bearer(1) refl]
  show ?thesis by (simp add: h)
qed

end
