(* ===== verification/Mfa_Claims.thy ===== *)
theory Mfa_Claims
  imports Quiet_Services Login_Claims
begin

text \<open>
  The MFA flag of the stored sessions as a state machine: it is raised by a login of a user who has
  enrolled and by \<open>/auth/mfa/verify\<close>, both after a code was accepted, and by nothing else.
\<close>

definition verified_at :: "'w session_manager \<Rightarrow> ('w \<Rightarrow> entries) \<Rightarrow> string \<Rightarrow> 'w \<Rightarrow> bool" where
  "verified_at M ent i w \<longleftrightarrow> (\<exists>s. stored_session M ent w i = Some s \<and> sess_mfa_verified s)"

definition not_raised :: "'w session_manager \<Rightarrow> ('w \<Rightarrow> entries) \<Rightarrow> string \<Rightarrow> 'w \<Rightarrow> 'w \<Rightarrow> bool" where
  "not_raised M ent i w w' \<longleftrightarrow>
     (well_keyed M ent w \<longrightarrow> well_keyed M ent w' \<and> (verified_at M ent i w' \<longrightarrow> verified_at M ent i w))"

lemma not_raised_preorder: "reflp (not_raised M ent i)" "transp (not_raised M ent i)"
  by (auto simp: not_raised_def reflp_def transp_def)

definition code_accepted :: "'w proxy_server \<Rightarrow> user_row \<Rightarrow> string \<Rightarrow> bool" where
  "code_accepted S user code \<longleftrightarrow>
     (\<exists>sec v v'. mfa_secret user = Some sec
       \<and> verify_token (sv_totp (services S)) default_mfa_config sec code v = (Ok True, v'))"

text \<open>The two ways to raise the flag of session \<open>i\<close>: verifying a code for it, and opening it with one.\<close>

definition stepped_up :: "'w proxy_server \<Rightarrow> 'w request \<Rightarrow> string \<Rightarrow> bool" where
  "stepped_up S req i \<longleftrightarrow> req_path req = ''/auth/mfa/verify''
     \<and> (\<exists>c v1 v2 uid user v3 v4 bytes body.
          bearer_claims S req v1 = (Ok c, v2) \<and> clm_session_id c = i
          \<and> sv_mfa_verify_body (services S) bytes = Some body
          \<and> user_of_claims S c v3 = (Ok (uid, user), v4)
          \<and> code_accepted S user (mb_mfa_token body))"

definition logged_in_with_code :: "'w proxy_server \<Rightarrow> 'w request \<Rightarrow> ip_addr \<Rightarrow> string \<Rightarrow> bool" where
  "logged_in_with_code S req ip i \<longleftrightarrow> req_path req = ''/auth/login''
     \<and> (\<exists>bytes body user v1 v2 code d ua s v3 v4.
          sv_login_body (services S) bytes = Some body
          \<and> find_active_user S (lb_username body) v1 = (Ok user, v2)
          \<and> verify_password (sv_argon2 (services S)) (lb_password body) (password_hash user) = Ok True
          \<and> mfa_enabled user \<and> lb_mfa_token body = Some code \<and> code_accepted S user code
          \<and> create_session (session_manager_of S) (u_id user) d ip ua v3 = (Ok s, v4) \<and> sess_id s = i)"

section \<open>The handlers\<close>

text \<open>
  A frame for the flag of session \<open>i\<close>: every operation stays inside but opening this session as verified
  and stepping it up. Then so does every handler, except in the two ways.
\<close>

locale flag_frame = gate_frame S R for S :: "'w proxy_server" and R :: "'w \<Rightarrow> 'w \<Rightarrow> bool" +
  fixes i :: string
  assumes frame_open: "(mfa \<Longrightarrow>
        (\<And>d v s v'. create_session (session_manager_of S) (u_id user) d ip ua v = (Ok s, v') \<Longrightarrow> sess_id s \<noteq> i)) \<Longrightarrow>
      moves R (open_session S ip ua user body mfa score)"
    and frame_step_up_other: "j \<noteq> i \<Longrightarrow> moves R (bind_io (get_session (session_manager_of S) j)
      (\<lambda>s. update_session (session_manager_of S) (s\<lparr>sess_mfa_verified := True\<rparr>)))"
begin

lemma inside_mfa_verify:
  assumes "inside (req_body req)" "req_path req = ''/auth/mfa/verify''" "\<not> stepped_up S req i"
  shows "inside (handle_mfa_verify S req ip)"
proof -
  note tr = frame_transp
  have up: "inside (if \<not> ok then throw InvalidMfaToken
      else bind_io (get_session (session_manager_of S) (clm_session_id c)) (\<lambda>s.
           bind_io (update_session (session_manager_of S) (s\<lparr>sess_mfa_verified := True\<rparr>)) (\<lambda>_. lift_res j)))"
    if "bearer_claims S req v1 = (Ok c, v2)"
      "lift_res (ok_or (sv_mfa_verify_body (services S) bytes) e) v = (Ok b, v')" "user_of_claims S c v3 = (Ok (uid, user), v4)"
      "lift_res (ok_or (mfa_secret user) MfaRequired) v7 = (Ok sec, v8)"
      "unwrap_or_io (verify_token (sv_totp (services S)) default_mfa_config sec (mb_mfa_token b)) False v5
        = (Ok ok, v6)"
    for ok c v1 v2 bytes e v v' uid user v3 v4 sec v5 v6 v7 v8 b j
  proof (cases ok)
    case True
    then have "code_accepted S user (mb_mfa_token b)"
      using that(4,5) by (auto simp: code_accepted_def io_Ok io_cases ok_or_Ok_iff)
    then have "clm_session_id c \<noteq> i"
      using assms(2,3) that(1-3) unfolding stepped_up_def lift_res_Ok_iff ok_or_Ok_iff by blast
    then show ?thesis
      unfolding bind_assoc [symmetric, where m = "get_session m i" for m i]
      using True by (auto intro!: frame_basic frame_step_up_other)
  qed (simp add: frame_basic)
  show ?thesis
    unfolding handle_mfa_verify_def
    apply (rule frame_basic(1), rule inside_rate_limit)
    apply (rule within_bind_results [OF tr inside_bearer_claims])
    apply (rule frame_basic(1), rule inside_body [OF assms(1)])
    apply (rule within_bind_results [OF tr], rule frame_basic)
    apply (rule within_bind_results [OF tr inside_user_of_claims])
    apply (clarsimp split: prod.split)
    apply (rule within_bind_results [OF tr], rule frame_basic)
    apply (rule within_bind_results [OF tr], intro frame_basic inside_totp)
    apply (rule up; assumption)
    done
qed

lemma inside_login:
  assumes "inside (req_body req)" "req_path req = ''/auth/login''" "\<not> logged_in_with_code S req ip i"
  shows "inside (handle_login S req ip)"
proof -
  note tr = frame_transp
  have other: "sess_id s \<noteq> i"
    if "lift_res (ok_or (sv_login_body (services S) bytes) e) v1 = (Ok b, v2)"
      "find_active_user S (lb_username b) v3 = (Ok user, v4)"
      "lift_res (verify_password (sv_argon2 (services S)) (lb_password b) (password_hash user)) v5 = (Ok pw, v6)"
      "\<not> \<not> pw" "login_mfa S user b v7 = (Ok m, v8)" "m"
      "create_session (session_manager_of S) (u_id user) d ip ua v = (Ok s, v')"
    for bytes e v1 v2 v3 v4 v5 v6 v7 v8 b user pw m d ua v s v'
  proof
    note prems = that
    assume "sess_id s = i"
    obtain code sec where code: "mfa_enabled user" "lb_mfa_token b = Some code" "mfa_secret user = Some sec"
      "verify_token (sv_totp (services S)) default_mfa_config sec code v7 = (Ok True, v8)"
      using login_mfa_Ok [OF prems(5)] prems(6) by auto
    then have "code_accepted S user code" unfolding code_accepted_def by blast
    moreover note code(1,2)
    moreover have "verify_password (sv_argon2 (services S)) (lb_password b) (password_hash user) = Ok True"
      using prems(3,4) by (simp add: lift_res_Ok_iff)
    ultimately have "logged_in_with_code S req ip i"
      using prems(1,2,7) assms(2) \<open>sess_id s = i\<close>
      unfolding logged_in_with_code_def lift_res_Ok_iff ok_or_Ok_iff by blast
    with assms(3) show False ..
  qed
  show ?thesis
    unfolding handle_login_def Let_def
    apply (rule frame_basic(1), rule inside_rate_limit)
    apply (rule frame_basic(1), rule inside_body [OF assms(1)])
    apply (rule within_bind_results [OF tr], rule frame_basic)
    apply (rule within_bind_results [OF tr], rule inside_login_steps)
    apply (rule frame_basic(1), rule inside_login_device, clarsimp split: prod.split)
    apply (rule within_bind_results [OF tr], rule frame_basic)
    apply (rule within_if, rule inside_reject_password)
    apply (rule within_bind_results [OF tr], rule inside_login_steps)
    apply (rule frame_basic(1), rule inside_record_device)
    apply (rule frame_basic(1), rule inside_login_steps)
    apply (rule within_if, intro frame_basic inside_audits)
    apply (rule frame_basic(1), rule frame_open, erule (6) other)
    apply (clarsimp split: prod.split)
    apply (rule frame_basic)
    done
qed

lemma flag_inside_request:
  assumes "inside (req_body req)" "inside (forward_upstream S req)"
    and "\<not> stepped_up S req i" "\<not> logged_in_with_code S req ip i"
  shows "inside (handle_request S req ip)"
  using assms by (intro inside_request_by inside_login inside_mfa_verify)

end

section \<open>One request after the other\<close>

context quiet_services begin

abbreviation kept :: "string \<Rightarrow> 'w \<Rightarrow> 'w \<Rightarrow> bool" where
  "kept i \<equiv> not_raised (session_manager_of S) ent i"

lemma quiet_kept: "quiet ent tm w w' \<Longrightarrow> kept i w w'"
  using stored_session_quiet [of ent tm w w' "session_manager_of S"]
  by (simp add: not_raised_def verified_at_def)

lemma kept_calls: "call_frame S (kept i)"
  by (intro calls_framed_by not_raised_preorder quiet_kept)

lemma kept_gate: "gate_frame S (kept i)"
proof (rule gate_frameI [OF kept_calls], unfold_locales)
  fix j u
  show "moves (kept i) (get_session (session_manager_of S) j)"
    by (rule withinI) (auto simp: not_raised_def verified_at_def dest!: ss.get_effect same_sessionD
        split: if_splits)
  show "moves (kept i) (delete_session (session_manager_of S) j)"
    by (rule withinI) (auto simp: not_raised_def verified_at_def dest!: ss.delete_effect split: if_splits)
  show "moves (kept i) (revoke_user_sessions (session_manager_of S) u)"
    by (rule withinI) (metis not_raised_def verified_at_def ss.revoke_effect option.distinct(1))
qed

lemma kept_create: "moves (kept i) (create_session (session_manager_of S) u d ip ua)"
  by (rule withinI) (auto simp: not_raised_def verified_at_def dest!: ss.create_effect split: if_splits)

lemma kept_update:
  "\<not> sess_mfa_verified s \<or> sess_id s \<noteq> i \<Longrightarrow> moves (kept i) (update_session (session_manager_of S) s)"
  by (rule withinI) (auto simp: not_raised_def verified_at_def dest!: ss.update_effect split: if_splits)

end

sublocale quiet_services \<subseteq> kf: gate_frame S "not_raised (session_manager_of S) ent i" for i
  by (rule kept_gate)

context quiet_services begin

lemma kept_open_session:
  assumes "mfa \<Longrightarrow>
    (\<And>d v s v'. create_session (session_manager_of S) (u_id user) d ip ua v = (Ok s, v') \<Longrightarrow> sess_id s \<noteq> i)"
  shows "moves (kept i) (open_session S ip ua user body mfa score)"
  unfolding open_session_def Let_def
  by (rule kf.frame_basic(1), rule within_read, rule kf.inside_fresh_device_id,
      rule within_bind_results [OF not_raised_preorder(2) kept_create],
      intro kf.frame_basic kf.inside_audits kf.inside_tokens kept_update)
    (use assms in auto)

lemma kept_step_up:
  assumes "j \<noteq> i"
  shows "moves (kept i) (bind_io (get_session (session_manager_of S) j)
    (\<lambda>s. update_session (session_manager_of S) (s\<lparr>sess_mfa_verified := True\<rparr>)))"
proof (rule withinI)
  fix w r w'
  assume b: "bind_io (get_session (session_manager_of S) j)
    (\<lambda>s. update_session (session_manager_of S) (s\<lparr>sess_mfa_verified := True\<rparr>)) w = (r, w')"
  show "kept i w w'"
  proof (cases "well_keyed (session_manager_of S) ent w")
    case True
    from b show ?thesis
    proof (cases rule: bind_io_runs)
      case (stopped c)
      then show ?thesis by (intro withinD [OF kf.frame_get_session])
    next
      case (continued s w1)
      have "sess_id (s\<lparr>sess_mfa_verified := True\<rparr>) \<noteq> i"
        using ss.get_Ok [OF continued(1) True] assms by auto
      then have "kept i w1 w'"
        by (intro withinD [OF kept_update continued(2)]) simp
      then show ?thesis
        using withinD [OF kf.frame_get_session continued(1)] not_raised_preorder(2)
        by (metis transpD)
    qed
  qed (simp add: not_raised_def)
qed

lemma kept_flag: "flag_frame S (kept i) i"
  by (intro flag_frame.intro kept_gate flag_frame_axioms.intro kept_open_session kept_step_up)

lemma raised_by_code:
  assumes "well_keyed (session_manager_of S) ent w" "moves (quiet ent tm) (req_body req)"
    and "handle_request S req ip w = (r, w')"
    and "verified_at (session_manager_of S) ent i w'" "\<not> verified_at (session_manager_of S) ent i w"
  shows "stepped_up S req i \<or> logged_in_with_code S req ip i"
proof (rule ccontr)
  assume no: "\<not> (stepped_up S req i \<or> logged_in_with_code S req ip i)"
  have "moves (kept i) (req_body req)"
    using assms(2) quiet_kept by (rule moves_weaken)
  then have "moves (kept i) (handle_request S req ip)"
    using no assms(2)
    by (intro flag_frame.flag_inside_request [OF kept_flag] forward_framed_by not_raised_preorder quiet_kept) auto
  with assms show False by (auto simp: not_raised_def dest: withinD)
qed

end

section \<open>Who raises the flag\<close>


text \<open>Alice steps her session up.\<close>

definition enrolled_row :: user_row where
  "enrolled_row = alice_row\<lparr>mfa_enabled := True, mfa_secret := Some charset\<rparr>"

definition her_session :: session where
  "her_session = alice_session\<lparr>sess_user_id := ''uuid-alice''\<rparr>"

definition step_up_world :: world where
  "step_up_world = alice_world\<lparr>user_rows := [enrolled_row],
     strings := [(''session:uuid-'', put_session her_session, 1735733700 * nanos_per_second)]\<rparr>"

definition her_claims :: claims where
  "her_claims = alice_claims\<lparr>sub := ''uuid-alice'', clm_mfa_verified := False\<rparr>"

definition step_up_request :: "world request" where
  "step_up_request =
     \<lparr>req_method = ''POST'', req_path = ''/auth/mfa/verify'', req_path_and_query = None,
      req_headers = [(''authorization'', ''Bearer '' @ put_token ''change-me-in-production'' her_claims)],
      req_body = (\<lambda>w. (Inr ''ABCDEF'', w))\<rparr>"

lemma her_bearer:
  assumes "clock w = clock start_world"
  shows "bearer_claims default_server step_up_request w = (Ok her_claims, w)"
  using assms
  by (intro token_bearer)
    (simp_all add: header_text_def ref_http_def step_up_request_def her_claims_def alice_claims_def start_world_def
      timestamp_def nanos_per_second_def)

lemma her_rate_ok:
  "\<exists>c. check_rate_limit default_server ''10.0.0.1'' ''mfa_verify'' 10 300 step_up_world
     = (Ok (), step_up_world\<lparr>counts := c\<rparr>)"
  by (simp add: check_rate_limit_def default_services step_up_world_def alice_world_def ref_run
      ref_counters_def incremented_def counter_at_def ref_expire_def)

lemma her_user:
  assumes "user_rows w = [enrolled_row]"
  shows "user_of_claims default_server her_claims w = (Ok (''uuid-alice'', enrolled_row), w)"
  using assms
  by (simp add: user_of_claims_def default_services find_user_by_id_def io_run ref_postgres_def
      ref_select_user_def sql_texts enrolled_row_def alice_row_def ok_or_def her_claims_def ref_platform_def
      prefix_def)

lemma her_code:
  "verify_token ref_totp default_mfa_config charset ''ABCDEF'' w = (Ok True, w)"
  by (simp add: verify_token_def new_totp_def ref_totp_def default_mfa_config_def charset_def io_run
      bind_res_def of_sum_def)

lemma her_session_got:
  "get_session (ref_manager 15) ''uuid-'' (step_up_world\<lparr>counts := c\<rparr>)
     = (Ok her_session, step_up_world\<lparr>counts := c\<rparr>)"
  by (simp add: get_session_def is_expired_def update_activity_def update_session_def
      serialize_session_def her_session_def alice_session_def step_up_world_def alice_world_def ref_run)

lemma her_session_raised:
  "update_session (ref_manager 15) (her_session\<lparr>sess_mfa_verified := True\<rparr>) (step_up_world\<lparr>counts := c\<rparr>)
     = (Ok (), step_up_world\<lparr>counts := c, strings := [(''session:uuid-'',
          put_session (her_session\<lparr>sess_mfa_verified := True\<rparr>), 1735733700 * nanos_per_second)]\<rparr>)"
  by (simp add: update_session_def serialize_session_def her_session_def alice_session_def
      step_up_world_def alice_world_def ref_run)

lemma she_steps_up:
  "\<exists>c r. handle_request default_server step_up_request ''10.0.0.1'' step_up_world
     = (Ok r, step_up_world\<lparr>counts := c, strings := [(''session:uuid-'',
          put_session (her_session\<lparr>sess_mfa_verified := True\<rparr>), 1735733700 * nanos_per_second)]\<rparr>)"
proof -
  obtain c where rate: "check_rate_limit default_server ''10.0.0.1'' ''mfa_verify'' 10 300 step_up_world
      = (Ok (), step_up_world\<lparr>counts := c\<rparr>)" using her_rate_ok by blast
  let ?w = "step_up_world\<lparr>counts := c\<rparr>"
  have w: "clock ?w = clock start_world" "user_rows ?w = [enrolled_row]"
    by (simp_all add: step_up_world_def alice_world_def)
  have body: "collect_body (req_body step_up_request) ?w = (Ok ''ABCDEF'', ?w)"
    by (simp add: collect_body_def step_up_request_def io_run)
  have parsed: "sv_mfa_verify_body (services default_server) t = Some \<lparr>mb_mfa_token = t\<rparr>" for t
    by (simp add: server_run)
  have manager: "session_manager_of default_server = ref_manager 15" by (rule default_services)
  have sid: "clm_session_id her_claims = ''uuid-''" by (simp add: her_claims_def alice_claims_def)
  have secret: "mfa_secret enrolled_row = Some charset" by (simp add: enrolled_row_def)
  have "\<exists>r. handle_mfa_verify default_server step_up_request ''10.0.0.1'' step_up_world
     = (Ok r, ?w\<lparr>strings := [(''session:uuid-'',
          put_session (her_session\<lparr>sess_mfa_verified := True\<rparr>), 1735733700 * nanos_per_second)]\<rparr>)"
    by (simp add: handle_mfa_verify_def bind_io_def rate her_bearer [OF w(1)] body parsed her_user [OF w(2)]
        secret manager sid her_code her_session_got her_session_raised unwrap_or_io_def lift_res_def
        default_services json_response_def)
  then obtain r where v: "handle_mfa_verify default_server step_up_request ''10.0.0.1'' step_up_world
     = (Ok r, ?w\<lparr>strings := [(''session:uuid-'',
          put_session (her_session\<lparr>sess_mfa_verified := True\<rparr>), 1735733700 * nanos_per_second)]\<rparr>)"
    by blast
  have "req_path step_up_request = ''/auth/mfa/verify''" "req_method step_up_request = ''POST''"
    by (simp_all add: step_up_request_def)
  with v show ?thesis by (simp add: handle_request_def route_def Let_def) blast
qed

lemma she_verified:
  "verified_at (session_manager_of default_server) ref_entries ''uuid-''
     (step_up_world\<lparr>counts := c, strings := [(''session:uuid-'',
        put_session (her_session\<lparr>sess_mfa_verified := True\<rparr>), 1735733700 * nanos_per_second)]\<rparr>)"
  by (simp add: verified_at_def stored_session_def default_server_def ref_run)

lemma she_starts:
  "well_keyed (session_manager_of default_server) ref_entries step_up_world"
  "\<not> verified_at (session_manager_of default_server) ref_entries ''uuid-'' step_up_world"
  by (simp_all add: well_keyed_def verified_at_def stored_session_def step_up_world_def default_server_def ref_run)
    (simp_all add: her_session_def alice_session_def)


end
