(* ===== verification/Account_Claims.thy ===== *)
theory Account_Claims
  imports Mfa_Claims Device_Rows
begin

text \<open>
  Accounts: how failed logins are answered, what registration and MFA enrolment do to the \<open>users\<close>
  table, and what a token says.
\<close>

section \<open>Refused logins\<close>

text \<open>
  A login whose credentials are refused: the user is unknown, or inactive, or the password is wrong
  (and the device's lost trust could be stored).
\<close>

definition refused_login :: "'w proxy_server \<Rightarrow> ip_addr \<Rightarrow> string \<Rightarrow> login_body \<Rightarrow> 'w \<Rightarrow> bool" where
  "refused_login S ip ua body w \<longleftrightarrow>
     (\<exists>found w1. find_user_by_username (db_of S) (lb_username body) w = (Ok found, w1)
       \<and> (case found of
            None \<Rightarrow> True
          | Some u \<Rightarrow>
              if is_active u then
                (\<exists>d ex w2 w3. login_device S ip ua u w1 = (Ok (d, ex), w2)
                  \<and> verify_password (sv_argon2 (services S)) (lb_password body) (password_hash u) = Ok False
                  \<and> store_device S ip u (decrease_trust 15 d) w2 = (Ok (), w3))
              else True))"

lemma reject_password_Err:
  assumes "store_device S ip u (decrease_trust 15 d) w = (Ok (), w1)"
  shows "\<exists>w'. reject_password S ip u body d w
    = (Err (AuthenticationFailed ''invalid credentials''), w')"
proof -
  obtain w2 where "audit_login S u (unwrap_or (lb_device_id body) ''unknown'') ip False w1 = (Ok (), w2)"
    unfolding audit_login_def by (rule exE [OF discard_total [OF panic_free_logs(1)]])
  with assms show ?thesis by (simp add: reject_password_def bind_io_def throw_def)
qed

lemma refused_login_Err:
  assumes "check_rate_limit S ip ''login'' 10 300 w = (Ok (), w1)"
    and "collect_body (req_body req) w1 = (Ok bytes, w2)" "sv_login_body (services S) bytes = Some body"
    and "refused_login S ip (unwrap_or (header_text (sv_http (services S)) req ''user-agent'') ''unknown'') body w2"
  shows "\<exists>w'. handle_login S req ip w = (Err (AuthenticationFailed ''invalid credentials''), w')"
proof -
  let ?ua = "unwrap_or (header_text (sv_http (services S)) req ''user-agent'') ''unknown''"
  obtain found w3 where f: "find_user_by_username (db_of S) (lb_username body) w2 = (Ok found, w3)"
    and c: "case found of None \<Rightarrow> True | Some u \<Rightarrow>
        if is_active u then
          (\<exists>d ex w2 w3'. login_device S ip ?ua u w3 = (Ok (d, ex), w2)
            \<and> verify_password (sv_argon2 (services S)) (lb_password body) (password_hash u) = Ok False
            \<and> store_device S ip u (decrease_trust 15 d) w2 = (Ok (), w3'))
        else True"
    using assms(4) unfolding refused_login_def by blast
  show ?thesis
  proof (cases "\<exists>u. found = Some u \<and> is_active u")
    case True
    then obtain u d ex w4 w5 where u: "found = Some u" "is_active u"
      and d: "login_device S ip ?ua u w3 = (Ok (d, ex), w4)"
      and pw: "verify_password (sv_argon2 (services S)) (lb_password body) (password_hash u) = Ok False"
      and st: "store_device S ip u (decrease_trust 15 d) w4 = (Ok (), w5)"
      using c by auto
    obtain w' where "reject_password S ip u body d w4
        = (Err (AuthenticationFailed ''invalid credentials''), w')"
      using reject_password_Err [OF st] by blast
    moreover have "find_active_user S (lb_username body) w2 = (Ok u, w3)"
      using f u by (simp add: find_active_user_Ok)
    ultimately show ?thesis
      using assms(1-3) d pw
      by (simp add: handle_login_def bind_io_def lift_res_def Let_def)
  next
    case False
    then have "find_active_user S (lb_username body) w2
        = (Err (AuthenticationFailed ''invalid credentials''), w3)"
      using f by (cases found) (auto simp: find_active_user_def bind_io_def lift_res_def)
    then show ?thesis
      using assms(1-3) by (simp add: handle_login_def bind_io_def lift_res_def Let_def)
  qed
qed


lemma wrong_password_refused:
  assumes "user_rows w = [alice_row]"
  shows "refused_login default_server ''10.0.0.1'' ''curl''
    \<lparr>lb_username = ''alice'', lb_password = ''guess'', lb_device_id = Some ''laptop'', lb_mfa_token = None\<rparr> w"
proof -
  have found: "find_user_by_username (db_of default_server) ''alice'' w = (Ok (Some alice_row), w)"
    using alice_found [OF assms] by (simp add: find_active_user_Ok)
  obtain d ex w2 where "login_device default_server ''10.0.0.1'' ''curl'' alice_row w = (Ok (d, ex), w2)"
    using login_device_ok by blast
  moreover obtain w3 where "store_device default_server ''10.0.0.1'' alice_row (decrease_trust 15 d) w2 = (Ok (), w3)"
    by (simp add: default_services store_device_def upsert_device_def io_run ref_postgres_def
        ref_execute_def sql_texts Let_def)
  moreover have "verify_password (sv_argon2 (services default_server)) ''guess'' (password_hash alice_row) = Ok False"
    by (simp add: alice_row_def verify_password_def default_services ref_argon2_def strip_prefix_def)
  ultimately show ?thesis
    using found by (simp add: refused_login_def alice_row_def)
qed


section \<open>Registration and enrolment\<close>

locale account_services = user_sql "db_of S" users
  for S :: "'w proxy_server" and users +
  assumes incr_keeps_users: "moves (\<lambda>w w'. users w' = users w) (redis_incr (sv_redis (services S)) (rate_key b ip) n)"
    and expire_keeps_users: "moves (\<lambda>w w'. users w' = users w) (redis_expire (sv_redis (services S)) (rate_key b ip) n)"
    and salt_keeps_users: "moves (\<lambda>w w'. users w' = users w) (a2_salt (sv_argon2 (services S)))"
    and rng_keeps_users: "moves (\<lambda>w w'. users w' = users w) (gen_range (sv_totp (services S)) bound)"
    and jwt_keeps_users: "moves (\<lambda>w w'. users w' = users w) (jwt_decode (sv_jwt (services S)) sec tok)"
begin

abbreviation same_users :: "'w \<Rightarrow> 'w \<Rightarrow> bool" where
  "same_users w w' \<equiv> users w' = users w"

lemma same_users_preorder: "reflp same_users" "transp same_users"
  by (auto simp: reflp_def transp_def)

lemmas users_basic = within_bind [OF same_users_preorder(2)] within_pure [OF same_users_preorder(1)]
  within_call within_read within_if

lemma rate_keeps_users: "moves same_users (check_rate_limit S ip b limit secs)"
  unfolding check_rate_limit_def Let_def by (intro users_basic incr_keeps_users expire_keeps_users)

lemma bearer_keeps_users: "moves same_users (bearer_claims S req)"
  unfolding bearer_claims_def validate_token_def Let_def by (intro users_basic jwt_keeps_users)

lemma secret_keeps_users: "moves same_users (generate_secret (sv_totp (services S)))"
proof -
  have "moves same_users (random_chars (sv_totp (services S)) n)" for n
    by (induction n) (auto intro!: users_basic rng_keeps_users)
  then show ?thesis by (simp add: generate_secret_def)
qed

lemma registered:
  assumes "handle_register S req ip w = (Ok resp, w')" "moves same_users (req_body req)"
  shows "\<exists>bytes body salt hash u. sv_register_body (services S) bytes = Some body
    \<and> 12 \<le> length (rb_password body)
    \<and> a2_hash (sv_argon2 (services S)) (rb_password body) salt = Inr hash
    \<and> fresh_user (rb_username body) (rb_email body) hash u \<and> inserted_user (users w) u (users w')
    \<and> resp_status resp = 201"
proof -
  obtain w1 bytes w2 body w3 hash w4 u where
    rate: "check_rate_limit S ip ''register'' 10 300 w = (Ok (), w1)"
    and body: "collect_body (req_body req) w1 = (Ok bytes, w2)" "sv_register_body (services S) bytes = Some body"
    and len: "12 \<le> length (rb_password body)"
    and free: "find_user_by_username (db_of S) (rb_username body) w2 = (Ok None, w3)"
    and hash: "hash_password (sv_argon2 (services S)) (rb_password body) w3 = (Ok hash, w4)"
    and new: "create_user (db_of S) (rb_username body) (rb_email body) hash w4 = (Ok u, w')"
    and resp: "resp_status resp = 201"
    using assms(1)
    by (auto simp: handle_register_def io_Ok io_cases ok_or_Ok_iff json_response_Ok_iff split: if_splits)
  obtain salt where salt: "a2_salt (sv_argon2 (services S)) w3 = (salt, w4)"
    "a2_hash (sv_argon2 (services S)) (rb_password body) salt = Inr hash"
    using hash by (auto simp: hash_password_def io_Ok of_sum_Ok_iff)
  have "moves same_users (collect_body (req_body req))"
    unfolding collect_body_def by (intro users_basic assms(2))
  from withinD [OF this body(1)] withinD [OF rate_keeps_users rate] ut.by_name_keeps [OF free]
    withinD [OF salt_keeps_users salt(1)]
  have "users w4 = users w" by simp
  then have "fresh_user (rb_username body) (rb_email body) hash u \<and> inserted_user (users w) u (users w')"
    using ut.insert_effect [OF new] by auto
  with salt(2) body(2) len resp show ?thesis by blast
qed

lemma enrolled:
  assumes "handle_mfa_enroll S req w = (Ok resp, w')"
  shows "\<exists>c w1 i user secret. bearer_claims S req w = (Ok c, w1)
    \<and> parse_uuid (platform_of S) (sub c) = Some i \<and> users w i = Some user
    \<and> users w' = updated_secret (users w) i secret
    \<and> length secret = 32 \<and> set secret \<subseteq> set charset
    \<and> sv_json (services S) (JObj [(''secret'', JStr secret),
         (''qr_code_url'', JStr (''otpauth://totp/zero-trust-proxy:'' @ email user @ ''?secret='' @ secret
            @ ''&issuer=zero-trust-proxy'')),
         (''manual_entry_key'', JStr secret)]) = Inr (resp_body resp) \<and> resp_status resp = 200"
proof -
  obtain c w1 i user w2 secret w3 where
    bearer: "bearer_claims S req w = (Ok c, w1)"
    and i: "parse_uuid (platform_of S) (sub c) = Some i"
    and user: "find_user_by_id (db_of S) i w1 = (Ok (Some user), w2)"
    and secret: "generate_secret (sv_totp (services S)) w2 = (Ok secret, w3)"
    and set: "set_user_mfa_secret (db_of S) i secret w3 = (Ok (), w')"
    and resp: "json_response (sv_json (services S)) 200 (enrollment_json
         \<lparr>enrol_secret = secret, qr_code_url = ''otpauth://totp/'' @ ''zero-trust-proxy'' @ '':'' @ email user
            @ ''?secret='' @ secret @ ''&issuer='' @ ''zero-trust-proxy'', manual_entry_key = secret\<rparr>) = Ok resp"
    using assms
    by (auto simp: handle_mfa_enroll_def user_of_claims_def io_Ok ok_or_Ok_iff generate_qr_url_def)
  have "users w1 = users w" "users w2 = users w1" "users w3 = users w2"
    using withinD [OF bearer_keeps_users bearer] ut.by_id_keeps [OF user] withinD [OF secret_keeps_users secret]
    by simp_all
  then have user': "users w i = Some user" and set': "users w' = updated_secret (users w) i secret"
    using ut.by_id_Ok [OF user] ut.enrol_effect [OF set] by simp_all
  have long: "length secret = 32" "set secret \<subseteq> set charset"
    using random_chars_Ok [of "sv_totp (services S)" 32] secret by (simp_all add: generate_secret_def)
  have "sv_json (services S) (JObj [(''secret'', JStr secret),
         (''qr_code_url'', JStr (''otpauth://totp/zero-trust-proxy:'' @ email user @ ''?secret='' @ secret
            @ ''&issuer=zero-trust-proxy'')),
         (''manual_entry_key'', JStr secret)]) = Inr (resp_body resp)" "resp_status resp = 200"
    using resp by (auto simp: json_response_Ok_iff enrollment_json_def)
  with bearer i user' set' long show ?thesis by blast
qed

end

interpretation ref_accounts: account_services "ref_server c" ref_users for c
proof -
  have "account_services_axioms (ref_server c) ref_users"
    by unfold_locales
      (auto simp: moves_def ref_server_def new_proxy_server_def ref_services_def ref_redis_def
        ref_expire_def ref_argon2_def ref_totp_def ref_jwt_def ref_users_def Let_def split: option.splits)
  moreover have "user_sql (db_of (ref_server c)) ref_users"
    using ref_sql.user_sql_axioms by (simp add: ref_server_def new_proxy_server_def ref_services_def)
  ultimately show "account_services (ref_server c) ref_users"
    by (rule account_services.intro [rotated])
qed


definition register_request :: "world request" where
  "register_request =
     \<lparr>req_method = ''POST'', req_path = ''/auth/register'', req_path_and_query = Some ''/auth/register'',
      req_headers = [], req_body = (\<lambda>w. (Inr (put_strings [''carol'', ''carol@example.org'', ''a long password'']), w))\<rparr>"

lemma carol_registers:
  "\<exists>resp w'. handle_register default_server register_request ''10.0.0.1'' login_world = (Ok resp, w')"
proof -
  obtain w1 where rate: "check_rate_limit default_server ''10.0.0.1'' ''register'' 10 300 login_world = (Ok (), w1)"
    "user_rows w1 = [alice_row]" "uuids w1 = 0"
    by (simp add: check_rate_limit_def default_services login_world_def ref_run ref_counters_def
      incremented_def counter_at_def ref_expire_def start_world_def)
  have "take_strings 3 (put_strings [u, e, p]) = Some [u, e, p]" for u e p
    using take_put_strings [of "[u, e, p]"] by (simp add: numeral_eq_Suc del: take_strings.simps)
  then have body: "sv_register_body (services default_server)
      (put_strings [''carol'', ''carol@example.org'', ''a long password''])
    = Some \<lparr>rb_username = ''carol'', rb_email = ''carol@example.org'', rb_password = ''a long password''\<rparr>"
    by (simp add: server_run)
  show ?thesis
    using rate(2,3)
    by (simp add: handle_register_def io_run rate(1) collect_body_def register_request_def body ok_or_def
        find_user_by_username_def default_services ref_postgres_def
        ref_select_user_def sql_texts alice_row_def hash_password_def ref_argon2_def create_user_def
        ref_insert_user_def json_response_def bits.simps Let_def)
qed


text \<open>C23: MFA enrolment: a valid token is all it takes. A successful enrolment gives the token's user, and
  no other, a new secret of 32 characters of the Base32 alphabet, switches MFA on, and answers with
  that secret and its provisioning URL. A user who already has a secret loses it, without a code of
  it being asked for; and no session is looked up: the whole run is the same whatever Redis
  answers, so a token whose session was logged out still enrols.\<close>

theorem mfa_enroll_replaces_secret:
  assumes "account_services S users" "handle_mfa_enroll S req w = (Ok resp, w')"
  shows "(\<exists>c w1 i user secret. bearer_claims S req w = (Ok c, w1)
      \<and> parse_uuid (platform_of S) (sub c) = Some i \<and> users w i = Some user
      \<and> users w' = updated_secret (users w) i secret
      \<and> length secret = 32 \<and> set secret \<subseteq> set charset
      \<and> sv_json (services S) (JObj [(''secret'', JStr secret),
           (''qr_code_url'', JStr (''otpauth://totp/zero-trust-proxy:'' @ email user @ ''?secret='' @ secret
              @ ''&issuer=zero-trust-proxy'')),
           (''manual_entry_key'', JStr secret)]) = Inr (resp_body resp) \<and> resp_status resp = 200)
    \<and> handle_mfa_enroll (S\<lparr>services := (services S)\<lparr>sv_redis := other\<rparr>\<rparr>) req w = (Ok resp, w')"
proof
  show "handle_mfa_enroll (S\<lparr>services := (services S)\<lparr>sv_redis := other\<rparr>\<rparr>) req w = (Ok resp, w')"
    using assms(2) by (simp add: handle_mfa_enroll_def bearer_claims_def user_of_claims_def [abs_def])
qed (rule account_services.enrolled [OF assms])

text \<open>The witness: Alice has logged out everywhere, and re-enrols with the old token.\<close>

definition logged_out_world :: world where
  "logged_out_world = step_up_world\<lparr>strings := []\<rparr>"

lemma she_enrols:
  "\<exists>r w'. handle_mfa_enroll default_server step_up_request logged_out_world = (Ok r, w')"
proof -
  have w: "clock logged_out_world = clock start_world" "user_rows logged_out_world = [enrolled_row]"
    by (simp_all add: logged_out_world_def step_up_world_def alice_world_def)
  obtain s w1 where s: "generate_secret ref_totp logged_out_world = (Ok s, w1)"
    using random_chars_total [of ref_totp 32 logged_out_world]
    by (auto simp: generate_secret_def ref_totp_def)
  show ?thesis
    by (simp add: handle_mfa_enroll_def bind_io_def her_bearer [OF w(1)] her_user [OF w(2)] default_services s
        generate_qr_url_def lift_res_def set_user_mfa_secret_def call_io_def of_sum_def ref_postgres_def
        ref_execute_def sql_texts ret_def json_response_def)
qed

theorem mfa_enroll_replaces_secret_witness:
  "\<exists>w' secret. ref_users w' = updated_secret (ref_users logged_out_world) ''uuid-alice'' secret
    \<and> length secret = 32 \<and> ref_users logged_out_world ''uuid-alice'' = Some enrolled_row"
proof -
  obtain r w' where e: "handle_mfa_enroll default_server step_up_request logged_out_world = (Ok r, w')"
    using she_enrols by blast
  have w: "clock logged_out_world = clock start_world" "user_rows logged_out_world = [enrolled_row]"
    by (simp_all add: logged_out_world_def step_up_world_def alice_world_def)
  have "parse_uuid (platform_of default_server) (sub her_claims) = Some ''uuid-alice''"
    by (simp add: default_services ref_platform_def her_claims_def)
  moreover obtain c w1 i secret where
    "bearer_claims default_server step_up_request logged_out_world = (Ok c, w1)"
    "parse_uuid (platform_of default_server) (sub c) = Some i"
    "ref_users w' = updated_secret (ref_users logged_out_world) i secret" "length secret = 32"
    using conjunct1 [OF mfa_enroll_replaces_secret [OF ref_accounts.account_services_axioms
        [of "default_config no_env", folded default_server_def] e]] by blast
  moreover have "ref_users logged_out_world ''uuid-alice'' = Some enrolled_row"
    using w(2) by (simp add: ref_users_def enrolled_row_def alice_row_def)
  ultimately show ?thesis
    using her_bearer [OF w(1)] by auto
qed

section \<open>Tokens\<close>

context jwt_services begin

lemmas issued_read = ti.issued_token

end

text \<open>C29: A token that a login hands out, sent back in the \<open>Authorization\<close> header of a later request,
  reads as the claims it was issued with: user, device, risk score, MFA flag and session. It is
  accepted as long as fewer than the configured hours have passed since before it was issued, and
  not accepted any more once they and the 60 seconds of leeway have passed since its \<open>iat\<close>.\<close>

theorem token_round_trip:
  assumes "jwt_services (platform_of S) (sv_jwt (services S)) tm"
    and "generate_token (platform_of S) (sv_jwt (services S)) (jwt_manager S) u d sc mfa sid w0 = (Ok tok, w1)"
    and "header_text (sv_http (services S)) req ''authorization'' = Some (''Bearer '' @ tok)"
    and "bearer_claims S req w2 = (r, w3)"
    and "0 \<le> timestamp (tm w0) + expiration_hours (jwt_manager S) * 3600"
  shows "(\<forall>c. r = Ok c \<longrightarrow> sub c = u \<and> clm_device_id c = d \<and> clm_risk_score c = sc
      \<and> clm_mfa_verified c = mfa \<and> clm_session_id c = sid
      \<and> timestamp (tm w2) \<le> iat c + expiration_hours (jwt_manager S) * 3600 + 60)
    \<and> (timestamp (tm w3) \<le> timestamp (tm w0) + expiration_hours (jwt_manager S) * 3600
        \<longrightarrow> (\<exists>c. r = Ok c))"
proof -
  have "validate_token (sv_jwt (services S)) (jwt_manager S) tok w2 = (r, w3)"
    using assms(3,4)
    by (simp add: bearer_claims_def unwrap_or_def extract_token_from_header_def starts_with_def
        strip_prefix_def prefix_def ok_or_def bind_io_def lift_res_def)
  then show ?thesis
    using jwt_services.issued_read [OF assms(1,2) _ assms(5)] by simp
qed

theorem token_round_trip_witness:
  "\<exists>tok w1 c w2. generate_token ref_platform ref_jwt (jwt_manager default_server) ''alice'' ''laptop'' 30 True
      ''uuid-'' start_world = (Ok tok, w1)
    \<and> bearer_claims default_server (alice_request\<lparr>req_headers := [(''authorization'', ''Bearer '' @ tok)]\<rparr>) w1
        = (Ok c, w2)
    \<and> sub c = ''alice'' \<and> clm_session_id c = ''uuid-'' \<and> clm_risk_score c = 30"
proof -
  obtain tok w1 where t: "generate_token ref_platform ref_jwt (jwt_manager default_server) ''alice'' ''laptop''
      30 True ''uuid-'' start_world = (Ok tok, w1)"
    using ref_token_ok [of start_world] unfolding default_services by blast
  let ?req = "alice_request\<lparr>req_headers := [(''authorization'', ''Bearer '' @ tok)]\<rparr>"
  obtain r w2 where b: "bearer_claims default_server ?req w1 = (r, w2)"
    by (cases "bearer_claims default_server ?req w1")
  have "clock w1 = clock start_world" "clock w2 = clock w1"
    using call_base.inside_tokens [OF call_frame.axioms(1), OF ref_clock_calls [of "default_config no_env"], THEN withinD]
      call_base.inside_bearer_claims [OF call_frame.axioms(1), OF ref_clock_calls [of "default_config no_env"], THEN withinD] t b
    by (simp_all add: default_server_def [symmetric]) (metis default_services(1,6))+
  moreover have "header_text (sv_http (services default_server)) ?req ''authorization'' = Some (''Bearer '' @ tok)"
    by (simp add: header_text_def default_services ref_http_def)
  moreover have "0 \<le> timestamp (clock start_world) + expiration_hours (jwt_manager default_server) * 3600"
    by (simp add: default_services start_world_def timestamp_def nanos_per_second_def)
  ultimately show ?thesis
    using token_round_trip [of default_server clock "''alice''" "''laptop''" 30 True "''uuid-''" start_world tok w1 ?req
        w1 r w2] t b ref_tokens.jwt_services_axioms
    by (auto simp: default_services)
qed

end
