(* ===== verification/Lifetime.thy ===== *)
theory Lifetime
  imports Quiet_Services Gate_Claims Login_Claims
begin

text \<open>
  The well-formedness of the session store as an invariant of the runs of the server, and what
  it means for the gate: a session lives for the configured minutes from its creation, however
  often it is used.
\<close>

section \<open>Sound stores\<close>

definition sound_session :: "'w session_manager \<Rightarrow> instant \<Rightarrow> session \<Rightarrow> bool" where
  "sound_session M t s \<longleftrightarrow>
     created_at s \<le> last_activity s \<and> last_activity s \<le> t
     \<and> expires_at s = created_at s + session_duration_minutes M * 60 * nanos_per_second"

definition sound_store ::
  "'w session_manager \<Rightarrow> ('w \<Rightarrow> entries) \<Rightarrow> ('w \<Rightarrow> instant) \<Rightarrow> 'w \<Rightarrow> bool" where
  "sound_store M ent tm w \<longleftrightarrow>
     well_keyed M ent w \<and> (\<forall>i s. stored_session M ent w i = Some s \<longrightarrow> sound_session M (tm w) s)"

definition keeps_sound ::
  "'w session_manager \<Rightarrow> ('w \<Rightarrow> entries) \<Rightarrow> ('w \<Rightarrow> instant) \<Rightarrow> 'w \<Rightarrow> 'w \<Rightarrow> bool" where
  "keeps_sound M ent tm w w' \<longleftrightarrow>
     tm w \<le> tm w' \<and> (sound_store M ent tm w \<longrightarrow> sound_store M ent tm w')"

lemma keeps_sound_preorder: "reflp (keeps_sound M ent tm)" "transp (keeps_sound M ent tm)"
  by (auto simp: keeps_sound_def reflp_def transp_def)

lemma sound_session_later: "sound_session M t s \<Longrightarrow> t \<le> t' \<Longrightarrow> sound_session M t' s"
  by (auto simp: sound_session_def)

lemma sound_session_flags [simp]:
  "sound_session M t (s\<lparr>sess_mfa_verified := m, sess_risk_score := n\<rparr>) = sound_session M t s"
  "sound_session M t (s\<lparr>sess_mfa_verified := m\<rparr>) = sound_session M t s"
  by (simp_all add: sound_session_def)

lemma sound_session_used:
  "sound_session M t s \<Longrightarrow> t \<le> t' \<Longrightarrow> t' \<le> t'' \<Longrightarrow> sound_session M t'' (s\<lparr>last_activity := t'\<rparr>)"
  by (simp add: sound_session_def)

text \<open>A store stays sound when time passes, sessions leave it, and sound ones are put in.\<close>

lemma sound_storeI:
  assumes "sound_store M ent tm w" "tm w \<le> tm w'" "well_keyed M ent w'"
    and "\<And>i s. stored_session M ent w' i = Some s \<Longrightarrow>
      stored_session M ent w i = Some s \<or> sound_session M (tm w') s"
  shows "sound_store M ent tm w'"
  using assms sound_session_later unfolding sound_store_def by blast

section \<open>The operations of the manager\<close>

context session_services begin

abbreviation sound :: "'w \<Rightarrow> bool" where
  "sound \<equiv> sound_store M ent tm"

lemma quiet_keeps_sound: "quiet ent tm w w' \<Longrightarrow> keeps_sound M ent tm w w'"
  using stored_session_quiet [of ent tm w w' M] quiet_time [of w w']
  by (auto simp: keeps_sound_def sound_store_def intro: sound_session_later)

lemma update_keeps_sound:
  assumes "update_session M s w = (r, w')" "sound w" "sound_session M (tm w) s"
  shows "keeps_sound M ent tm w w'"
proof -
  have t: "tm w \<le> tm w'" using withinD [OF within_later_update assms(1)] by (simp add: later_def)
  moreover have "well_keyed M ent w" using assms(2) by (simp add: sound_store_def)
  note u = update_session_effect [OF assms(1) this]
  have "sound w'"
    using assms(2) t conjunct1 [OF u]
  proof (rule sound_storeI)
    fix i s'
    assume "stored_session M ent w' i = Some s'"
    then show "stored_session M ent w i = Some s' \<or> sound_session M (tm w') s'"
      using u sound_session_later [OF assms(3) t] by (auto split: if_splits)
  qed
  ultimately show ?thesis by (simp add: keeps_sound_def)
qed

lemma delete_keeps_sound: "moves (keeps_sound M ent tm) (delete_session M i)"
proof (rule withinI)
  fix w r w'
  assume d: "delete_session M i w = (r, w')"
  then have t: "tm w \<le> tm w'" using withinD [OF within_later_delete] by (simp add: later_def)
  have "sound w'" if s: "sound w"
    using s t
  proof (rule sound_storeI)
    have "well_keyed M ent w" using s by (simp add: sound_store_def)
    note e = delete_session_effect [OF d this]
    then show "well_keyed M ent w'" by simp
    show "\<And>j s. stored_session M ent w' j = Some s \<Longrightarrow>
        stored_session M ent w j = Some s \<or> sound_session M (tm w') s"
      using e by (auto split: if_splits)
  qed
  with t show "keeps_sound M ent tm w w'" by (simp add: keeps_sound_def)
qed

lemma revoke_keeps_sound: "moves (keeps_sound M ent tm) (revoke_user_sessions M u)"
proof (rule withinI)
  fix w r w'
  assume d: "revoke_user_sessions M u w = (r, w')"
  have "moves (later tm) (revoke_user_sessions M u)"
    unfolding revoke_user_sessions_def Let_def
    by (intro within_bind later_preorder within_later_delete_sessions within_pure
        quiet_later within_get_user_sessions)
  then have t: "tm w \<le> tm w'" using withinD d by (fastforce simp: later_def)
  have "sound w'" if s: "sound w"
    using s t
  proof (rule sound_storeI)
    have "well_keyed M ent w" using s by (simp add: sound_store_def)
    note e = revoke_user_sessions_effect [OF d this]
    then show "well_keyed M ent w'" by simp
    show "\<And>j s. stored_session M ent w' j = Some s \<Longrightarrow>
        stored_session M ent w j = Some s \<or> sound_session M (tm w') s"
      using e by (metis option.distinct(1))
  qed
  with t show "keeps_sound M ent tm w w'" by (simp add: keeps_sound_def)
qed

text \<open>Getting stamps the session; the one it returns is sound in the world it leaves.\<close>

lemma get_keeps_sound:
  assumes "get_session M i w = (r, w')"
  shows "keeps_sound M ent tm w w'"
    "sound w \<Longrightarrow> r = Ok s \<Longrightarrow> sound_session M (tm w') s"
proof -
  have *: "keeps_sound M ent tm w w' \<and> (sound w \<longrightarrow> r = Ok s \<longrightarrow> sound_session M (tm w') s)"
    using assms
  proof (cases rule: get_session_steps)
    case failed
    then show ?thesis using quiet_keeps_sound by auto
  next
    case expired
    then show ?thesis
      using quiet_keeps_sound withinD [OF delete_keeps_sound expired(4)] keeps_sound_preorder(2)
      by (metis transpD)
  next
    case (refreshed w1 js d s0 t ru)
    note k = quiet_keeps_sound [OF refreshed(1)]
    have later: "tm w1 \<le> tm w'"
      using withinD [OF within_later_update refreshed(5)] by (simp add: later_def)
    show ?thesis
    proof (cases "sound w")
      case True
      have "sound_session M (tm w) s0"
        using True refreshed(2,3) unfolding sound_store_def stored_session_Some_iff by blast
      then have s: "sound_session M (tm w1) (s0\<lparr>last_activity := t\<rparr>)"
        using refreshed(7,8) by (rule sound_session_used)
      have "sound w1" using k True by (simp add: keeps_sound_def)
      then have "keeps_sound M ent tm w1 w'" using s by (rule update_keeps_sound [OF refreshed(5)])
      then show ?thesis
        using k keeps_sound_preorder(2) refreshed(6) sound_session_later [OF s later] by (metis transpD)
    qed (use k later in \<open>auto simp: keeps_sound_def\<close>)
  qed
  then show "keeps_sound M ent tm w w'" by simp
  from * show "sound w \<Longrightarrow> r = Ok s \<Longrightarrow> sound_session M (tm w') s" by simp
qed

lemma create_keeps_sound:
  assumes "create_session M u d ip ua w = (r, w')"
  shows "keeps_sound M ent tm w w'"
    "r = Ok s \<Longrightarrow> sound_session M (tm w') s"
proof -
  have *: "keeps_sound M ent tm w w' \<and> (r = Ok s \<longrightarrow> sound_session M (tm w') s)"
    using assms
  proof (cases rule: create_session_steps)
    case failed
    then show ?thesis using quiet_keeps_sound by auto
  next
    case (stored s1 w1 js c)
    note k = quiet_keeps_sound [OF stored(2)]
    have later: "tm w1 \<le> tm w'" by (rule key_time(1) [OF stored(4)])
    have s: "sound_session M (tm w1) s1"
    proof -
      obtain now w2 i where now: "utc_now (sm_platform M) w = (now, w2)"
        and i: "uuid_v4 (sm_platform M) w2 = (i, w1)" and s1: "created_at s1 = now" "last_activity s1 = now"
        using stored(1) by (auto simp: new_session_def io_Ok io_cases)
      have "now \<le> tm w1" using now_reads [OF now] uuid_quiet [OF i] by (simp add: quiet_def)
      with s1 new_session_fields [OF stored(1)] show ?thesis by (simp add: sound_session_def)
    qed
    have "sound w'" if "sound w"
    proof -
      have w1: "sound w1" using that k by (simp add: keeps_sound_def)
      then have "well_keyed M ent w1" by (simp add: sound_store_def)
      note e = set_session_effect [OF stored(4,3) this]
      show ?thesis
        using w1 later conjunct1 [OF e]
      proof (rule sound_storeI)
        fix j s'
        assume "stored_session M ent w' j = Some s'"
        then show "stored_session M ent w1 j = Some s' \<or> sound_session M (tm w') s'"
          using e sound_session_later [OF s later] by (auto split: if_splits)
      qed
    qed
    with k later have "keeps_sound M ent tm w w'" by (simp add: keeps_sound_def)
    with stored(5) sound_session_later [OF s later] show ?thesis by blast
  qed
  then show "keeps_sound M ent tm w w'" by simp
  from * show "r = Ok s \<Longrightarrow> sound_session M (tm w') s" by simp
qed

end

section \<open>Runs of the server\<close>

context quiet_services begin

abbreviation manager where
  "manager \<equiv> session_manager_of S"

lemma sound_calls: "call_frame S (keeps_sound manager ent tm)"
  by (intro calls_framed_by keeps_sound_preorder quiet_keeps_sound)

end

sublocale quiet_services \<subseteq> sc: call_frame S "keeps_sound manager ent tm"
  by (rule sound_calls)

context quiet_services begin

text \<open>A stored session is written back right after it was made or read, and is sound then.\<close>

lemma update_then_sound:
  assumes "bind_io (update_session manager s) k w = (r, w')"
    and "keeps_sound manager ent tm v w" "sound v \<Longrightarrow> sound_session manager (tm w) s"
    and "\<And>x. moves (keeps_sound manager ent tm) (k x)"
  shows "keeps_sound manager ent tm v w'"
proof -
  have step: "keeps_sound manager ent tm v w1" if u: "update_session manager s w = (ru, w1)" for ru w1
  proof -
    have "tm w \<le> tm w1" using withinD [OF within_later_update u] by (simp add: later_def)
    then show ?thesis
      using assms(2,3) update_keeps_sound [OF u] by (fastforce simp: keeps_sound_def)
  qed
  from assms(1) show ?thesis
  proof (cases rule: bind_io_runs)
    case (stopped c)
    then show ?thesis by (intro step)
  next
    case (continued x w1)
    then show ?thesis
      using step [OF continued(1)] withinD [OF assms(4) continued(2)] keeps_sound_preorder(2)
      by (metis transpD)
  qed
qed

lemma sound_open_session: "moves (keeps_sound manager ent tm) (open_session S ip ua user body mfa score)"
proof (rule withinI)
  fix w r w'
  assume o: "open_session S ip ua user body mfa score w = (r, w')"
  obtain dev w1 where dev: "fresh_device_id S body w = (dev, w1)" by (cases "fresh_device_id S body w")
  obtain c w2 where c: "create_session manager (u_id user) dev ip ua w1 = (c, w2)"
    by (cases "create_session manager (u_id user) dev ip ua w1")
  have k: "keeps_sound manager ent tm w w2"
    using withinD [OF sc.inside_fresh_device_id dev] create_keeps_sound(1) [OF c] keeps_sound_preorder(2)
    by (metis transpD)
  show "keeps_sound manager ent tm w w'"
  proof (cases c)
    case (Ok s)
    let ?s = "s\<lparr>sess_mfa_verified := mfa, sess_risk_score := total_score score\<rparr>"
    have "bind_io (update_session manager ?s) (\<lambda>_. bind_io (audit_login S user dev ip True) (\<lambda>_.
        bind_io (generate_token (platform_of S) (sv_jwt (services S)) (jwt_manager S) (u_id user) dev
          (sess_risk_score ?s) mfa (sess_id s)) (\<lambda>token. ret (?s, token)))) w2 = (r, w')"
      using o dev c by (simp add: open_session_def bind_io_def read_io_def Ok Let_def)
    then show ?thesis
      by (rule update_then_sound) (use k create_keeps_sound(2) [OF c Ok] in
        \<open>auto intro!: sc.frame_basic sc.inside_audits sc.inside_tokens\<close>)
  qed (use o dev c k in \<open>simp_all add: open_session_def bind_io_def read_io_def\<close>)
qed

lemma sound_step_up:
  "moves (keeps_sound manager ent tm) (bind_io (get_session manager i)
    (\<lambda>s. update_session manager (s\<lparr>sess_mfa_verified := True\<rparr>)))"
proof (rule withinI)
  fix w r w'
  assume b: "bind_io (get_session manager i)
    (\<lambda>s. update_session manager (s\<lparr>sess_mfa_verified := True\<rparr>)) w = (r, w')"
  then show "keeps_sound manager ent tm w w'"
  proof (cases rule: bind_io_runs)
    case (stopped c)
    then show ?thesis by (intro get_keeps_sound(1))
  next
    case (continued s w1)
    note g = get_keeps_sound [OF continued(1)]
    have "bind_io (update_session manager (s\<lparr>sess_mfa_verified := True\<rparr>)) ret w1 = (r, w')"
      using continued(2) by (simp add: bind_io_def ret_def split: outcome.splits)
    then show ?thesis
      by (rule update_then_sound) (use g in \<open>auto intro!: sc.frame_basic\<close>)
  qed
qed

lemma sound_handlers: "handler_frame S (keeps_sound manager ent tm)"
  by unfold_locales
    (rule withinI, erule get_keeps_sound(1)
      | rule delete_keeps_sound revoke_keeps_sound sound_open_session sound_step_up)+

lemma sound_request:
  assumes "moves (quiet ent tm) (req_body req)"
  shows "moves (keeps_sound manager ent tm) (handle_request S req ip)"
  by (intro handler_frame.inside_request [OF sound_handlers] forward_framed_by keeps_sound_preorder
      quiet_keeps_sound assms moves_weaken [OF assms])

lemma sound_served:
  assumes "served S (quiet ent tm) w w'"
  shows "keeps_sound manager ent tm w w'"
  using assms
proof induction
  case started
  show ?case using keeps_sound_preorder(1) by (rule reflpD)
next
  case (request w w1 req ip r w2)
  then show ?case using withinD [OF sound_request] keeps_sound_preorder(2) by (metis transpD)
next
  case (environment w w1 w2)
  then show ?case using quiet_keeps_sound keeps_sound_preorder(2) by (metis transpD)
qed

lemma fresh_store_sound:
  assumes "\<And>i. ent w (session_key i) = None"
  shows "sound w"
  using assms by (simp add: sound_store_def well_keyed_def stored_session_def)

text \<open>Whom the gate admits has a stored session whose time is not over.\<close>

lemma admitted_in_time:
  assumes "sound w" "authorize S req mth path ip w = (Ok (), w')"
  shows "\<exists>c w1 s. bearer_claims S req w = (Ok c, w1)
    \<and> stored_session manager ent w (clm_session_id c) = Some s \<and> sess_id s = clm_session_id c
    \<and> tm w \<le> created_at s + session_duration_minutes manager * 60 * nanos_per_second"
proof -
  obtain c w1 s w2 where b: "bearer_claims S req w = (Ok c, w1)"
    and g: "get_session manager (clm_session_id c) w1 = (Ok s, w2)"
    using assms(2) by (auto simp: authorize_def io_Ok)
  have q: "quiet ent tm w w1" by (rule withinD [OF qc.inside_bearer_claims b])
  then have "well_keyed manager ent w1"
    using assms(1) by (simp add: sound_store_def stored_session_quiet)
  from get_session_Ok [OF g this] obtain s0 where s0: "stored_session manager ent w1 (clm_session_id c) = Some s0"
    "same_session s0 s" "sess_id s = clm_session_id c" "tm w1 \<le> expires_at s"
    by blast
  note st = s0(1) [unfolded stored_session_quiet(1) [OF q, of manager]]
  have "sound_session manager (tm w) s0" using assms(1) st by (simp add: sound_store_def)
  moreover have "tm w \<le> expires_at s0"
    using q s0(4) same_sessionD [OF s0(2)] by (simp add: quiet_def)
  ultimately show ?thesis
    using b st same_sessionD [OF s0(2)] s0(3) by (auto simp: sound_session_def)
qed

lemma run_lifetime:
  assumes "\<And>i. ent w0 (session_key i) = None" "served S (quiet ent tm) w0 w"
  shows "sound w"
  using sound_served [OF assms(2)] fresh_store_sound [of w0] assms(1) by (simp add: keeps_sound_def)

end

section \<open>Sessions end\<close>

text \<open>C6: The store is well formed throughout every run of the server that starts without sessions, in
  which requests are handled one after the other and nobody else writes sessions: each session is
  kept under its own id, was last active between its creation and now, and expires exactly the
  configured number of minutes after it was created. So use does not prolong a session: whatever
  the gate admits in such a run comes with a token of a stored session that was created at most
  that long ago, however many requests it made since.\<close>

theorem session_lifetime:
  assumes "quiet_services S ent tm" "\<And>i. ent w0 (session_key i) = None"
    and "served S (quiet ent tm) w0 w"
  shows "sound_store (session_manager_of S) ent tm w
    \<and> (\<forall>req mth path ip w'. authorize S req mth path ip w = (Ok (), w') \<longrightarrow>
        (\<exists>c w1 s. bearer_claims S req w = (Ok c, w1)
          \<and> stored_session (session_manager_of S) ent w (clm_session_id c) = Some s
          \<and> sess_id s = clm_session_id c
          \<and> tm w \<le> created_at s
              + session_duration_minutes (session_manager_of S) * 60 * nanos_per_second))"
  using quiet_services.run_lifetime [OF assms] quiet_services.admitted_in_time [OF assms(1)] by blast

text \<open>The witness: after Alice's login, the session in the store ends after a quarter of an hour.\<close>

theorem session_lifetime_witness:
  "\<exists>r w. handle_request default_server (login_request ''correct horse'') ''10.0.0.1'' login_world = (Ok r, w)
    \<and> sound_store (session_manager_of default_server) ref_entries clock w"
proof -
  obtain resp w where l: "handle_login default_server (login_request ''correct horse'') ''10.0.0.1''
    login_world = (Ok resp, w)" using alice_logs_in by blast
  then have h: "handle_request default_server (login_request ''correct horse'') ''10.0.0.1'' login_world
      = (Ok resp, w)"
    by (simp add: handle_request_def route_def Let_def) (simp add: login_request_def)
  have "served default_server (quiet ref_entries clock) login_world w"
    by (rule served.request [OF served.started _ h]) (simp add: moves_def quiet_def login_request_def)
  moreover have "ref_entries login_world (session_key i) = None" for i
    by (simp add: ref_entries_def login_world_def start_world_def)
  ultimately show ?thesis
    using session_lifetime [OF ref_quiet.quiet_services_axioms [of "default_config no_env", folded default_server_def]]
      h by blast
qed

end
