(* ===== verification/Audit_Trail.thy ===== *)
theory Audit_Trail
  imports Gate_Claims Quiet_Services
begin

text \<open>
  The audit trail of the gate: the rows of \<open>audit_log\<close> a run of \<open>authorize\<close> adds, on each of its ways out.
\<close>

section \<open>Rows\<close>

type_synonym audit_columns = "json sql_value list"

text \<open>A row as \<open>AuditLogger::log\<close> binds it, whatever id it was given.\<close>

definition audit_entry ::
  "'w platform \<Rightarrow> event_type \<Rightarrow> string \<Rightarrow> ip_addr \<Rightarrow> string \<Rightarrow> string \<Rightarrow> audit_outcome \<Rightarrow> u32 \<Rightarrow> json
     \<Rightarrow> audit_columns \<Rightarrow> bool" where
  "audit_entry P ty user ip res act out score meta row \<longleftrightarrow>
     (\<exists>i. row = [SqlUuid i, SqlText (event_type_text ty), option_value SqlUuid (parse_uuid P user),
        SqlText (if parse_ip P ip \<noteq> None then ip else ''0.0.0.0''), SqlText res, SqlText act,
        SqlText (outcome_text out), SqlInt score, SqlJson meta])"

definition decision_entry ::
  "'w proxy_server \<Rightarrow> claims \<Rightarrow> ip_addr \<Rightarrow> string \<Rightarrow> string \<Rightarrow> bool \<Rightarrow> u32 \<Rightarrow> audit_columns \<Rightarrow> bool" where
  "decision_entry S c ip path mth allow score =
     audit_entry (platform_of S) Authorization (sub c) ip path mth (if allow then Success else Blocked) score (JObj [])"

definition risk_entry :: "'w proxy_server \<Rightarrow> claims \<Rightarrow> ip_addr \<Rightarrow> u32 \<Rightarrow> audit_columns \<Rightarrow> bool" where
  "risk_entry S c ip score row \<longleftrightarrow>
     (\<exists>fs. audit_entry (platform_of S) RiskEvaluation (sub c) ip ''/'' ''evaluate_risk'' Success score
        (fold_device_id (Some (clm_device_id c)) (factors_json fs)) row)"

text \<open>
  The rows a run of \<open>authorize\<close> on \<open>req\<close> in \<open>w\<close> adds, by its outcome: the score of an admitted or blocked
  request and then the decision; the decision alone when the policies deny; the score alone when MFA is
  missing; nothing when the token or the session is refused.
\<close>

definition gate_trail ::
  "'w proxy_server \<Rightarrow> 'w request \<Rightarrow> string \<Rightarrow> string \<Rightarrow> ip_addr \<Rightarrow> 'w \<Rightarrow> unit proxy_result
     \<Rightarrow> audit_columns list \<Rightarrow> bool" where
  "gate_trail S req mth path ip w r new \<longleftrightarrow>
     (case r of
        Ok _ \<Rightarrow> \<exists>c w1 sc a b. bearer_claims S req w = (Ok c, w1) \<and> new = [a, b]
          \<and> risk_entry S c ip sc a \<and> decision_entry S c ip path mth True sc b
      | Err (AuthorizationDenied _) \<Rightarrow> \<exists>c w1 sc b. bearer_claims S req w = (Ok c, w1) \<and> new = [b]
          \<and> decision_entry S c ip path mth False sc b
      | Err (RiskThresholdExceeded sc _) \<Rightarrow> \<exists>c w1 a b. bearer_claims S req w = (Ok c, w1) \<and> new = [a, b]
          \<and> risk_entry S c ip sc a \<and> decision_entry S c ip path mth False sc b
      | Err MfaRequired \<Rightarrow> \<exists>c w1 sc a. bearer_claims S req w = (Ok c, w1) \<and> new = [a] \<and> risk_entry S c ip sc a
      | _ \<Rightarrow> new = [])"

text \<open>The errors of the token and the session are none of the gate's own.\<close>

definition foreign_error :: "'a proxy_result \<Rightarrow> bool" where
  "foreign_error r \<longleftrightarrow>
     (case r of
        Ok _ \<Rightarrow> False
      | Err (AuthorizationDenied _) \<Rightarrow> False | Err (RiskThresholdExceeded _ _) \<Rightarrow> False
      | Err MfaRequired \<Rightarrow> False | _ \<Rightarrow> True)"

lemma foreign_errorI:
  "r = Panic \<or> (\<exists>m. r = Err (AuthenticationFailed m) \<or> r = Err (InvalidSession m) \<or> r = Err (RedisError m)
      \<or> r = Err (SerializationError m) \<or> r = Err (JwtError m)) \<Longrightarrow> foreign_error r"
  by (auto simp: foreign_error_def)

definition tame :: "('w, 'a) proxy_io \<Rightarrow> bool" where
  "tame m \<longleftrightarrow> (\<forall>w r w'. m w = (r, w') \<longrightarrow> (\<exists>x. r = Ok x) \<or> foreign_error r)"

lemma foreign_retype:
  "foreign_error (Err e :: 'a proxy_result) \<Longrightarrow> foreign_error (Err e :: 'b proxy_result)"
  by (simp add: foreign_error_def split: proxy_error.splits)

lemma tameD: "tame m \<Longrightarrow> m w = (r, w') \<Longrightarrow> (\<exists>x. r = Ok x) \<or> foreign_error r"
  unfolding tame_def by blast

lemma tame_bind:
  assumes "tame m" "\<And>x. tame (k x)"
  shows "tame (bind_io m k)"
  unfolding tame_def
proof (intro allI impI)
  fix w r w'
  assume b: "bind_io m k w = (r, w')"
  obtain a w1 where a: "m w = (a, w1)" by (cases "m w")
  from tameD [OF assms(1) a] show "(\<exists>y. r = Ok y) \<or> foreign_error r"
  proof (cases a)
    case (Ok x)
    with a b have "k x w1 = (r, w')" by (simp add: bind_io_def)
    then show ?thesis by (rule tameD [OF assms(2)])
  next
    case (Err e)
    with a b have "r = Err e" by (simp add: bind_io_def)
    with tameD [OF assms(1) a] Err show ?thesis by (auto intro: foreign_retype)
  next
    case Panic
    with a b show ?thesis by (simp add: bind_io_def foreign_error_def)
  qed
qed

lemma tame_basic:
  "tame (ret x)" "tame (read_io c)" "tame (call_io RedisError d)" "tame (call_io JwtError d)"
  "tame (throw (InvalidSession m))" "tame (lift_res (of_sum SerializationError y))"
  "tame (lift_res (extract_token_from_header h))"
  by (auto simp: tame_def ret_def read_io_def call_io_def throw_def lift_res_def of_sum_def ok_or_def
      extract_token_from_header_def intro!: foreign_errorI split: prod.splits sum.splits option.splits if_splits)

lemma tame_gate:
  "tame (bearer_claims S req)" "tame (get_session (session_manager_of S) i)"
proof -
  show "tame (bearer_claims S req)"
    unfolding bearer_claims_def validate_token_def Let_def by (intro tame_bind tame_basic)
  show "tame (get_session (session_manager_of S) i)"
    unfolding get_session_def update_session_def delete_session_def serialize_session_def Let_def
    by (auto intro!: tame_bind tame_basic split: option.split)
qed

section \<open>A server whose log can be written\<close>

locale audited =
  fixes S :: "'w proxy_server" and rows :: "'w \<Rightarrow> audit_columns list"
  assumes insert_row: "\<exists>n w'. pg_execute (db_of S) audit_insert_sql vs w = (Inr n, w') \<and> rows w' = rows w @ [vs]"
    and now_keeps_rows: "moves (\<lambda>w w'. rows w' = rows w) (utc_now (platform_of S))"
    and uuid_keeps_rows: "moves (\<lambda>w w'. rows w' = rows w) (uuid_v4 (platform_of S))"
    and jwt_keeps_rows: "moves (\<lambda>w w'. rows w' = rows w) (jwt_decode (sv_jwt (services S)) sec tok)"
    and get_keeps_rows: "moves (\<lambda>w w'. rows w' = rows w) (redis_get (sv_redis (services S)) k)"
    and set_keeps_rows: "moves (\<lambda>w w'. rows w' = rows w) (redis_set_ex (sv_redis (services S)) k v ttl)"
    and del_keeps_rows: "moves (\<lambda>w w'. rows w' = rows w) (redis_del (sv_redis (services S)) k)"
begin

abbreviation same_rows :: "'w \<Rightarrow> 'w \<Rightarrow> bool" where
  "same_rows w w' \<equiv> rows w' = rows w"

lemma same_rows_preorder: "reflp same_rows" "transp same_rows"
  by (auto simp: reflp_def transp_def)

lemmas rows_basic = within_bind [OF same_rows_preorder(2)] within_pure [OF same_rows_preorder(1)]
  within_call within_read within_unwrap_or within_if

lemmas rows_calls = now_keeps_rows uuid_keeps_rows jwt_keeps_rows get_keeps_rows set_keeps_rows del_keeps_rows

lemma rows_pair: "moves same_rows (\<lambda>w. (x, w))"
  by (simp add: moves_def)

lemma rows_chain:
  "moves same_rows m \<Longrightarrow> (\<And>x. moves same_rows (k x)) \<Longrightarrow>
     moves same_rows (\<lambda>w. case m w of (x, w') \<Rightarrow> k x w')"
  by (simp add: moves_def split: prod.splits) (metis snd_conv)

lemma rows_bearer: "moves same_rows (bearer_claims S req)"
  unfolding bearer_claims_def validate_token_def Let_def by (intro rows_basic rows_calls)

lemma rows_get_session: "moves same_rows (get_session (session_manager_of S) i)"
proof -
  have reads: "moves same_rows (is_expired (platform_of S) s)" "moves same_rows (update_activity (platform_of S) s)"
    for s
    unfolding is_expired_def update_activity_def by (intro rows_chain rows_pair rows_calls)+
  show ?thesis
    unfolding get_session_def update_session_def delete_session_def serialize_session_def Let_def manager_parts
    by (auto intro!: rows_basic rows_calls reads split: option.split)
qed

lemma rows_request_risk: "moves same_rows (evaluate_request_risk S s ip c)"
proof -
  have "moves same_rows (new_device (platform_of S) u ua ip m)" for u ua m
    unfolding new_device_def Let_def
    by (cases "parse_user_agent ua") (auto intro!: rows_chain rows_pair rows_calls)
  then have dev: "moves same_rows (request_device S s ip c)"
    unfolding request_device_def Let_def by (intro rows_chain rows_pair)
  have "moves same_rows (calculate_device_risk (platform_of S) d)" for d
    unfolding calculate_device_risk_def Let_def
    by (auto intro!: rows_chain rows_pair rows_calls split: prod.split)
  then have "moves same_rows (calculate_risk (platform_of S) eng ctx)" for eng ctx
    unfolding calculate_risk_def Let_def
    by (auto intro!: rows_basic rows_calls split: prod.split)
  with dev show ?thesis
    unfolding evaluate_request_risk_def by (intro rows_basic rows_calls)
qed

lemma rows_new_event: "moves same_rows (new_event (platform_of S) ty u d ip res act out)"
  unfolding new_event_def Let_def by (auto intro!: rows_chain rows_pair rows_calls)

text \<open>Logging an event adds its row.\<close>

lemma logged:
  "\<exists>i w'. log_event (platform_of S) (db_of S) e w = (Ok (), w')
     \<and> rows w' = rows w @ [audit_binds (platform_of S) e i]"
proof -
  obtain i w1 where i: "parse_or_fresh (platform_of S) (ev_id e) w = (i, w1)"
    by (cases "parse_or_fresh (platform_of S) (ev_id e) w")
  then have "rows w1 = rows w"
    by (auto simp: parse_or_fresh_def split: option.splits dest: withinD [OF uuid_keeps_rows])
  moreover obtain n w2 where "pg_execute (db_of S) audit_insert_sql (audit_binds (platform_of S) e i) w1 = (Inr n, w2)"
    "rows w2 = rows w1 @ [audit_binds (platform_of S) e i]" using insert_row by blast
  ultimately show ?thesis
    using i by (auto simp: log_event_def bind_io_def read_io_def call_io_def of_sum_def ret_def)
qed

lemma new_event_fields:
  "new_event P ty u d ip res act out w = (e, w') \<Longrightarrow>
     ev_type e = ty \<and> ev_user_id e = u \<and> ev_device_id e = d \<and> ev_ip_address e = ip \<and> ev_resource e = res
     \<and> ev_action e = act \<and> ev_outcome e = out \<and> ev_metadata e = JObj []"
  by (auto simp: new_event_def Let_def split: prod.splits)

lemma decision_logged:
  assumes "audit_authorization S c ip path mth allow score w = (r, w')"
  shows "r = Ok () \<and> (\<exists>row. decision_entry S c ip path mth allow score row \<and> rows w' = rows w @ [row])"
proof -
  let ?new = "new_event (platform_of S) Authorization (Some (sub c)) None ip path mth
    (if allow then Success else Blocked)"
  obtain e w1 where e: "?new w = (e, w1)" by (cases "?new w")
  let ?e = "with_risk_score e score"
  obtain i w2 where l: "log_event (platform_of S) (db_of S) ?e w1 = (Ok (), w2)"
    "rows w2 = rows w1 @ [audit_binds (platform_of S) ?e i]" using logged by blast
  have "r = Ok ()" "w' = w2"
    using assms e l by (simp_all add: audit_authorization_def log_authorization_def discard_def bind_io_def read_io_def)
  moreover have "rows w1 = rows w" using withinD [OF rows_new_event e] .
  moreover have "decision_entry S c ip path mth allow score (audit_binds (platform_of S) ?e i)"
    using new_event_fields [OF e]
    by (simp add: decision_entry_def audit_entry_def audit_binds_def with_risk_score_def fold_device_id_def
        option_value_def)
  ultimately show ?thesis using l by auto
qed

lemma risk_logged:
  assumes "discard (log_risk_evaluation (platform_of S) (db_of S) (sub c) (clm_device_id c) ip score
      (factors_json fs)) w = (r, w')"
  shows "r = Ok () \<and> (\<exists>row. risk_entry S c ip score row \<and> rows w' = rows w @ [row])"
proof -
  let ?new = "new_event (platform_of S) RiskEvaluation (Some (sub c)) (Some (clm_device_id c)) ip ''/''
    ''evaluate_risk'' Success"
  obtain e w1 where e: "?new w = (e, w1)" by (cases "?new w")
  let ?e = "with_metadata (with_risk_score e score) (factors_json fs)"
  obtain i w2 where l: "log_event (platform_of S) (db_of S) ?e w1 = (Ok (), w2)"
    "rows w2 = rows w1 @ [audit_binds (platform_of S) ?e i]" using logged by blast
  have "r = Ok ()" "w' = w2"
    using assms e l by (simp_all add: log_risk_evaluation_def discard_def bind_io_def read_io_def)
  moreover have "rows w1 = rows w" using withinD [OF rows_new_event e] .
  moreover have "risk_entry S c ip score (audit_binds (platform_of S) ?e i)"
    using new_event_fields [OF e]
    by (simp add: risk_entry_def audit_entry_def audit_binds_def with_risk_score_def with_metadata_def
        option_value_def) blast
  ultimately show ?thesis using l by auto
qed

lemma risk_trail:
  assumes "authorize_risk S c s mth path ip w = (r, w')" "bearer_claims S req v = (Ok c, v')" "rows w = rows v"
  shows "\<exists>new. rows w' = rows v @ new \<and> gate_trail S req mth path ip v r new"
proof -
  obtain score w1 where e: "evaluate_request_risk S s ip c w = (Ok score, w1)" by (metis request_risk_total)
  obtain rl w2 where l: "discard (log_risk_evaluation (platform_of S) (db_of S) (sub c) (clm_device_id c) ip
      (total_score score) (factors_json (factors score))) w1 = (rl :: unit proxy_result, w2)"
    by (cases "discard (log_risk_evaluation (platform_of S) (db_of S) (sub c) (clm_device_id c) ip
      (total_score score) (factors_json (factors score))) w1 :: unit proxy_result \<times> 'w")
  obtain a where rl: "rl = Ok ()" and a: "risk_entry S c ip (total_score score) a" "rows w2 = rows v @ [a]"
    using risk_logged [OF l] withinD [OF rows_request_risk e] assms(3) by auto
  have dec: "\<exists>b w3. audit_authorization S c ip path mth allow (total_score score) w2 = (Ok (), w3)
      \<and> decision_entry S c ip path mth allow (total_score score) b \<and> rows w3 = rows v @ [a, b]" for allow
    using decision_logged [of c ip path mth allow "total_score score" w2] a(2)
    by (cases "audit_authorization S c ip path mth allow (total_score score) w2") auto
  obtain bt wt where t: "audit_authorization S c ip path mth True (total_score score) w2 = (Ok (), wt)"
    "decision_entry S c ip path mth True (total_score score) bt" "rows wt = rows v @ [a, bt]"
    using dec by blast
  obtain bf wf where f: "audit_authorization S c ip path mth False (total_score score) w2 = (Ok (), wf)"
    "decision_entry S c ip path mth False (total_score score) bf" "rows wf = rows v @ [a, bf]"
    using dec by blast
  consider "r = Ok ()" "w' = wt" | "r = Err MfaRequired" "w' = w2"
    | "r = Err (RiskThresholdExceeded (total_score score) (cfg_block_threshold (Config.risk (config S))))" "w' = wf"
    using assms(1) e l rl t(1) f(1)
    by (cases "recommendation score")
      (auto simp: authorize_risk_def bind_io_def throw_def split: if_splits)
  then show ?thesis
    using a t f assms(2) by cases (auto simp: gate_trail_def)
qed

lemma session_trail:
  assumes "authorize S req mth path ip w = (r, w')" "bearer_claims S req w = (Ok c, w1)"
    and "get_session (session_manager_of S) (clm_session_id c) w1 = (Ok s, w2)" "rows w2 = rows w"
  shows "\<exists>new. rows w' = rows w @ new \<and> gate_trail S req mth path ip w r new"
proof -
  obtain d where d: "evaluate (policy_engine S) (request_context c path mth) = Ok d"
    using evaluate_decides by blast
  consider (subject) "sess_user_id s \<noteq> sub c" | (denied) "sess_user_id s = sub c" "\<not> allowed d"
    | (risk) "sess_user_id s = sub c" "allowed d" by blast
  then show ?thesis
  proof cases
    case subject
    then have "r = Err (InvalidSession ''session/token subject mismatch'')" "w' = w2"
      using assms by (simp_all add: authorize_def bind_io_def throw_def)
    with assms(4) show ?thesis by (simp add: gate_trail_def)
  next
    case denied
    obtain q w3 where q: "audit_authorization S c ip path mth False (sess_risk_score s) w2 = (q, w3)"
      by (cases "audit_authorization S c ip path mth False (sess_risk_score s) w2")
    note l = decision_logged [OF q]
    then have "r = Err (AuthorizationDenied (reason d))" "w' = w3"
      using assms q denied by (simp_all add: authorize_def bind_io_def throw_def lift_res_def d)
    with l assms(2,4) show ?thesis by (auto simp: gate_trail_def)
  next
    case risk
    then have "authorize_risk S c s mth path ip w2 = (r, w')"
      using assms by (simp add: authorize_def bind_io_def lift_res_def d)
    from risk_trail [OF this assms(2,4)] show ?thesis .
  qed
qed

lemma trail:
  assumes "authorize S req mth path ip w = (r, w')"
  shows "\<exists>new. rows w' = rows w @ new \<and> gate_trail S req mth path ip w r new"
proof -
  have foreign: "\<exists>new. rows w' = rows w @ new \<and> gate_trail S req mth path ip w r new"
    if "foreign_error r" "rows w' = rows w"
    using that by (auto simp: gate_trail_def foreign_error_def split: outcome.splits proxy_error.splits)
  obtain a w1 where a: "bearer_claims S req w = (a, w1)" by (cases "bearer_claims S req w")
  have w1: "rows w1 = rows w" using withinD [OF rows_bearer a] .
  show ?thesis
  proof (cases "\<exists>c. a = Ok c")
    case False
    then have "foreign_error r" "w' = w1"
      using assms a tameD [OF tame_gate(1) a]
      by (cases a; auto simp: authorize_def bind_io_def foreign_error_def)+
    with w1 show ?thesis by (intro foreign) simp_all
  next
    case True
    then obtain c where c: "a = Ok c" ..
    obtain b w2 where b: "get_session (session_manager_of S) (clm_session_id c) w1 = (b, w2)"
      by (cases "get_session (session_manager_of S) (clm_session_id c) w1")
    have w2: "rows w2 = rows w" using withinD [OF rows_get_session b] w1 by simp
    show ?thesis
    proof (cases "\<exists>s. b = Ok s")
      case False
      then have "foreign_error r" "w' = w2"
        using assms a b tameD [OF tame_gate(2) b]
        by (cases b; auto simp: c authorize_def bind_io_def foreign_error_def)+
      with w2 show ?thesis by (intro foreign) simp_all
    next
      case True
      with session_trail [OF assms a [unfolded c] _ w2] b show ?thesis by auto
    qed
  qed
qed

end

interpretation ref_audited: audited "ref_server c" audit_rows for c
  by unfold_locales
    (auto simp: moves_def ref_server_def new_proxy_server_def ref_services_def ref_platform_def ref_redis_def
      ref_jwt_def ref_postgres_def ref_execute_def)

section \<open>The trail\<close>



end
