(* ===== verification/Server.thy ===== *)
theory Server
  imports Handlers
begin

text \<open>
  \<^verbatim>\<open>src/src/proxy/mod.rs\<close> (\<open>serve\<close>, \<open>serve_connection\<close> and the TLS set-up) and
  \<^verbatim>\<open>src/src/main.rs\<close>: from the configuration to the served connections. Errors are
  \<open>anyhow\<close> errors, as their texts. \<open>std::fs\<close>, \<open>rustls\<close>, \<open>tokio\<close>, \<open>hyper\<close> and the client libraries
  that open the connections are parameters.
\<close>

type_synonym ('w, 'a) anyhow_io = "('w, string, 'a) io"

section \<open>TLS\<close>

text \<open>
  Files are opened, PEM items read from the open file, and a server configuration made of a chain
  and a key (\<open>with_no_client_auth().with_single_cert\<close>), from which the acceptor is built.
\<close>

record ('w, 'tls) tls_lib =
  open_file :: "string \<Rightarrow> ('w, string) call"
  pem_certs :: "string \<Rightarrow> ('w, string list) call"
  pem_private_key :: "string \<Rightarrow> ('w, string option) call"
  with_single_cert :: "string list \<Rightarrow> string \<Rightarrow> string + 'tls"

definition load_certs :: "('w, 'tls) tls_lib \<Rightarrow> string \<Rightarrow> ('w, string list) anyhow_io" where
  "load_certs T path =
     bind_io (call_io (\<lambda>e. ''failed to open TLS cert '' @ path @ '': '' @ e) (open_file T path)) (\<lambda>file.
       call_io id (pem_certs T file))"

definition load_private_key :: "('w, 'tls) tls_lib \<Rightarrow> string \<Rightarrow> ('w, string) anyhow_io" where
  "load_private_key T path =
     bind_io (call_io (\<lambda>e. ''failed to open TLS key '' @ path @ '': '' @ e) (open_file T path)) (\<lambda>file.
     bind_io (call_io id (pem_private_key T file)) (\<lambda>key.
       lift_res (ok_or key (''no private key found in '' @ path))))"

definition build_tls_acceptor ::
  "'w proxy_server \<Rightarrow> ('w, 'tls) tls_lib \<Rightarrow> ('w, 'tls option) anyhow_io" where
  "build_tls_acceptor S T =
     (let sc = server (config S) in
      if \<not> enable_tls sc then ret None
      else
        bind_io (lift_res (ok_or (tls_cert sc) ''server.enable_tls is true but tls_cert is not set'')) (\<lambda>cert_path.
        bind_io (lift_res (ok_or (tls_key sc) ''server.enable_tls is true but tls_key is not set'')) (\<lambda>key_path.
        bind_io (load_certs T cert_path) (\<lambda>certs.
        bind_io (load_private_key T key_path) (\<lambda>key.
        bind_io (lift_res (of_sum id (with_single_cert T certs key))) (\<lambda>acceptor.
          ret (Some acceptor)))))))"

section \<open>Connections\<close>

text \<open>
  The listener, the TLS handshake on a stream, \<open>tokio::spawn\<close>, and \<open>http1::Builder::serve_connection\<close>,
  which reads requests from the stream, calls the service on each and writes its answers.
\<close>

record ('w, 'st, 'tls) net =
  bind_listener :: "string \<Rightarrow> ('w, string) call"
  accept_stream :: "string \<Rightarrow> ('w, 'st \<times> ip_addr) call"
  tls_accept :: "'tls \<Rightarrow> 'st \<Rightarrow> ('w, 'st) call"
  spawn :: "('w, unit) read \<Rightarrow> ('w, unit) read"
  serve_http1 :: "'st \<Rightarrow> ('w request \<Rightarrow> ('w, response) proxy_io) \<Rightarrow> ('w, string, unit) io"

text \<open>An error of the connection is logged; a panic ends the task.\<close>

definition serve_connection ::
  "'w proxy_server \<Rightarrow> ('w, 'st, 'tls) net \<Rightarrow> 'st \<Rightarrow> ip_addr \<Rightarrow> ('w, unit) read" where
  "serve_connection S N io remote_addr w =
     (case serve_http1 N io (\<lambda>req. handle_request S req remote_addr) w of (_, w') \<Rightarrow> ((), w'))"

definition connection_task ::
  "'w proxy_server \<Rightarrow> ('w, 'st, 'tls) net \<Rightarrow> 'tls option \<Rightarrow> 'st \<Rightarrow> ip_addr \<Rightarrow> ('w, unit) read" where
  "connection_task S N tls_acceptor stream remote_addr w =
     (case tls_acceptor of
        Some acceptor \<Rightarrow>
          (case tls_accept N acceptor stream w of
             (Inr tls_stream, w') \<Rightarrow> serve_connection S N tls_stream remote_addr w'
           | (Inl _, w') \<Rightarrow> ((), w'))
      | None \<Rightarrow> serve_connection S N stream remote_addr w)"

text \<open>
  The accept loop, for at most \<open>n\<close> connections: \<open>Ok ()\<close> says that it is still accepting after them.
  It has no other way out than an error of \<open>accept\<close>.
\<close>

primrec accept_loop ::
  "nat \<Rightarrow> 'w proxy_server \<Rightarrow> ('w, 'st, 'tls) net \<Rightarrow> string \<Rightarrow> 'tls option \<Rightarrow> ('w, unit) anyhow_io" where
  "accept_loop 0 S N listener tls_acceptor = ret ()"
| "accept_loop (Suc n) S N listener tls_acceptor =
     bind_io (call_io id (accept_stream N listener)) (\<lambda>(stream, remote_addr).
     bind_io (read_io (spawn N (connection_task S N tls_acceptor stream remote_addr))) (\<lambda>_.
       accept_loop n S N listener tls_acceptor))"

definition serve ::
  "nat \<Rightarrow> 'w proxy_server \<Rightarrow> ('w, 'st, 'tls) net \<Rightarrow> ('w, 'tls) tls_lib \<Rightarrow> string \<Rightarrow> ('w, unit) anyhow_io" where
  "serve n S N T addr =
     bind_io (call_io id (bind_listener N addr)) (\<lambda>listener.
     bind_io (build_tls_acceptor S T) (\<lambda>tls_acceptor.
       accept_loop n S N listener tls_acceptor))"

section \<open>Start-up\<close>

record ('w, 'client) boot =
  boot_files :: "'w files"
  pool_connect :: "u32 \<Rightarrow> string \<Rightarrow> ('w, ('w, json) postgres) call"
  run_migrations :: "('w, json) postgres \<Rightarrow> ('w, unit) call"
  redis_open :: "string \<Rightarrow> string + 'client"
  redis_manager :: "'client \<Rightarrow> ('w, 'w redis) call"
  parse_addr :: "string \<Rightarrow> string option"

definition server_address :: "config \<Rightarrow> string" where
  "server_address c = host (server c) @ '':'' @ nat_text (unat (port (server c)))"

text \<open>
  \<open>main\<close> up to the start of the server, over the other services \<open>sv\<close>; an address that does not
  parse is a panic (\<open>expect\<close>).
\<close>

definition start_up ::
  "('w, 'client) boot \<Rightarrow> 'w services \<Rightarrow> env \<Rightarrow> ('w, 'w proxy_server \<times> string) anyhow_io" where
  "start_up B sv env =
     bind_io (load_config (boot_files B) env) (\<lambda>c.
     bind_io (call_io id (pool_connect B (max_connections (database c)) (database_url (database c)))) (\<lambda>db_pool.
     bind_io (call_io id (run_migrations B db_pool)) (\<lambda>_.
     bind_io (lift_res (of_sum id (redis_open B (redis_url (redis_cfg c))))) (\<lambda>client.
     bind_io (call_io id (redis_manager B client)) (\<lambda>conn.
       let S = new_proxy_server (sv\<lparr>sv_db := db_pool, sv_redis := conn\<rparr>) c in
       case parse_addr B (server_address c) of
         Some addr \<Rightarrow> ret (S, addr)
       | None \<Rightarrow> lift_res Panic)))))"

definition main ::
  "nat \<Rightarrow> ('w, 'client) boot \<Rightarrow> ('w, 'st, 'tls) net \<Rightarrow> ('w, 'tls) tls_lib \<Rightarrow> 'w services \<Rightarrow> env
     \<Rightarrow> ('w, unit) anyhow_io" where
  "main n B N T sv env =
     bind_io (start_up B sv env) (\<lambda>(S, addr). serve n S N T addr)"

end
