(* ===== verification/Server_Claims.thy ===== *)
theory Server_Claims
  imports Server Quiet_Services Login_Claims
begin

text \<open>
  What the start-up and the connections guarantee. \<open>http1_contract\<close> states what \<open>hyper\<close> does with the
  service it is given, \<open>boot_frame\<close> what the calls of the start-up may do to the world.
\<close>

section \<open>Connections are runs of the server\<close>

text \<open>
  What \<open>hyper\<close> promises: on one HTTP/1 connection the service is called on one request after the
  other, and between the calls nothing happens but what \<open>E\<close> allows.
\<close>

inductive connection_run ::
  "('w request \<Rightarrow> ('w, response) proxy_io) \<Rightarrow> ('w \<Rightarrow> 'w \<Rightarrow> bool) \<Rightarrow> 'w \<Rightarrow> 'w \<Rightarrow> bool"
  for f and E
where
  opened: "connection_run f E w w"
| called: "connection_run f E w w1 \<Longrightarrow> moves E (req_body req) \<Longrightarrow> f req w1 = (r, w2)
    \<Longrightarrow> connection_run f E w w2"
| waited: "connection_run f E w w1 \<Longrightarrow> E w1 w2 \<Longrightarrow> connection_run f E w w2"

locale http1_contract =
  fixes N :: "('w, 'st, 'tls) net" and E :: "'w \<Rightarrow> 'w \<Rightarrow> bool"
  assumes serves_calls: "serve_http1 N io f w = (r, w') \<Longrightarrow> connection_run f E w w'"
    and handshakes: "moves E (tls_accept N acceptor stream)"
begin

lemma connection_run_served:
  "connection_run (\<lambda>req. handle_request S req ip) E v w \<Longrightarrow> served S E u v \<Longrightarrow> served S E u w"
  by (induction rule: connection_run.induct) (auto intro: served.intros)

lemma serve_connection_served:
  assumes "serve_connection S N io ip v = (x, w)" "served S E u v"
  shows "served S E u w"
proof -
  obtain r where "serve_http1 N io (\<lambda>req. handle_request S req ip) v = (r, w)"
    using assms(1) by (auto simp: serve_connection_def split: prod.splits)
  from connection_run_served [OF serves_calls [OF this] assms(2)] show ?thesis .
qed

lemma task_served:
  assumes "connection_task S N tls st ip w = (x, w')"
  shows "served S E w w'"
proof (cases tls)
  case None
  with assms serve_connection_served served.started show ?thesis
    by (fastforce simp: connection_task_def)
next
  case (Some a)
  obtain h v where h: "tls_accept N a st w = (h, v)" by (cases "tls_accept N a st w")
  have "served S E w v"
    using served.started withinD [OF handshakes h] by (rule served.environment)
  with assms Some h serve_connection_served show ?thesis
    by (cases h) (fastforce simp: connection_task_def)+
qed

end

text \<open>The reference network: a stream is the requests it carries, with their bodies; tasks run at once.\<close>

fun ref_http1 ::
  "(world request \<times> string) list \<Rightarrow> (world request \<Rightarrow> (world, response) proxy_io) \<Rightarrow> (world, string, unit) io" where
  "ref_http1 [] f w = (Ok (), w)"
| "ref_http1 ((q, body) # qs) f w =
     (case f (q\<lparr>req_body := (\<lambda>w. (Inr body, w))\<rparr>) w of
        (Panic, w') \<Rightarrow> (Panic, w')
      | (_, w') \<Rightarrow> ref_http1 qs f w')"

definition ref_net ::
  "(world request \<times> string) list \<Rightarrow> (world, (world request \<times> string) list, string list \<times> string) net" where
  "ref_net st =
     \<lparr>bind_listener = (\<lambda>a w. (Inr a, w)), accept_stream = (\<lambda>l w. (Inr (st, ''10.0.0.1''), w)),
      tls_accept = (\<lambda>a st w. (Inr st, w)), spawn = (\<lambda>t. t), serve_http1 = ref_http1\<rparr>"

interpretation ref_hyper: http1_contract "ref_net st" "quiet ref_entries clock" for st
proof
  fix io f w r w'
  assume "serve_http1 (ref_net st) io f w = (r, w')"
  moreover have "ref_http1 io f v = (r, w') \<Longrightarrow> connection_run f (quiet ref_entries clock) u v
      \<Longrightarrow> connection_run f (quiet ref_entries clock) u w'" for u v
  proof (induction io f v rule: ref_http1.induct)
    case (2 q body qs f v)
    let ?q = "q\<lparr>req_body := (\<lambda>w. (Inr body, w))\<rparr>"
    obtain a v1 where a: "f ?q v = (a, v1)" by (cases "f ?q v")
    have "connection_run f (quiet ref_entries clock) u v1"
      by (rule connection_run.called [OF "2.prems"(2) _ a]) (simp add: moves_def quiet_def)
    with 2 a show ?case by (cases a) auto
  qed simp
  ultimately show "connection_run f (quiet ref_entries clock) w w'"
    using connection_run.opened by (fastforce simp: ref_net_def)
qed (simp add: ref_net_def moves_def quiet_def)



section \<open>Plain or TLS\<close>

text \<open>C22: TLS is all or nothing. If the acceptor is built, there is one exactly when \<open>enable_tls\<close> is set; it
  then comes from the certificates and the private key in the two configured files, which could be
  opened and read; and HTTP is served only over the stream its handshake returns: a connection
  whose handshake fails is not served at all.\<close>

theorem tls_all_or_nothing:
  assumes "build_tls_acceptor S T w = (Ok acc, w')"
  shows "(case acc of
      None \<Rightarrow> \<not> enable_tls (server (config S))
    | Some a \<Rightarrow> enable_tls (server (config S))
        \<and> (\<exists>cert_path key_path f g certs key w1 w2 w3.
            tls_cert (server (config S)) = Some cert_path \<and> tls_key (server (config S)) = Some key_path
          \<and> open_file T cert_path w = (Inr f, w1) \<and> pem_certs T f w1 = (Inr certs, w2)
          \<and> open_file T key_path w2 = (Inr g, w3) \<and> pem_private_key T g w3 = (Inr (Some key), w')
          \<and> with_single_cert T certs key = Inr a)
        \<and> connection_task S N acc stream remote_addr v =
            (case tls_accept N a stream v of
               (Inr tls_stream, v') \<Rightarrow> serve_connection S N tls_stream remote_addr v'
             | (Inl _, v') \<Rightarrow> ((), v')))"
proof (cases acc)
  case None
  with assms show ?thesis
    by (auto simp: build_tls_acceptor_def io_Ok Let_def split: if_splits)
next
  case (Some a)
  have on: "enable_tls (server (config S))"
    using assms Some by (auto simp: build_tls_acceptor_def io_Ok Let_def split: if_splits)
  then obtain cert_path key_path certs key w2 where
    paths: "tls_cert (server (config S)) = Some cert_path" "tls_key (server (config S)) = Some key_path"
    and certs: "load_certs T cert_path w = (Ok certs, w2)"
    and key: "load_private_key T key_path w2 = (Ok key, w')"
    and made: "with_single_cert T certs key = Inr a"
    using assms Some
    by (auto simp: build_tls_acceptor_def io_Ok Let_def ok_or_Ok_iff of_sum_Ok_iff)
  obtain f w1 where "open_file T cert_path w = (Inr f, w1)" "pem_certs T f w1 = (Inr certs, w2)"
    using certs by (auto simp: load_certs_def io_Ok)
  moreover obtain g w3 where "open_file T key_path w2 = (Inr g, w3)"
    "pem_private_key T g w3 = (Inr (Some key), w')"
    using key by (auto simp: load_private_key_def io_Ok ok_or_Ok_iff)
  ultimately show ?thesis
    using on paths made Some by (auto simp: connection_task_def)
qed

definition ref_tls :: "(world, string list \<times> string) tls_lib" where
  "ref_tls =
     \<lparr>open_file = (\<lambda>p w. (if p = [] then Inl ''not found'' else Inr p, w)),
      pem_certs = (\<lambda>f w. (Inr [f], w)), pem_private_key = (\<lambda>f w. (Inr (Some f), w)),
      with_single_cert = (\<lambda>cs k. if cs = [] then Inl ''no certificates'' else Inr (cs, k))\<rparr>"

definition tls_config :: config where
  "tls_config = (default_config no_env)\<lparr>server := (server (default_config no_env))
     \<lparr>enable_tls := True, tls_cert := Some ''cert.pem'', tls_key := Some ''key.pem''\<rparr>\<rparr>"

lemma ref_acceptor_built:
  "build_tls_acceptor (ref_server tls_config) ref_tls w = (Ok (Some ([''cert.pem''], ''key.pem'')), w)"
  by (simp add: build_tls_acceptor_def load_certs_def load_private_key_def ref_server_def new_proxy_server_def
      tls_config_def ref_tls_def io_run ok_or_def of_sum_def)

theorem tls_all_or_nothing_witness:
  "enable_tls (server (config (ref_server tls_config)))
    \<and> connection_task (ref_server tls_config) (ref_net []) (Some ([''cert.pem''], ''key.pem'')) [] ''10.0.0.1''
        start_world = ((), start_world)"
proof -
  have "serve_connection (ref_server tls_config) (ref_net []) [] ''10.0.0.1'' start_world = ((), start_world)"
    by (simp add: serve_connection_def ref_net_def)
  with tls_all_or_nothing [OF ref_acceptor_built, where N = "ref_net []" and stream = "[]"
      and remote_addr = "''10.0.0.1''" and v = start_world]
  show ?thesis by (simp add: ref_net_def)
qed

section \<open>The accept loop\<close>

lemma accept_loop_result:
  "accept_loop n S N l acc w = (r, w') \<Longrightarrow>
     r = Ok () \<or> (\<exists>e v. r = Err e \<and> accept_stream N l v = (Inl e, w')
        \<and> (\<forall>m. accept_loop (n + m) S N l acc w = (Err e, w')))"
proof (induction n arbitrary: w)
  case (Suc n)
  obtain a w1 where a: "accept_stream N l w = (a, w1)" by (cases "accept_stream N l w")
  show ?case
  proof (cases a)
    case (Inl e)
    with Suc.prems a show ?thesis by (auto simp: bind_io_def call_io_def of_sum_def)
  next
    case (Inr sr)
    obtain st ip where sr: "sr = (st, ip)" by (cases sr)
    obtain w2 where "spawn N (connection_task S N acc st ip) w1 = ((), w2)"
      by (cases "spawn N (connection_task S N acc st ip) w1") simp
    then have step: "accept_loop (Suc m) S N l acc w = accept_loop m S N l acc w2" for m
      using a by (simp add: Inr sr bind_io_def call_io_def read_io_def)
    from Suc.prems have "accept_loop n S N l acc w2 = (r, w')" by (simp only: step)
    from Suc.IH [OF this] show ?thesis by (auto simp only: add_Suc step)
  qed
qed (simp add: ret_def)



section \<open>Nothing is served before the start-up is done\<close>

text \<open>\<open>R\<close> allows what the calls of the start-up do: reading files, connecting, migrating, binding.\<close>

locale boot_frame =
  fixes B :: "('w, 'client) boot" and N :: "('w, 'st, 'tls) net" and T :: "('w, 'tls) tls_lib"
    and R :: "'w \<Rightarrow> 'w \<Rightarrow> bool"
  assumes boot_preorder: "reflp R" "transp R"
    and boot_file_reads: "moves R (path_exists (boot_files B) p)" "moves R (read_to_string (boot_files B) p)"
    and boot_stores: "moves R (pool_connect B k url)" "moves R (run_migrations B D)" "moves R (redis_manager B client)"
    and boot_tls: "moves R (open_file T p)" "moves R (pem_certs T f)" "moves R (pem_private_key T f)"
    and boot_bind: "moves R (bind_listener N addr)"
begin

lemmas boot_basic = within_bind [OF boot_preorder(2)] within_pure [OF boot_preorder(1)] within_call
  within_read within_if

lemma start_up_framed: "moves R (start_up B sv env)"
  unfolding start_up_def load_config_def Let_def
  by (intro boot_basic boot_file_reads boot_stores) (auto intro!: boot_basic split: option.split)

lemma acceptor_framed: "moves R (build_tls_acceptor S T)"
  unfolding build_tls_acceptor_def load_certs_def load_private_key_def Let_def
  by (intro boot_basic boot_tls)

lemma main_outside:
  assumes "main n B N T sv env w = (r, w')" "\<not> R w w'"
  obtains S addr w1 l w2 acc w3 where "start_up B sv env w = (Ok (S, addr), w1)"
    "bind_listener N addr w1 = (Inr l, w2)" "build_tls_acceptor S T w2 = (Ok acc, w3)" "R w w3"
    "accept_loop n S N l acc w3 = (r, w')"
proof -
  note into = that and tr = transpD [OF boot_preorder(2)]
  from assms(1) show thesis
    unfolding main_def
  proof (cases rule: bind_io_runs)
    case (stopped c)
    with withinD [OF start_up_framed] assms(2) show thesis by blast
  next
    case (continued x w1)
    obtain S addr where x: "x = (S, addr)" by (cases x)
    note up = continued(1) [unfolded x]
    have w1: "R w w1" by (rule withinD [OF start_up_framed up])
    have "serve n S N T addr w1 = (r, w')" using continued(2) x by simp
    then show thesis
      unfolding serve_def
    proof (cases rule: bind_io_runs)
      case (stopped c)
      with withinD [OF within_call [OF boot_bind]] w1 tr assms(2) show thesis by metis
    next
      case (continued l w2)
      have bound: "bind_listener N addr w1 = (Inr l, w2)" using continued(1) by (simp add: call_io_Ok_iff)
      have w2: "R w w2" using withinD [OF boot_bind bound] w1 tr by blast
      from continued(2) show thesis
      proof (cases rule: bind_io_runs)
        case (stopped c)
        with withinD [OF acceptor_framed] w2 tr assms(2) show thesis by metis
      next
        case (continued acc w3)
        have "R w w3" using withinD [OF acceptor_framed continued(1)] w2 tr by blast
        with up bound continued show thesis by (intro into)
      qed
    qed
  qed
qed

end

text \<open>C21: The start-up fails closed. When a run of \<open>main\<close> does anything beyond what reading files, opening the
  connections, migrating and binding do, that is, when it accepts anything, then before it did the
  configuration was loaded, the database connected with the configured pool size, the migrations
  run, Redis connected, the address parsed and bound, and the acceptor built exactly if TLS is
  enabled; and the server that runs is the one made of that configuration and those connections.\<close>

theorem no_connection_before_start_up:
  assumes "boot_frame B N T R" "main n B N T sv env w = (r, w')" "\<not> R w w'"
  shows "\<exists>c db_pool client conn addr l acc v1 v2 v3 v4 v5 v6.
      load_config (boot_files B) env w = (Ok c, v1)
    \<and> pool_connect B (max_connections (database c)) (database_url (database c)) v1 = (Inr db_pool, v2)
    \<and> run_migrations B db_pool v2 = (Inr (), v3)
    \<and> redis_open B (redis_url (redis_cfg c)) = Inr client \<and> redis_manager B client v3 = (Inr conn, v4)
    \<and> parse_addr B (server_address c) = Some addr \<and> bind_listener N addr v4 = (Inr l, v5)
    \<and> build_tls_acceptor (new_proxy_server (sv\<lparr>sv_db := db_pool, sv_redis := conn\<rparr>) c) T v5 = (Ok acc, v6)
    \<and> (acc \<noteq> None) = enable_tls (server c) \<and> R w v6
    \<and> accept_loop n (new_proxy_server (sv\<lparr>sv_db := db_pool, sv_redis := conn\<rparr>) c) N l acc v6 = (r, w')"
proof -
  obtain S addr w1 l w2 acc w3 where up: "start_up B sv env w = (Ok (S, addr), w1)"
    and bound: "bind_listener N addr w1 = (Inr l, w2)"
    and acc: "build_tls_acceptor S T w2 = (Ok acc, w3)" "R w w3"
    and loop: "accept_loop n S N l acc w3 = (r, w')"
    using assms by (rule boot_frame.main_outside)
  obtain c v1 db_pool v2 v3 client conn where
    "load_config (boot_files B) env w = (Ok c, v1)"
    "pool_connect B (max_connections (database c)) (database_url (database c)) v1 = (Inr db_pool, v2)"
    "run_migrations B db_pool v2 = (Inr (), v3)"
    "redis_open B (redis_url (redis_cfg c)) = Inr client" "redis_manager B client v3 = (Inr conn, w1)"
    "parse_addr B (server_address c) = Some addr"
    and S: "S = new_proxy_server (sv\<lparr>sv_db := db_pool, sv_redis := conn\<rparr>) c"
    using up by (auto simp: start_up_def io_Ok io_cases of_sum_Ok_iff Let_def)
  moreover have "config S = c" by (simp add: S new_proxy_server_def)
  then have "(acc \<noteq> None) = enable_tls (server c)"
    using acc(1) by (auto simp: build_tls_acceptor_def io_Ok Let_def split: if_splits)
  ultimately show ?thesis
    using bound acc loop unfolding S by blast
qed

definition ref_boot :: "(world, string) boot" where
  "ref_boot =
     \<lparr>boot_files = \<lparr>path_exists = (\<lambda>p w. (False, w)), read_to_string = (\<lambda>p w. (Inl ''not found'', w)),
        config_of_toml = (\<lambda>e t. Inl ''not TOML'')\<rparr>,
      pool_connect = (\<lambda>k url w. (Inr ref_postgres, w)), run_migrations = (\<lambda>D w. (Inr (), w)),
      redis_open = Inr, redis_manager = (\<lambda>c w. (Inr ref_redis, w)), parse_addr = Some\<rparr>"

interpretation ref_booting: boot_frame ref_boot "ref_net st" ref_tls "(=)" for st
  by unfold_locales
    (auto simp: reflp_def transp_def moves_def ref_boot_def ref_net_def ref_tls_def)

text \<open>The witness: the first connection sends a request without a token, which the rate limit counts.\<close>

definition knock :: "world request" where
  "knock = \<lparr>req_method = ''POST'', req_path = ''/auth/mfa/verify'', req_path_and_query = None,
     req_headers = [], req_body = (\<lambda>w. (Inr [], w))\<rparr>"

lemma knock_counted:
  "\<exists>r w'. handle_request default_server (knock\<lparr>req_body := (\<lambda>w. (Inr [], w))\<rparr>) ''10.0.0.1'' start_world = (r, w')
     \<and> counts w' \<noteq> [] \<and> r \<noteq> Panic"
proof -
  obtain w1 where rate: "check_rate_limit default_server ''10.0.0.1'' ''mfa_verify'' 10 300 start_world = (Ok (), w1)"
    "counts w1 \<noteq> []"
    by (simp add: check_rate_limit_def default_services ref_run ref_counters_def
      incremented_def counter_at_def ref_expire_def)
  have "handle_mfa_verify default_server (knock\<lparr>req_body := (\<lambda>w. (Inr [], w))\<rparr>) ''10.0.0.1'' start_world
      = (Err (AuthenticationFailed ''Invalid authorization header format''), w1)"
    by (simp add: handle_mfa_verify_def bind_io_def rate bearer_claims_def header_text_def knock_def
        unwrap_or_def extract_token_from_header_def starts_with_def lift_res_def throw_def)
  with rate(2) show ?thesis
    by (simp add: handle_request_def route_def Let_def knock_def)
qed

theorem no_connection_before_start_up_witness:
  "\<exists>c addr w'. main 1 ref_boot (ref_net [(knock, [])]) ref_tls ref_services no_env start_world = (Ok (), w')
    \<and> counts w' \<noteq> [] \<and> parse_addr ref_boot (server_address c) = Some addr \<and> \<not> enable_tls (server c)"
proof -
  obtain a w' where h: "handle_request default_server (knock\<lparr>req_body := (\<lambda>w. (Inr [], w))\<rparr>) ''10.0.0.1'' start_world
      = (a, w')" "counts w' \<noteq> []" "a \<noteq> Panic"
    using knock_counted by blast
  have S: "new_proxy_server (ref_services\<lparr>sv_db := ref_postgres, sv_redis := ref_redis\<rparr>) (default_config no_env)
      = default_server"
    by (simp add: default_server_def ref_server_def ref_services_def)
  have plain: "\<not> enable_tls (server (default_config no_env))"
    by (simp add: default_config_def)
  have conf: "load_config (boot_files ref_boot) no_env start_world = (Ok (default_config no_env), start_world)"
    by (simp add: load_config_def ref_boot_def io_run Let_def)
  have up: "start_up ref_boot ref_services no_env start_world
      = (Ok (default_server, server_address (default_config no_env)), start_world)"
    by (simp add: start_up_def bind_io_def conf) (simp add: ref_boot_def io_run of_sum_def Let_def S)
  have task: "connection_task default_server (ref_net [(knock, [])]) None [(knock, [])] ''10.0.0.1'' start_world
      = ((), w')"
    using h by (cases a) (simp_all add: connection_task_def serve_connection_def ref_net_def)
  have "build_tls_acceptor default_server ref_tls start_world = (Ok None, start_world)"
    by (simp add: build_tls_acceptor_def default_server_def ref_server_def new_proxy_server_def
        default_config_def ret_def)
  moreover have "bind_listener (ref_net [(knock, [])]) a w = (Inr a, w)"
    "accept_stream (ref_net [(knock, [])]) l w = (Inr ([(knock, [])], ''10.0.0.1''), w)"
    "spawn (ref_net [(knock, [])]) t = t" for a l t w
    by (simp_all add: ref_net_def)
  ultimately have m: "main 1 ref_boot (ref_net [(knock, [])]) ref_tls ref_services no_env start_world = (Ok (), w')"
    using up task by (simp add: main_def serve_def bind_io_def call_io_def of_sum_def read_io_def ret_def)
  have "start_world \<noteq> w'" using h(2) by (auto simp: start_world_def)
  from no_connection_before_start_up [OF ref_booting.boot_frame_axioms m this] obtain c v1 addr where
    c: "load_config (boot_files ref_boot) no_env start_world = (Ok c, v1)"
      "parse_addr ref_boot (server_address c) = Some addr" by blast
  then have "c = default_config no_env" using conf by simp
  with m h(2) c plain show ?thesis by blast
qed

end
