(* ===== verification/Unit_Tests.thy ===== *)
theory Unit_Tests
  imports Reference
begin

text \<open>
  The unit tests in the sources (\<^verbatim>\<open>mod tests\<close> of each module), translated like the code they test: a
  test is the conjunction of its assertions, an \<^verbatim>\<open>unwrap\<close> an \<open>Ok\<close>. Each is shown to pass for every
  clock, id source and hash, and, where a library is involved, under the library's documented behaviour;
  so no test depends on the time of day it runs at.
\<close>

definition unwrapped :: "('e, 'a) outcome \<times> 'w \<Rightarrow> ('a \<Rightarrow> 'w \<Rightarrow> bool) \<Rightarrow> bool" where
  "unwrapped m k \<longleftrightarrow> (case m of (Ok x, w) \<Rightarrow> k x w | _ \<Rightarrow> False)"

definition read_then :: "'a \<times> 'w \<Rightarrow> ('a \<Rightarrow> 'w \<Rightarrow> bool) \<Rightarrow> bool" where
  "read_then m k = (case m of (x, w) \<Rightarrow> k x w)"

definition is_err :: "('e, 'a) outcome \<Rightarrow> bool" where
  "is_err r \<longleftrightarrow> (case r of Err _ \<Rightarrow> True | _ \<Rightarrow> False)"

lemmas test_steps = unwrapped_def read_then_def is_err_def

section \<open>Devices\<close>

definition test_device_fingerprint_creation :: "'w platform \<Rightarrow> 'w \<Rightarrow> bool" where
  "test_device_fingerprint_creation P w =
     (let m = \<lparr>screen_resolution = Some ''1920x1080'', timezone = Some ''America/New_York'',
            language = Some ''en-US'', platform_version = Some ''10.0'', hardware_concurrency = Some 8\<rparr>
      in read_then (new_device P ''user123'' ''Mozilla/5.0 (Windows NT 10.0; Win64; x64) Chrome/91.0'' ''192.168.1.1'' m w)
           (\<lambda>d _. dev_platform d = ''Windows'' \<and> dev_browser d = ''Chrome'' \<and> trust_score d = 50 \<and> \<not> is_trusted d))"

definition test_trust_score_updates :: "'w platform \<Rightarrow> 'w \<Rightarrow> bool" where
  "test_trust_score_updates P w =
     read_then (new_device P ''user123'' ''Mozilla/5.0'' ''192.168.1.1'' no_metadata w) (\<lambda>d _.
       let d = increase_trust 30 d in
       trust_score d = 80 \<and> is_trusted d
       \<and> (let d = decrease_trust 20 d in trust_score d = 60 \<and> \<not> is_trusted d))"

lemma chrome_on_windows:
  "parse_user_agent ''Mozilla/5.0 (Windows NT 10.0; Win64; x64) Chrome/91.0'' = (''Windows'', ''Chrome'')"
  by code_simp

lemma new_device_trust:
  "new_device P u ua ip m w = (d, w') \<Longrightarrow> trust_score d = 50 \<and> \<not> is_trusted d \<and> dev_platform d = fst (parse_user_agent ua)
     \<and> dev_browser d = snd (parse_user_agent ua)"
  by (cases "parse_user_agent ua") (auto simp: new_device_def Let_def split: prod.splits)

lemma device_tests_pass: "test_device_fingerprint_creation P w" "test_trust_score_updates P w"
proof -
  show "test_device_fingerprint_creation P w"
    by (auto simp: test_device_fingerprint_creation_def test_steps chrome_on_windows Let_def
        dest!: new_device_trust split: prod.split)
  show "test_trust_score_updates P w"
    unfolding test_trust_score_updates_def read_then_def
    by (split prod.split) (auto simp: increase_trust_def decrease_trust_def saturating_sub_u32_def Let_def
        dest!: new_device_trust)
qed

section \<open>Risk\<close>

definition trusted_device :: "'w platform \<Rightarrow> ('w, device_fingerprint) read" where
  "trusted_device P w =
     (case new_device P ''user123'' ''Mozilla/5.0'' ''10.0.0.1'' no_metadata w of
        (d, w') \<Rightarrow> (d\<lparr>trust_score := 90, is_trusted := True\<rparr>, w'))"

definition base_context :: "'w platform \<Rightarrow> device_fingerprint \<Rightarrow> ('w, risk_context) read" where
  "base_context P d w =
     (case utc_now P w of (t, w') \<Rightarrow>
        (\<lparr>rc_user_id = ''user123'', rc_device = d, rc_ip_address = ''10.0.0.1'', rc_timestamp = t,
          rc_geolocation = None, rc_previous_ip = None, rc_session_age_minutes = 0, rc_failed_attempts = 0,
          rc_time_since_last_success_hours = None\<rparr>, w'))"

definition test_trusted_low_activity_session_allows :: "'w platform \<Rightarrow> 'w \<Rightarrow> bool" where
  "test_trusted_low_activity_session_allows P w =
     read_then (trusted_device P w) (\<lambda>d w. read_then (base_context P d w) (\<lambda>ctx w.
       unwrapped (calculate_risk P (new_risk_engine 60 85) ctx w) (\<lambda>score _.
         recommendation score = Allow_request)))"

definition test_untrusted_new_device_plus_failed_attempts_blocks :: "'w platform \<Rightarrow> 'w \<Rightarrow> bool" where
  "test_untrusted_new_device_plus_failed_attempts_blocks P w =
     read_then (new_device P ''user123'' ''curl/8.0'' ''203.0.113.9'' no_metadata w) (\<lambda>d w.
     read_then (base_context P d w) (\<lambda>ctx w.
       unwrapped (calculate_risk P (new_risk_engine 60 85)
           (ctx\<lparr>rc_failed_attempts := 12, rc_previous_ip := Some ''198.51.100.1''\<rparr>) w) (\<lambda>score _.
         recommendation score = Block \<and> 85 \<le> total_score score)))"

definition test_moderate_risk_triggers_step_up :: "'w platform \<Rightarrow> 'w \<Rightarrow> bool" where
  "test_moderate_risk_triggers_step_up P w =
     read_then (trusted_device P w) (\<lambda>d w. read_then (base_context P d w) (\<lambda>ctx w.
       unwrapped (calculate_risk P (new_risk_engine 30 90)
           (ctx\<lparr>rc_failed_attempts := 2, rc_session_age_minutes := 130\<rparr>) w) (\<lambda>score _.
         recommendation score = StepUpAuth)))"

lemma device_risk_values:
  assumes "calculate_device_risk P d w = (r, w')" "50 \<le> trust_score d"
  shows "r \<in> (if is_trusted d then {0, 10, 20} else {25, 35, 45})"
  using assms by (auto simp: calculate_device_risk_def Let_def split: prod.splits if_splits)

definition option_points :: "risk_factor option \<Rightarrow> u32" where
  "option_points x = (case x of Some f \<Rightarrow> rf_score f | None \<Rightarrow> 0)"

lemma tally_points:
  "snd (tally_risk ctx r) = r
     + (if rc_failed_attempts ctx > 0 then calculate_failed_attempts_risk (rc_failed_attempts ctx) else 0)
     + option_points (calculate_time_risk ctx) + option_points (calculate_ip_change_risk ctx)
     + calculate_session_age_risk (rc_session_age_minutes ctx)"
proof -
  have zero: "\<not> 0 < x \<longleftrightarrow> x = 0" for x :: u32 by (simp add: word_gt_0)
  show ?thesis
    by (auto simp: tally_risk_def push_factor_def push_option_def option_points_def calculate_geo_risk_def Let_def zero
        split: option.splits)
qed

lemma time_points_values: "option_points (calculate_time_risk ctx) \<in> {0, 15}"
  by (simp add: calculate_time_risk_def option_points_def Let_def)

text \<open>The recommendation for each of the three contexts, from the points of the device.\<close>

lemma scored:
  assumes "calculate_risk P eng ctx w = (Ok score, w')"
  obtains r w1 where "calculate_device_risk P (rc_device ctx) w = (r, w1)"
    "total_score score = min (snd (tally_risk ctx r)) 100" "recommendation score = recommend eng (total_score score)"
  using assms
  by (cases "calculate_device_risk P (rc_device ctx) w"; cases "tally_risk ctx (fst (calculate_device_risk P (rc_device ctx) w))")
    (auto simp: calculate_risk_def io_Ok Let_def)

lemma calculate_risk_total: "\<exists>score w'. calculate_risk P eng ctx w = (Ok score, w')"
  by (simp add: calculate_risk_def io_run Let_def split: prod.split)

definition risk_totals :: "risk_context \<Rightarrow> u32 set" where
  "risk_totals ctx =
     (\<lambda>(a, b). a + b
        + ((if rc_failed_attempts ctx > 0 then calculate_failed_attempts_risk (rc_failed_attempts ctx) else 0)
          + option_points (calculate_ip_change_risk ctx) + calculate_session_age_risk (rc_session_age_minutes ctx)))
     ` ((if is_trusted (rc_device ctx) then {0, 10, 20} else {25, 35, 45}) \<times> {0, 15})"

lemma unwrapped_risk:
  assumes "50 \<le> trust_score (rc_device ctx)"
    and "\<And>score v' x. x \<in> risk_totals ctx \<Longrightarrow> total_score score = min x 100 \<Longrightarrow>
      recommendation score = recommend eng (min x 100) \<Longrightarrow> k score v'"
  shows "unwrapped (calculate_risk P eng ctx v) k"
proof -
  obtain score v' where s: "calculate_risk P eng ctx v = (Ok score, v')"
    using calculate_risk_total [of P eng ctx v] by blast
  then show ?thesis
  proof (rule scored)
    fix r w1
    assume r: "calculate_device_risk P (rc_device ctx) v = (r, w1)"
      and t: "total_score score = min (snd (tally_risk ctx r)) 100"
        "recommendation score = recommend eng (total_score score)"
    have "snd (tally_risk ctx r) \<in> risk_totals ctx"
      using device_risk_values [OF r assms(1)] time_points_values [of ctx] unfolding risk_totals_def
      by (intro image_eqI [where x = "(r, option_points (calculate_time_risk ctx))"])
        (simp_all add: tally_points ac_simps)
    from assms(2) [OF this] t have "k score v'" by simp
    then show ?thesis by (simp add: unwrapped_def s)
  qed
qed

lemma risk_tests_pass:
  "test_trusted_low_activity_session_allows P w"
  "test_untrusted_new_device_plus_failed_attempts_blocks P w"
  "test_moderate_risk_triggers_step_up P w"
proof -
  note points = risk_totals_def calculate_ip_change_risk_def option_points_def calculate_session_age_risk_def
    calculate_failed_attempts_risk_def recommend_def new_risk_engine_def
  obtain d w1 where d: "new_device P ''user123'' ''Mozilla/5.0'' ''10.0.0.1'' no_metadata w = (d, w1)"
    by (cases "new_device P ''user123'' ''Mozilla/5.0'' ''10.0.0.1'' no_metadata w")
  obtain t w2 where t: "utc_now P w1 = (t, w2)" by (cases "utc_now P w1")
  show "test_trusted_low_activity_session_allows P w"
    unfolding test_trusted_low_activity_session_allows_def trusted_device_def base_context_def read_then_def d t prod.case
    by (rule unwrapped_risk) (auto simp: points)
  show "test_moderate_risk_triggers_step_up P w"
    unfolding test_moderate_risk_triggers_step_up_def trusted_device_def base_context_def read_then_def d t prod.case
    by (rule unwrapped_risk) (auto simp: points)
  obtain d' w3 where d': "new_device P ''user123'' ''curl/8.0'' ''203.0.113.9'' no_metadata w = (d', w3)"
    by (cases "new_device P ''user123'' ''curl/8.0'' ''203.0.113.9'' no_metadata w")
  obtain t' w4 where t': "utc_now P w3 = (t', w4)" by (cases "utc_now P w3")
  show "test_untrusted_new_device_plus_failed_attempts_blocks P w"
    unfolding test_untrusted_new_device_plus_failed_attempts_blocks_def base_context_def read_then_def d' t' prod.case
    by (rule unwrapped_risk) (use new_device_trust [OF d'] in \<open>auto simp: points\<close>)
qed

section \<open>Policies\<close>

definition allow_read :: policy where
  "allow_read = \<lparr>policy_id = ''policy1'', policy_name = ''Allow Read'', policy_description = ''Allow read access'',
     rules = [\<lparr>resource_pattern = ''/api/*'', actions = [''read''], conditions = [], rule_effect = Allow\<rparr>]\<rparr>"

definition test_policy_evaluation_allow :: bool where
  "test_policy_evaluation_allow =
     (case evaluate (add_policy allow_read (new_policy_engine True))
        \<lparr>pc_user_id = ''user123'', pc_resource = ''/api/users'', pc_action = ''read'', pc_attributes = Map.empty\<rparr> of
      Ok d \<Rightarrow> allowed d | _ \<Rightarrow> False)"

definition deny_delete :: policy where
  "deny_delete = \<lparr>policy_id = ''policy1'', policy_name = ''Deny Delete'', policy_description = ''Deny delete access'',
     rules = [\<lparr>resource_pattern = ''/api/*'', actions = [''delete''], conditions = [], rule_effect = Deny\<rparr>]\<rparr>"

definition test_policy_evaluation_deny :: bool where
  "test_policy_evaluation_deny =
     (case evaluate (add_policy deny_delete (new_policy_engine True))
        \<lparr>pc_user_id = ''user123'', pc_resource = ''/api/users'', pc_action = ''delete'', pc_attributes = Map.empty\<rparr> of
      Ok d \<Rightarrow> \<not> allowed d | _ \<Rightarrow> False)"

lemma policy_tests_pass: test_policy_evaluation_allow test_policy_evaluation_deny
  by code_simp+

section \<open>Audit events\<close>

definition test_audit_event_creation :: "'w platform \<Rightarrow> 'w \<Rightarrow> bool" where
  "test_audit_event_creation P w =
     read_then (new_event P Authentication (Some ''user123'') (Some ''device456'') ''192.168.1.1'' ''/auth/login''
         ''authenticate'' Success w)
       (\<lambda>e _. ev_user_id e = Some ''user123'' \<and> ev_type e = Authentication \<and> ev_outcome e = Success)"

definition test_audit_event_with_risk_score :: "'w platform \<Rightarrow> 'w \<Rightarrow> bool" where
  "test_audit_event_with_risk_score P w =
     read_then (new_event P RiskEvaluation (Some ''user123'') None ''192.168.1.1'' ''/'' ''evaluate'' Success w)
       (\<lambda>e _. ev_risk_score (with_risk_score e 75) = Some 75)"

lemma audit_tests_pass: "test_audit_event_creation P w" "test_audit_event_with_risk_score P w"
  by (simp_all add: test_audit_event_creation_def test_audit_event_with_risk_score_def test_steps new_event_def
      with_risk_score_def split: prod.split)

section \<open>Passwords, tokens, codes\<close>

text \<open>The tests that call a library are run on the reference services.\<close>

definition holds :: "bool proxy_result \<Rightarrow> (bool \<Rightarrow> bool) \<Rightarrow> bool" where
  "holds r k \<longleftrightarrow> (case r of Ok b \<Rightarrow> k b | _ \<Rightarrow> False)"

definition test_password_hashing :: "'w argon2 \<Rightarrow> 'w \<Rightarrow> bool" where
  "test_password_hashing A w =
     unwrapped (hash_password A ''test_password_123'' w) (\<lambda>hash _.
       holds (verify_password A ''test_password_123'' hash) id
       \<and> holds (verify_password A ''wrong_password'' hash) Not)"

definition test_jwt_generation_and_validation :: "'w platform \<Rightarrow> 'w jwt_lib \<Rightarrow> 'w \<Rightarrow> bool" where
  "test_jwt_generation_and_validation P J w =
     (let m = \<lparr>secret = ''test_secret'', expiration_hours = 24\<rparr> in
      unwrapped (generate_token P J m ''user123'' ''device456'' 25 True ''session789'' w) (\<lambda>token w.
      unwrapped (validate_token J m token w) (\<lambda>c _.
        sub c = ''user123'' \<and> clm_device_id c = ''device456'' \<and> clm_session_id c = ''session789''
        \<and> clm_risk_score c = 25 \<and> clm_mfa_verified c)))"

definition passkey_jwt_is_mfa_verified :: "'w platform \<Rightarrow> 'w jwt_lib \<Rightarrow> 'w \<Rightarrow> bool" where
  "passkey_jwt_is_mfa_verified P J w =
     (let m = \<lparr>secret = ''test_secret'', expiration_hours = 24\<rparr> in
      unwrapped (mint_passkey_jwt P J m ''user-1'' ''device-1'' ''session-1'' 10 w) (\<lambda>token w.
      unwrapped (validate_token J m token w) (\<lambda>c _. sub c = ''user-1'' \<and> clm_mfa_verified c)))"

definition test_enroll_and_verify_round_trip :: "'w totp_lib \<Rightarrow> 'w \<Rightarrow> bool" where
  "test_enroll_and_verify_round_trip T w =
     unwrapped (generate_secret T w) (\<lambda>secret w.
     unwrapped (generate_current_token T default_mfa_config secret w) (\<lambda>current w.
     unwrapped (verify_token T default_mfa_config secret current w) (\<lambda>ok _. ok)))"

definition test_wrong_token_is_rejected :: "'w totp_lib \<Rightarrow> 'w \<Rightarrow> bool" where
  "test_wrong_token_is_rejected T w =
     unwrapped (generate_secret T w) (\<lambda>secret w.
       is_err (fst (verify_token T default_mfa_config secret ''000000'' w)))"

definition test_qr_url_contains_secret_and_issuer :: bool where
  "test_qr_url_contains_secret_and_issuer =
     (case generate_qr_url ''SECRET123'' ''user@example.com'' ''zero-trust-proxy'' of
        Ok url \<Rightarrow> contains url ''SECRET123'' \<and> contains url ''zero-trust-proxy''
      | _ \<Rightarrow> False)"

lemma auth_tests_pass:
  "test_password_hashing ref_argon2 w"
  "test_jwt_generation_and_validation ref_platform ref_jwt start_world"
  "passkey_jwt_is_mfa_verified ref_platform ref_jwt start_world"
proof -
  show "test_password_hashing ref_argon2 w"
    by (simp add: test_password_hashing_def test_steps holds_def hash_password_def verify_password_def ref_argon2_def
        io_run strip_prefix_def)
  note run = test_steps generate_token_def validate_token_def mint_passkey_jwt_def plus_hours_def plus_seconds_def
    datetime_min_def datetime_max_def ref_platform_def ref_jwt_def io_run start_world_def nanos_per_second_def
    take_put_token timestamp_def Let_def
  show "test_jwt_generation_and_validation ref_platform ref_jwt start_world"
    by (simp add: test_jwt_generation_and_validation_def run)
  show "passkey_jwt_is_mfa_verified ref_platform ref_jwt start_world"
    by (simp add: passkey_jwt_is_mfa_verified_def run)
qed

lemma mfa_tests_pass:
  "test_enroll_and_verify_round_trip ref_totp w" "test_wrong_token_is_rejected ref_totp w"
  test_qr_url_contains_secret_and_issuer
proof -
  obtain s w1 where g: "generate_secret ref_totp w = (Ok s, w1)"
    using random_chars_total [of ref_totp 32 w] by (auto simp: generate_secret_def ref_totp_def)
  have s: "length s = 32" "set s \<subseteq> set charset"
    using g random_chars_Ok [of ref_totp 32 w s w1] by (simp_all add: generate_secret_def)
  then have totp: "new_totp ref_totp default_mfa_config s = Ok \<lparr>totp_digits = 6, totp_skew = 1, totp_step = 30, totp_secret = s\<rparr>"
    by (auto simp: new_totp_def ref_totp_def default_mfa_config_def list_all_iff bind_res_def of_sum_def)
  have lib: "totp_generate_current ref_totp t v = (Inr (take (totp_digits t) (totp_secret t)), v)"
    "totp_check_current ref_totp t c v = (Inr (c = take (totp_digits t) (totp_secret t)), v)" for t c v
    by (simp_all add: ref_totp_def)
  show "test_enroll_and_verify_round_trip ref_totp w"
    by (simp add: test_enroll_and_verify_round_trip_def test_steps g generate_current_token_def verify_token_def totp
        lib io_run of_sum_def)
  have "CHR ''0'' \<notin> set charset" by code_simp
  then have "''000000'' \<noteq> take 6 s"
    using s by (metis in_set_takeD list.set_intros(1) subsetD)
  then show "test_wrong_token_is_rejected ref_totp w"
    by (simp add: test_wrong_token_is_rejected_def test_steps g verify_token_def totp lib io_run of_sum_def)
  show test_qr_url_contains_secret_and_issuer by code_simp
qed

section \<open>Passkeys\<close>

text \<open>
  The fixture passkey and how its credential id is encoded are parameters, as are the library's parts of
  building a manager.
\<close>

definition in_memory_store_round_trip ::
  "('w, 'p) memory_cell \<Rightarrow> ('p \<Rightarrow> string) \<Rightarrow> (string \<Rightarrow> string) \<Rightarrow> 'p \<Rightarrow> 'w \<Rightarrow> bool" where
  "in_memory_store_round_trip C cred b64 p w =
     (let r = new_passkey_record cred b64 ''user-1'' p; unknown = r\<lparr>pk_cred_id := ''bm90LXJlZ2lzdGVyZWQ''\<rparr> in
      unwrapped (mem_get_passkeys C ''user-1'' w) (\<lambda>none w. none = [] \<and>
      unwrapped (mem_save_passkey C r w) (\<lambda>_ w.
      unwrapped (mem_get_passkeys C ''user-1'' w) (\<lambda>fetched w.
        length fetched = 1 \<and> pk_cred_id (fetched ! 0) = pk_cred_id r \<and> pk_user_id (fetched ! 0) = ''user-1'' \<and>
      unwrapped (mem_get_passkeys C ''user-2'' w) (\<lambda>others w. others = [] \<and>
      read_then (mem_update_passkey C unknown w) (\<lambda>u w. is_err u \<and>
      unwrapped (mem_update_passkey C r w) (\<lambda>_ w.
      unwrapped (mem_get_passkeys C ''user-1'' w) (\<lambda>fetched w. length fetched = 1 \<and>
      unwrapped (mem_delete_passkey C ''user-1'' (pk_cred_id r) w) (\<lambda>_ w.
      unwrapped (mem_get_passkeys C ''user-1'' w) (\<lambda>left _. left = []))))))))))"

definition rejects_invalid_rp_origin ::
  "(string \<Rightarrow> string + 'url) \<Rightarrow> (string \<Rightarrow> 'url \<Rightarrow> string + 'b) \<Rightarrow> ('b \<Rightarrow> string \<Rightarrow> 'b) \<Rightarrow> ('b \<Rightarrow> string + 'wn)
     \<Rightarrow> env \<Rightarrow> bool" where
  "rejects_invalid_rp_origin url_parse new_builder set_rp_name build env =
     is_err (new_webauthn url_parse new_builder set_rp_name build
       ((default_webauthn_config env)\<lparr>rp_origin := ''://not-a-url''\<rparr>))"

definition authentication_needs_enrolled_credentials ::
  "('wn \<Rightarrow> 'p list \<Rightarrow> ('w, 'challenge) call) \<Rightarrow> 'wn \<Rightarrow> 'w \<Rightarrow> bool" where
  "authentication_needs_enrolled_credentials lib manager w =
     is_err (fst (start_passkey_authentication lib manager [] w))"

definition unique_user :: "'w platform \<Rightarrow> ('w, string) read" where
  "unique_user P w = (case uuid_v4 P w of (i, w') \<Rightarrow> (''pg-test-user-'' @ i, w'))"

definition save_and_fetch_round_trip_without_loss ::
  "'w platform \<Rightarrow> ('w, 'p) passkey_pool \<Rightarrow> ('p \<Rightarrow> string) \<Rightarrow> (string \<Rightarrow> string) \<Rightarrow> 'p \<Rightarrow> 'w \<Rightarrow> bool" where
  "save_and_fetch_round_trip_without_loss P D cred b64 p w =
     read_then (unique_user P w) (\<lambda>user w. let r = new_passkey_record cred b64 user p in
     unwrapped (pg_save_passkey D r w) (\<lambda>_ w.
     unwrapped (pg_get_passkeys D user w) (\<lambda>fetched w.
       length fetched = 1 \<and> pk_user_id (fetched ! 0) = user \<and> pk_cred_id (fetched ! 0) = pk_cred_id r
       \<and> pk_passkey (fetched ! 0) = p \<and>
     unwrapped (pg_delete_passkey D user (pk_cred_id r) w) (\<lambda>_ _. True))))"

definition duplicate_save_errors_and_keeps_single_row ::
  "'w platform \<Rightarrow> ('w, 'p) passkey_pool \<Rightarrow> ('p \<Rightarrow> string) \<Rightarrow> (string \<Rightarrow> string) \<Rightarrow> 'p \<Rightarrow> 'w \<Rightarrow> bool" where
  "duplicate_save_errors_and_keeps_single_row P D cred b64 p w =
     read_then (unique_user P w) (\<lambda>user w. let r = new_passkey_record cred b64 user p in
     unwrapped (pg_save_passkey D r w) (\<lambda>_ w.
     read_then (pg_save_passkey D r w) (\<lambda>again w. is_err again \<and>
     unwrapped (pg_get_passkeys D user w) (\<lambda>fetched w. length fetched = 1 \<and>
     unwrapped (pg_delete_passkey D user (pk_cred_id r) w) (\<lambda>_ _. True)))))"

definition fetch_is_scoped_to_user ::
  "'w platform \<Rightarrow> ('w, 'p) passkey_pool \<Rightarrow> ('p \<Rightarrow> string) \<Rightarrow> (string \<Rightarrow> string) \<Rightarrow> 'p \<Rightarrow> 'w \<Rightarrow> bool" where
  "fetch_is_scoped_to_user P D cred b64 p w =
     read_then (unique_user P w) (\<lambda>alice w. read_then (unique_user P w) (\<lambda>bob w.
     let a = new_passkey_record cred b64 alice p; b = new_passkey_record cred b64 bob p in
     unwrapped (pg_save_passkey D a w) (\<lambda>_ w. unwrapped (pg_save_passkey D b w) (\<lambda>_ w.
     unwrapped (pg_get_passkeys D alice w) (\<lambda>fa w. length fa = 1 \<and> pk_user_id (fa ! 0) = alice \<and>
     unwrapped (pg_get_passkeys D bob w) (\<lambda>fb w. length fb = 1 \<and> pk_user_id (fb ! 0) = bob \<and>
     unwrapped (pg_delete_passkey D alice (pk_cred_id a) w) (\<lambda>_ w.
     unwrapped (pg_delete_passkey D bob (pk_cred_id b) w) (\<lambda>_ _. True))))))))"

definition delete_removes_credential ::
  "'w platform \<Rightarrow> ('w, 'p) passkey_pool \<Rightarrow> ('p \<Rightarrow> string) \<Rightarrow> (string \<Rightarrow> string) \<Rightarrow> 'p \<Rightarrow> 'w \<Rightarrow> bool" where
  "delete_removes_credential P D cred b64 p w =
     read_then (unique_user P w) (\<lambda>user w. let r = new_passkey_record cred b64 user p in
     unwrapped (pg_save_passkey D r w) (\<lambda>_ w.
     unwrapped (pg_delete_passkey D user (pk_cred_id r) w) (\<lambda>_ w.
     unwrapped (pg_get_passkeys D user w) (\<lambda>left w. left = [] \<and>
     unwrapped (pg_delete_passkey D user (pk_cred_id r) w) (\<lambda>_ _. True)))))"

lemma memory_test_passes:
  assumes "passkey_cell C" "cell_get C w = []" "b64 (cred p) \<noteq> ''bm90LXJlZ2lzdGVyZWQ''"
  shows "in_memory_store_round_trip C cred b64 p w"
  using assms(2,3) passkey_cell.cell_get_set [OF assms(1)]
  by (simp add: in_memory_store_round_trip_def test_steps mem_get_passkeys_def mem_save_passkey_def
      mem_update_passkey_def mem_delete_passkey_def new_passkey_record_def pk_key_def Let_def)

lemma ceremony_tests_pass:
  "url_parse ''://not-a-url'' = Inl e \<Longrightarrow> rejects_invalid_rp_origin url_parse new_builder set_rp_name build env"
  "authentication_needs_enrolled_credentials lib manager w"
  by (simp_all add: rejects_invalid_rp_origin_def authentication_needs_enrolled_credentials_def is_err_def
      new_webauthn_def start_passkey_authentication_def throw_def of_sum_def bind_res_def)

lemma postgres_tests_pass:
  "save_and_fetch_round_trip_without_loss ref_platform ref_passkeys cred b64 p start_world"
  "duplicate_save_errors_and_keeps_single_row ref_platform ref_passkeys cred b64 p start_world"
  "fetch_is_scoped_to_user ref_platform ref_passkeys cred b64 p start_world"
  "delete_removes_credential ref_platform ref_passkeys cred b64 p start_world"
proof -
  have texts: "delete_passkey_sql \<noteq> save_passkey_sql" "update_passkey_sql \<noteq> save_passkey_sql"
    by (simp_all add: delete_passkey_sql_def save_passkey_sql_def update_passkey_sql_def)
  note run = test_steps unique_user_def ref_platform_def pg_save_passkey_def pg_get_passkeys_def pg_delete_passkey_def
    new_passkey_record_def record_of_row_def io_run ref_passkeys_def texts of_sum_def start_world_def Let_def bits.simps
  show "save_and_fetch_round_trip_without_loss ref_platform ref_passkeys cred b64 p start_world"
    by (simp add: save_and_fetch_round_trip_without_loss_def run)
  show "duplicate_save_errors_and_keeps_single_row ref_platform ref_passkeys cred b64 p start_world"
    by (simp add: duplicate_save_errors_and_keeps_single_row_def run)
  show "fetch_is_scoped_to_user ref_platform ref_passkeys cred b64 p start_world"
    by (simp add: fetch_is_scoped_to_user_def run)
  show "delete_removes_credential ref_platform ref_passkeys cred b64 p start_world"
    by (simp add: delete_removes_credential_def run)
qed

section \<open>Sessions\<close>

definition test_session_creation :: "'w platform \<Rightarrow> 'w \<Rightarrow> bool" where
  "test_session_creation P w =
     unwrapped (new_session P ''user123'' ''device456'' ''192.168.1.1'' ''Mozilla/5.0'' 15 w) (\<lambda>s w.
       sess_user_id s = ''user123'' \<and> sess_device_id s = ''device456'' \<and>
       read_then (is_expired P s w) (\<lambda>expired _. \<not> expired \<and> \<not> sess_mfa_verified s))"

definition test_session_expiration :: "'w platform \<Rightarrow> 'w \<Rightarrow> bool" where
  "test_session_expiration P w =
     unwrapped (new_session P ''user123'' ''device456'' ''192.168.1.1'' ''Mozilla/5.0'' 0 w) (\<lambda>s w.
     read_then (utc_now P w) (\<lambda>now w.
       case plus_minutes now (- 1) of
         Some past \<Rightarrow> read_then (is_expired P (s\<lparr>expires_at := past\<rparr>) w) (\<lambda>expired _. expired)
       | None \<Rightarrow> False))"

lemma session_tests_pass:
  "test_session_creation ref_platform start_world" "test_session_expiration ref_platform start_world"
  by (simp_all add: test_session_creation_def test_session_expiration_def test_steps new_session_def is_expired_def
      plus_minutes_def plus_seconds_def datetime_min_def datetime_max_def ref_platform_def io_run start_world_def
      nanos_per_second_def Let_def)

end
