(* ===== verification/Passkey_Tests.thy ===== *)
theory Passkey_Tests
  imports Unit_Tests
begin

text \<open>
  The unit tests of \<^verbatim>\<open>auth/webauthn.rs\<close> and \<^verbatim>\<open>auth/passkey_store_pg.rs\<close> that look into the JSON of a
  challenge or of a passkey, read a column the program never reads, or choose a store. The serializers of
  \<^verbatim>\<open>webauthn-rs\<close>, its two starting functions and the pool are parameters; the tests pass under what their
  documentation says.
\<close>

section \<open>JSON\<close>

text \<open>\<open>json_at k j\<close> is \<^verbatim>\<open>j[k]\<close>: null where there is no such entry.\<close>

definition json_at :: "string \<Rightarrow> json \<Rightarrow> json" where
  "json_at k j = (case j of JObj kvs \<Rightarrow> (case map_of kvs k of Some v \<Rightarrow> v | None \<Rightarrow> JNull) | _ \<Rightarrow> JNull)"

text \<open>The ids in a list of credentials; \<open>None\<close> where the test would panic.\<close>

definition credential_ids :: "string \<Rightarrow> json \<Rightarrow> string list option" where
  "credential_ids field challenge =
     (case json_at field (json_at ''publicKey'' challenge) of
        JArr creds \<Rightarrow> those (map (\<lambda>c. case json_at ''id'' c of JStr i \<Rightarrow> Some i | _ \<Rightarrow> None) creds)
      | _ \<Rightarrow> None)"

text \<open>A state written as JSON text and read back is written as the same text.\<close>

definition text_round_trips :: "('s \<Rightarrow> string + string) \<Rightarrow> (string \<Rightarrow> string + 's) \<Rightarrow> 's \<Rightarrow> bool" where
  "text_round_trips to_text of_text s =
     (case to_text s of
        Inr t \<Rightarrow> (case of_text t of Inr restored \<Rightarrow> to_text restored = Inr t | Inl _ \<Rightarrow> False)
      | Inl _ \<Rightarrow> False)"

definition zeros :: string where
  "zeros = ''AAAAAAAAAAAAAAAAAAAAAAAAAAAAAAAAAAAAAAAAAAA''"

definition fixture_passkey :: "(json \<Rightarrow> string + 'p) \<Rightarrow> string + 'p" where
  "fixture_passkey from_value =
     from_value (json_obj [(''cred'', json_obj [
       (''cred_id'', JStr ''dGVzdC1jcmVkZW50aWFsLWlk''),
       (''cred'', json_obj [(''type_'', JStr ''ES256''),
          (''key'', json_obj [(''EC_EC2'', json_obj [(''curve'', JStr ''SECP256R1''),
             (''x'', JStr zeros), (''y'', JStr zeros)])])]),
       (''counter'', JNum 0), (''transports'', JNull), (''user_verified'', JBool True),
       (''backup_eligible'', JBool False), (''backup_state'', JBool False),
       (''registration_policy'', JStr ''required''), (''extensions'', json_obj []),
       (''attestation'', json_obj [(''data'', JStr ''None''), (''metadata'', JStr ''None'')]),
       (''attestation_format'', JStr ''none'')])])"

definition test_manager ::
  "(string \<Rightarrow> string + 'url) \<Rightarrow> (string \<Rightarrow> 'url \<Rightarrow> string + 'b) \<Rightarrow> ('b \<Rightarrow> string \<Rightarrow> 'b) \<Rightarrow> ('b \<Rightarrow> string + 'wn)
     \<Rightarrow> 'wn proxy_result" where
  "test_manager url_parse new_builder set_rp_name build =
     new_webauthn url_parse new_builder set_rp_name build
       \<lparr>rp_id = ''example.com'', rp_origin = ''https://example.com'', rp_name = ''Test Proxy'',
        webauthn_enabled = True, passkey_store = MemoryKind\<rparr>"

lemma test_manager_builds:
  assumes "url_parse ''https://example.com'' = Inr u" "new_builder ''example.com'' u = Inr b"
    and "build (set_rp_name b ''Test Proxy'') = Inr manager"
  shows "test_manager url_parse new_builder set_rp_name build = Ok manager"
  using assms by (simp add: test_manager_def new_webauthn_def of_sum_def)

section \<open>Challenges\<close>

definition registration_challenge_is_browser_json_and_state_round_trips ::
  "'w platform \<Rightarrow> ('wn \<Rightarrow> uuid \<Rightarrow> string \<Rightarrow> string \<Rightarrow> string list option \<Rightarrow> ('w, 'c \<times> 's) call)
     \<Rightarrow> ('p \<Rightarrow> string) \<Rightarrow> ('c \<Rightarrow> string + json) \<Rightarrow> ('s \<Rightarrow> string + string) \<Rightarrow> (string \<Rightarrow> string + 's)
     \<Rightarrow> 'wn \<Rightarrow> 'w \<Rightarrow> bool" where
  "registration_challenge_is_browser_json_and_state_round_trips P lib cred to_value to_text of_text manager w =
     read_then (uuid_v4 P w) (\<lambda>user w.
     unwrapped (start_passkey_registration lib cred manager user ''alice'' ''Alice'' [] w) (\<lambda>(challenge, state) _.
       (case to_value challenge of
          Inr (JObj kvs) \<Rightarrow> map_of kvs ''publicKey'' \<noteq> None
        | _ \<Rightarrow> False)
       \<and> text_round_trips to_text of_text state))"

definition authentication_challenge_lists_enrolled_credential_ids ::
  "('wn \<Rightarrow> 'p list \<Rightarrow> ('w, 'c \<times> 's) call) \<Rightarrow> ('c \<Rightarrow> string + json) \<Rightarrow> ('s \<Rightarrow> string + string)
     \<Rightarrow> (string \<Rightarrow> string + 's) \<Rightarrow> (json \<Rightarrow> string + 'p) \<Rightarrow> 'wn \<Rightarrow> 'w \<Rightarrow> bool" where
  "authentication_challenge_lists_enrolled_credential_ids lib to_value to_text of_text from_value manager w =
     (case fixture_passkey from_value of
        Inr p \<Rightarrow>
          unwrapped (start_passkey_authentication lib manager [p] w) (\<lambda>(challenge, state) _.
            (case to_value challenge of
               Inr j \<Rightarrow> credential_ids ''allowCredentials'' j = Some [''dGVzdC1jcmVkZW50aWFsLWlk'']
             | Inl _ \<Rightarrow> False)
            \<and> text_round_trips to_text of_text state)
      | Inl _ \<Rightarrow> False)"

definition excluded_credentials_are_not_rechallenged ::
  "'w platform \<Rightarrow> ('wn \<Rightarrow> uuid \<Rightarrow> string \<Rightarrow> string \<Rightarrow> string list option \<Rightarrow> ('w, 'c \<times> 's) call)
     \<Rightarrow> ('p \<Rightarrow> string) \<Rightarrow> ('c \<Rightarrow> string + json) \<Rightarrow> (json \<Rightarrow> string + 'p) \<Rightarrow> 'wn \<Rightarrow> 'w \<Rightarrow> bool" where
  "excluded_credentials_are_not_rechallenged P lib cred to_value from_value manager w =
     (case fixture_passkey from_value of
        Inr existing \<Rightarrow>
          read_then (uuid_v4 P w) (\<lambda>user w.
          unwrapped (start_passkey_registration lib cred manager user ''alice'' ''Alice'' [existing] w)
            (\<lambda>(challenge, _) _.
              case to_value challenge of
                Inr j \<Rightarrow> credential_ids ''excludeCredentials'' j = Some [''dGVzdC1jcmVkZW50aWFsLWlk'']
              | Inl _ \<Rightarrow> False))
      | Inl _ \<Rightarrow> False)"

text \<open>
  Under what the library documents: it starts a ceremony, its challenge lists the credentials it was given,
  by their encoded ids, and its states survive serialization; the fixture is a passkey with the id it was given.
\<close>

lemma credential_ids_listed:
  assumes "json_at field (json_at ''publicKey'' j) = JArr (map (\<lambda>i. JObj [(''id'', JStr i)]) ids)"
  shows "credential_ids field j = Some ids"
proof -
  have "those (map (\<lambda>c. case json_at ''id'' c of JStr i \<Rightarrow> Some i | _ \<Rightarrow> None)
      (map (\<lambda>i. JObj [(''id'', JStr i)]) ids)) = Some ids"
    by (induction ids) (simp_all add: json_at_def)
  with assms show ?thesis by (simp add: credential_ids_def)
qed

lemma challenge_tests_pass:
  assumes reg: "\<And>u n d ids w. \<exists>c s w'. lib manager u n d (Some ids) w = (Inr (c, s), w')
      \<and> to_value c = Inr (JObj [(''publicKey'',
          JObj [(''excludeCredentials'', JArr (map (\<lambda>i. JObj [(''id'', JStr (b64 i))]) ids))])])"
    and auth: "\<And>p w. \<exists>c s w'. lib' manager [p] w = (Inr (c, s), w')
      \<and> to_value' c = Inr (JObj [(''publicKey'',
          JObj [(''allowCredentials'', JArr [JObj [(''id'', JStr (b64 (cred p)))]])])])"
    and state: "\<And>s. text_round_trips to_text of_text s" "\<And>s. text_round_trips to_text' of_text' s"
    and fixture: "fixture_passkey from_value = Inr p" "b64 (cred p) = ''dGVzdC1jcmVkZW50aWFsLWlk''"
  shows "registration_challenge_is_browser_json_and_state_round_trips P lib cred to_value to_text of_text manager w"
    and "authentication_challenge_lists_enrolled_credential_ids lib' to_value' to_text' of_text' from_value manager w"
    and "excluded_credentials_are_not_rechallenged P lib cred to_value from_value manager w"
proof -
  obtain u w1 where u: "uuid_v4 P w = (u, w1)" by (cases "uuid_v4 P w")
  note run = test_steps start_passkey_registration_def start_passkey_authentication_def u io_run of_sum_def
  obtain c s w2 where "lib manager u ''alice'' ''Alice'' (Some []) w1 = (Inr (c, s), w2)"
      "to_value c = Inr (JObj [(''publicKey'', JObj [(''excludeCredentials'', JArr [])])])"
    using reg [of u "''alice''" "''Alice''" "[]" w1] by auto
  then show "registration_challenge_is_browser_json_and_state_round_trips P lib cred to_value to_text of_text manager w"
    by (simp add: registration_challenge_is_browser_json_and_state_round_trips_def run state)
  obtain c s w2 where "lib' manager [p] w = (Inr (c, s), w2)" "to_value' c = Inr (JObj [(''publicKey'',
      JObj [(''allowCredentials'', JArr [JObj [(''id'', JStr (b64 (cred p)))]])])])"
    using auth [of p w] by auto
  moreover from this(2) have "to_value' c = Inr j \<Longrightarrow> credential_ids ''allowCredentials'' j = Some [b64 (cred p)]" for j
    by (intro credential_ids_listed) (auto simp: json_at_def)
  ultimately show "authentication_challenge_lists_enrolled_credential_ids lib' to_value' to_text' of_text' from_value
      manager w"
    by (simp add: authentication_challenge_lists_enrolled_credential_ids_def run state fixture)
  obtain c s w2 where "lib manager u ''alice'' ''Alice'' (Some [cred p]) w1 = (Inr (c, s), w2)"
      "to_value c = Inr (JObj [(''publicKey'', JObj [(''excludeCredentials'', JArr [JObj [(''id'', JStr (b64 (cred p)))]])])])"
    using reg [of u "''alice''" "''Alice''" "[cred p]" w1] by auto
  moreover from this(2) have "to_value c = Inr j \<Longrightarrow> credential_ids ''excludeCredentials'' j = Some [b64 (cred p)]" for j
    by (intro credential_ids_listed) (auto simp: json_at_def)
  ultimately show "excluded_credentials_are_not_rechallenged P lib cred to_value from_value manager w"
    by (simp add: excluded_credentials_are_not_rechallenged_def run fixture)
qed

section \<open>The database of the tests\<close>

text \<open>
  \<open>migrate\<close> runs the embedded migrations on a pool. The tests of the table are skipped without a
  \<^verbatim>\<open>DATABASE_URL\<close>, and only then: a broken database or migration is a panic.
\<close>

definition test_store ::
  "env \<Rightarrow> (string \<Rightarrow> u32 \<Rightarrow> nat \<Rightarrow> ('w, ('w, 'p) passkey_pool) call) \<Rightarrow> (('w, 'p) passkey_pool \<Rightarrow> ('w, unit) call)
     \<Rightarrow> ('w, ('w, 'p) passkey_pool option) proxy_io" where
  "test_store env pool_connect migrate w =
     (case env ''DATABASE_URL'' of
        None \<Rightarrow> (Ok None, w)
      | Some url \<Rightarrow>
          (case pool_connect url 5 5 w of
             (Inl _, w) \<Rightarrow> (Panic, w)
           | (Inr D, w) \<Rightarrow>
               (case migrate D w of
                  (Inl _, w) \<Rightarrow> (Panic, w)
                | (Inr _, w) \<Rightarrow> (Ok (Some D), w))))"

lemma test_store_skips:
  "(\<exists>w'. test_store env pool_connect migrate w = (Ok None, w')) \<longleftrightarrow> env ''DATABASE_URL'' = None"
  by (auto simp: test_store_def split: option.splits prod.splits sum.splits)

section \<open>The stored counter\<close>

text \<open>
  \<open>counter\<close> is \<^verbatim>\<open>["cred"]["counter"]\<close> of a passkey's JSON, \<open>with_counter\<close> the passkey whose JSON has another
  one, and \<open>last_used_at user cred\<close> the query for that column.
\<close>

definition update_persists_counter_and_stamps_last_used ::
  "'w platform \<Rightarrow> ('w, 'p) passkey_pool \<Rightarrow> (string \<Rightarrow> string \<Rightarrow> ('w, instant option) call) \<Rightarrow> ('p \<Rightarrow> string)
     \<Rightarrow> (string \<Rightarrow> string) \<Rightarrow> (nat \<Rightarrow> 'p \<Rightarrow> 'p) \<Rightarrow> ('p \<Rightarrow> nat) \<Rightarrow> 'p \<Rightarrow> 'w \<Rightarrow> bool" where
  "update_persists_counter_and_stamps_last_used P D last_used_at cred b64 with_counter counter p w =
     read_then (unique_user P w) (\<lambda>user w. let r = new_passkey_record cred b64 user p in
     unwrapped (pg_save_passkey D r w) (\<lambda>_ w.
     let updated = r\<lparr>pk_passkey := with_counter 42 p\<rparr> in
     unwrapped (pg_update_passkey D updated w) (\<lambda>_ w.
     unwrapped (pg_get_passkeys D user w) (\<lambda>fetched w.
       length fetched = 1 \<and> counter (pk_passkey (fetched ! 0)) = 42 \<and>
     unwrapped (call_io DatabaseError (last_used_at user (pk_cred_id r)) w) (\<lambda>stamped w. stamped \<noteq> None \<and>
     read_then (pg_update_passkey D (updated\<lparr>pk_cred_id := ''bm90LXJlZ2lzdGVyZWQ''\<rparr>) w) (\<lambda>u w. is_err u \<and>
     unwrapped (pg_delete_passkey D user (pk_cred_id r) w) (\<lambda>_ _. True)))))))"

lemma counter_test_passes:
  assumes "counter (with_counter 42 p) = 42" "b64 (cred p) \<noteq> ''bm90LXJlZ2lzdGVyZWQ''"
    and "\<And>u c w. last_used_at u c w = (Inr (Some (stamp u c w)), w)"
  shows "update_persists_counter_and_stamps_last_used ref_platform ref_passkeys last_used_at cred b64 with_counter counter
    p start_world"
proof -
  have texts: "delete_passkey_sql \<noteq> save_passkey_sql" "update_passkey_sql \<noteq> save_passkey_sql"
    by (simp_all add: delete_passkey_sql_def save_passkey_sql_def update_passkey_sql_def)
  show ?thesis
    using assms
    by (simp add: update_persists_counter_and_stamps_last_used_def test_steps unique_user_def ref_platform_def
        pg_save_passkey_def pg_get_passkeys_def pg_update_passkey_def pg_delete_passkey_def new_passkey_record_def
        record_of_row_def io_run ref_passkeys_def texts of_sum_def start_world_def Let_def bits.simps)
qed

section \<open>The store the configuration selects\<close>

text \<open>\<open>apply_ddl url\<close> runs the embedded migrations on a scratch pool.\<close>

definition factory_selects_backend_from_config ::
  "'w platform \<Rightarrow> (string \<Rightarrow> u32 \<Rightarrow> nat \<Rightarrow> ('w, ('w, 'p) passkey_pool) call) \<Rightarrow> ('w, ('w, 'p) memory_cell) read
     \<Rightarrow> (string \<Rightarrow> ('w, unit) call) \<Rightarrow> env \<Rightarrow> ('p \<Rightarrow> string) \<Rightarrow> (string \<Rightarrow> string) \<Rightarrow> 'p \<Rightarrow> 'w \<Rightarrow> bool" where
  "factory_selects_backend_from_config P pool_connect new_cell apply_ddl env cred b64 p w =
     unwrapped (connect_passkey_store pool_connect new_cell MemoryKind '''' 1 w) (\<lambda>memory w.
     read_then (unique_user P w) (\<lambda>user w.
     unwrapped (save_passkey memory (new_passkey_record cred b64 user p) w) (\<lambda>_ w.
     unwrapped (get_passkeys memory user w) (\<lambda>fetched w. length fetched = 1 \<and>
     (case env ''DATABASE_URL'' of
        None \<Rightarrow> True
      | Some url \<Rightarrow>
          unwrapped (call_io DatabaseError (apply_ddl url) w) (\<lambda>_ w.
          unwrapped (connect_passkey_store pool_connect new_cell PostgresKind url 5 w) (\<lambda>pg w.
          read_then (unique_user P w) (\<lambda>user w. let r = new_passkey_record cred b64 user p in
          unwrapped (save_passkey pg r w) (\<lambda>_ w.
          unwrapped (get_passkeys pg user w) (\<lambda>fetched w. length fetched = 1 \<and>
          unwrapped (delete_passkey pg user (pk_cred_id r) w) (\<lambda>_ _. True)))))))))))"

lemma table_keeps_one:
  assumes "passkey_rows v = []"
  shows "read_then (unique_user ref_platform v) (\<lambda>user w. let r = new_passkey_record cred b64 user p in
     unwrapped (pg_save_passkey ref_passkeys r w) (\<lambda>_ w.
     unwrapped (pg_get_passkeys ref_passkeys user w) (\<lambda>fetched w. length fetched = 1 \<and>
     unwrapped (pg_delete_passkey ref_passkeys user (pk_cred_id r) w) (\<lambda>_ _. True))))"
proof -
  have texts: "delete_passkey_sql \<noteq> save_passkey_sql"
    by (simp add: delete_passkey_sql_def save_passkey_sql_def)
  show ?thesis
    using assms
    by (simp add: test_steps unique_user_def ref_platform_def pg_save_passkey_def pg_get_passkeys_def
        pg_delete_passkey_def new_passkey_record_def record_of_row_def io_run ref_passkeys_def texts of_sum_def Let_def)
qed

text \<open>Where the pool is the reference one, and the cell keeps what it is set to and nothing of the tables.\<close>

lemma factory_test_passes:
  assumes "passkey_cell C" "\<And>n. cell_get C (start_world\<lparr>uuids := n\<rparr>) = []" "\<And>v. new_cell v = (C, v)"
    and "\<And>m v. passkey_rows (cell_set C m v) = passkey_rows v"
    and "\<And>url n s v. pool_connect url n s v = (Inr ref_passkeys, v)" "\<And>url v. apply_ddl url v = (Inr (), v)"
  shows "factory_selects_backend_from_config ref_platform pool_connect new_cell apply_ddl env cred b64 p start_world"
proof -
  let ?w = "start_world\<lparr>uuids := Suc 0\<rparr>"
  obtain user where user: "unique_user ref_platform start_world = (user, ?w)"
    by (simp add: unique_user_def ref_platform_def start_world_def)
  let ?r = "new_passkey_record cred b64 user p"
  obtain w1 where save: "mem_save_passkey C ?r ?w = (Ok (), w1)" "cell_get C w1 = [((user, pk_cred_id ?r), ?r)]"
      "passkey_rows w1 = []"
    using assms(2,4) passkey_cell.cell_get_set [OF assms(1)]
    by (simp add: mem_save_passkey_def new_passkey_record_def pk_key_def start_world_def)
  have get: "mem_get_passkeys C user w1 = (Ok [?r], w1)"
    by (simp add: mem_get_passkeys_def save(2))
  have connect: "connect_passkey_store pool_connect new_cell MemoryKind url n v = (Ok (MemoryStore C), v)"
    "connect_passkey_store pool_connect new_cell PostgresKind url n v = (Ok (PostgresStore ref_passkeys), v)"
    "call_io DatabaseError (apply_ddl url) v = (Ok (), v)" for url n v
    by (simp_all add: connect_passkey_store_def pg_connect_def io_run assms(3,5,6) of_sum_def)
  show ?thesis
    unfolding factory_selects_backend_from_config_def connect unwrapped_def [where m = "(Ok x, v)" for x v]
      prod.case outcome.case user
    using table_keeps_one [OF save(3), of cred b64 p]
    by (simp add: read_then_def [where m = "(user, ?w)"] save(1) get unwrapped_def [where m = "(Ok x, v)" for x v]
        split: option.split)
qed

end
