(* ===== verification/Session_Interleaving.thy ===== *)
theory Session_Interleaving
  imports Interleaving Quiet_Services
begin

text \<open>
  Invariants of the session store that no interleaving of requests breaks. What the store holds is
  described by a property \<open>V\<close> of its sessions. The only command that can break it is \<open>SETEX\<close>, and every
  handler writes a session it has just made or read; so \<open>V\<close> is carried from the command that read a
  session to the one that writes it back, across whatever other requests do in between.
\<close>

definition all_sessions ::
  "'w session_manager \<Rightarrow> ('w \<Rightarrow> entries) \<Rightarrow> ('w \<Rightarrow> bool) \<Rightarrow> ('w \<Rightarrow> session \<Rightarrow> bool) \<Rightarrow> 'w \<Rightarrow> bool" where
  "all_sessions M ent I V w \<longleftrightarrow>
     I w \<and> well_keyed M ent w \<and> (\<forall>i s. stored_session M ent w i = Some s \<longrightarrow> V w s)"

lemma all_sessionsD:
  "all_sessions M ent I V w \<Longrightarrow> stored_session M ent w i = Some s \<Longrightarrow> V w s \<and> sess_id s = i"
  by (auto simp: all_sessions_def dest: well_keyed_id)

locale session_invariant =
  quiet_services S ent tm + bf: service_frame S B
  for S :: "'w proxy_server" and ent tm and B :: "'w \<Rightarrow> 'w \<Rightarrow> bool" +
  fixes I :: "'w \<Rightarrow> bool" and V :: "'w \<Rightarrow> session \<Rightarrow> bool"
  assumes upstream_base: "moves B (http_send (sv_http (services S)) up)"
    and upstream_body_base: "http_send (sv_http (services S)) up w = (Inr ur, w') \<Longrightarrow> moves B (ur_body ur)"
    and I_stable: "I w \<Longrightarrow> B w w' \<Longrightarrow> I w'"
    and V_stable: "V w s \<Longrightarrow> B w w' \<Longrightarrow> V w' s"
    and V_stamp: "V w s \<Longrightarrow> B w a \<Longrightarrow> utc_now (platform_of S) a = (t, b) \<Longrightarrow> V b (s\<lparr>last_activity := t\<rparr>)"
    and V_fresh: "utc_now (platform_of S) a0 = (t, b0) \<Longrightarrow> B b0 a \<Longrightarrow> I a \<Longrightarrow>
      uuid_v4 (platform_of S) a = (i, b) \<Longrightarrow>
      plus_minutes t (session_duration_minutes (session_manager_of S)) = Some ends \<Longrightarrow>
      V b \<lparr>sess_id = i, sess_user_id = u, sess_device_id = d, created_at = t, expires_at = ends,
        last_activity = t, sess_ip_address = ip, sess_user_agent = ua, sess_mfa_verified = False,
        sess_risk_score = 0\<rparr>"
begin

abbreviation good :: "'w \<Rightarrow> bool" where
  "good \<equiv> all_sessions (session_manager_of S) ent I V"

abbreviation inner :: "'w thread proxy_server" where
  "inner \<equiv> stepwise_server S"

end

sublocale session_invariant \<subseteq> rg: rely_guarantee B "all_sessions (session_manager_of S) ent I V"
  by (rule rely_guarantee.intro) (rule bf.frame_reflp bf.frame_transp)+

section \<open>The commands\<close>

context session_invariant begin

lemma good_step:
  assumes "good w" "B w w'" "well_keyed (session_manager_of S) ent w'"
    and "\<And>i s. stored_session (session_manager_of S) ent w' i = Some s \<Longrightarrow>
      stored_session (session_manager_of S) ent w i = Some s \<or> V w' s"
  shows "good w'"
  using assms I_stable V_stable unfolding all_sessions_def by blast

lemma quiet_keeping: "quiet ent tm w w' \<Longrightarrow> B w w' \<Longrightarrow> rg.keeping w w'"
  using stored_session_quiet [of ent tm w w' "session_manager_of S"]
  by (auto simp: rg.keeping_def all_sessions_def intro: I_stable V_stable)

lemma moves_keeping: "moves (quiet ent tm) m \<Longrightarrow> moves B m \<Longrightarrow> moves rg.keeping m"
  using quiet_keeping by (simp add: moves_def)

lemma set_keeping:
  assumes "redis_set_ex (sv_redis (services S)) (session_key (sess_id s)) js ttl w = (r, w')"
    and "session_to_json (sv_codec (services S)) s = Inr js" "good w \<Longrightarrow> V w s"
  shows "rg.keeping w w'"
proof -
  have b: "B w w'" by (rule withinD [OF bf.frame_redis_set assms(1)])
  have "good w'" if g: "good w"
  proof -
    have "well_keyed (session_manager_of S) ent w" using g by (simp add: all_sessions_def)
    from set_session_effect [OF _ _ this] assms(1,2)
    have "well_keyed (session_manager_of S) ent w' \<and>
      (stored_session (session_manager_of S) ent w' = stored_session (session_manager_of S) ent w \<or>
       stored_session (session_manager_of S) ent w'
         = (stored_session (session_manager_of S) ent w)(sess_id s \<mapsto> s))"
      by (simp add: session_manager_of_def)
    with g b assms(3) V_stable show ?thesis by (auto intro!: good_step [OF g b] split: if_splits)
  qed
  with b show ?thesis by (simp add: rg.keeping_def)
qed

lemma del_keeping: "moves rg.keeping (redis_del (sv_redis (services S)) (session_key i))"
proof (rule withinI)
  fix w r w'
  assume d: "redis_del (sv_redis (services S)) (session_key i) w = (r, w')"
  have b: "B w w'" by (rule withinD [OF bf.frame_redis_del d])
  have "good w'" if g: "good w"
  proof -
    have "\<exists>c. delete_session (session_manager_of S) i w = (c, w')"
      using d by (simp add: delete_session_def call_io_def manager_parts)
    then have "well_keyed (session_manager_of S) ent w' \<and>
      (stored_session (session_manager_of S) ent w' = stored_session (session_manager_of S) ent w \<or>
       stored_session (session_manager_of S) ent w' = (stored_session (session_manager_of S) ent w)(i := None))"
      using delete_session_effect g by (auto simp: all_sessions_def)
    then show ?thesis by (auto intro!: good_step [OF g b] split: if_splits)
  qed
  with b show "rg.keeping w w'" by (simp add: rg.keeping_def)
qed

lemma keeping_kv: "kv_frame S rg.keeping"
proof (intro kv_frameI kv_base_axioms.intro)
  show "call_frame S rg.keeping"
    by unfold_locales
      (rule rg.keeping_preorder | rule moves_keeping, rule qc.frame_calls, rule bf.frame_calls)+
  fix k i
  show "moves rg.keeping (redis_get (sv_redis (services S)) k)"
    using within_get [of k] bf.frame_redis_get by (intro moves_keeping) (simp_all add: manager_parts)
  show "moves rg.keeping (redis_del (sv_redis (services S)) (session_key i))"
    by (rule del_keeping)
  show "moves rg.keeping (redis_scan_match (sv_redis (services S)) ''session:*'')"
    using within_scan bf.frame_redis_scan by (intro moves_keeping) (simp_all add: manager_parts)
qed

abbreviation kept_under where
  "kept_under \<equiv> under B good"

lemmas inner_kv = kv_frame_stepwise [OF keeping_kv rg.under_preorder rg.under_steps]

end

sublocale session_invariant \<subseteq>
  ik: kv_frame "stepwise_server S" "under B (all_sessions (session_manager_of S) ent I V)"
  by (rule inner_kv)

section \<open>The operations of the manager, step by step\<close>

context session_invariant begin

abbreviation inner_manager where
  "inner_manager \<equiv> session_manager_of inner"

abbreviation true :: "'w \<Rightarrow> bool" where
  "true \<equiv> \<lambda>_. True"

lemmas inner_parts = stepwise_manager [of S] and meets_rules = rg.meets_bind rg.meets_pure

lemmas ik_base = kv_base.frame_redis_get [OF kv_frame.axioms(2), OF keeping_kv]

lemma stable_V: "rg.stable (\<lambda>w. V w s)"
  using V_stable by (auto simp: rg.stable_def)

lemma set_meets:
  "meets B good (\<lambda>w. V w s \<and> session_to_json (sv_codec (services S)) s = Inr js)
    (call_io RedisError (redis_set_ex (sm_redis inner_manager) (session_key (sess_id s)) js ttl))
    (\<lambda>_ w. V w s)"
proof -
  have "(good a \<longrightarrow> good b) \<and> B a b \<and> V b s" if "V a s" "session_to_json (sv_codec (services S)) s = Inr js"
    "redis_set_ex (sv_redis (services S)) (session_key (sess_id s)) js ttl a = (x, b)" for a x b
    using set_keeping [OF that(3,2)] that(1) V_stable by (auto simp: rg.keeping_def)
  then show ?thesis
    unfolding inner_parts stepwise_redis_def redis.simps
    by (intro rg.meets_call rg.stable_conj stable_V rg.stable_const) blast+
qed

lemma serialize_meets:
  "meets B good (\<lambda>w. V w s) (serialize_session inner_manager s)
    (\<lambda>js w. V w s \<and> session_to_json (sv_codec (services S)) s = Inr js)"
  unfolding serialize_session_def by (rule rg.meets_pure(3)) (simp add: inner_parts of_sum_Ok_iff)

lemma update_meets: "meets B good (\<lambda>w. V w s) (update_session inner_manager s) (\<lambda>_ w. V w s)"
proof -
  have now: "moves kept_under (read_io (utc_now (sm_platform inner_manager)))"
    by (intro within_read ik.inside_manager)
  show ?thesis
    unfolding update_session_def Let_def
  proof (rule rg.meets_bind [OF serialize_meets])
    fix js
    have st: "rg.stable (\<lambda>w. V w s \<and> session_to_json (sv_codec (services S)) s = Inr js)"
      by (intro rg.stable_conj stable_V rg.stable_const)
    show "meets B good (\<lambda>w. V w s \<and> session_to_json (sv_codec (services S)) s = Inr js)
        (bind_io (read_io (utc_now (sm_platform inner_manager))) (\<lambda>now.
          if 0 < num_seconds (expires_at s - now)
          then call_io RedisError (redis_set_ex (sm_redis inner_manager) (session_key (sess_id s)) js
            (word_of_int (num_seconds (expires_at s - now))))
          else ret ())) (\<lambda>_ w. V w s)"
      by (rule rg.meets_bind [OF rg.meets_frame [OF now st]])
        (intro rg.meets_if set_meets rg.meets_pure(1), simp)
  qed
qed

text \<open>Reading a session gives one with \<open>V\<close>; it is stamped, and written back.\<close>

lemma read_meets:
  "meets B good true (call_io RedisError (redis_get (sm_redis inner_manager) (session_key i)))
     (\<lambda>data w. \<forall>text s. data = Some text \<longrightarrow> session_of_json (sv_codec (services S)) text = Inr s \<longrightarrow>
        V w s \<and> sess_id s = i)"
  unfolding inner_parts stepwise_redis_def redis.simps
proof (intro rg.meets_call rg.stable_const)
  fix a x b
  assume g: "good a" and r: "redis_get (sv_redis (services S)) (session_key i) a = (x, b)"
  show "B a b \<and> good b"
    using withinD [OF ik_base r] g by (simp add: rg.keeping_def)
next
  fix a b y
  assume g: "good a" and y: "redis_get (sv_redis (services S)) (session_key i) a = (Inr y, b)"
  then have ab: "B a b"
    using withinD [OF ik_base y] by (simp add: rg.keeping_def)
  show "\<forall>text s. y = Some text \<longrightarrow> session_of_json (sv_codec (services S)) text = Inr s \<longrightarrow> V b s \<and> sess_id s = i"
  proof (intro allI impI)
    fix js s
    assume t: "y = Some js" "session_of_json (sv_codec (services S)) js = Inr s"
    then obtain d where "ent a (session_key i) = Some (js, d)"
      using key_reads [of i a y b] y by (auto simp: manager_parts dest!: live_SomeD sym [of "Some js"])
    with t(2) have "stored_session (session_manager_of S) ent a i = Some s"
      by (simp add: stored_session_Some_iff session_manager_of_def)
    then show "V b s \<and> sess_id s = i"
      using all_sessionsD [OF g] V_stable ab by blast
  qed
qed

lemma stamp_meets:
  "meets B good (\<lambda>w. V w s) (read_io (update_activity (sm_platform inner_manager) s))
     (\<lambda>s' w. V w s' \<and> sess_id s' = sess_id s)"
proof -
  have step: "B a b \<and> good b \<and> V b s' \<and> sess_id s' = sess_id s"
    if a: "good a" "V a s" "update_activity (platform_of S) s a = (s', b)" for a s' b
  proof -
    obtain t where t: "utc_now (platform_of S) a = (t, b)" "s' = s\<lparr>last_activity := t\<rparr>"
      using a(3) by (auto simp: update_activity_def split: prod.splits)
    have "rg.keeping a b" by (rule withinD [OF call_frame.frame_calls(1) [OF kv_frame.axioms(1) [OF keeping_kv]] t(1)])
    moreover have "B a a" using bf.frame_reflp by (rule reflpD)
    ultimately show ?thesis
      using a(1) V_stamp [OF a(2) _ t(1)] t(2) by (simp add: rg.keeping_def)
  qed
  have "update_activity (sm_platform inner_manager) s = stepwise (update_activity (platform_of S) s)"
    by (rule ext) (simp add: inner_parts update_activity_def stepwise_platform_def stepwise_def split: prod.split)
  moreover have "meets B good (\<lambda>w. V w s) (read_io (stepwise (update_activity (platform_of S) s)))
      (\<lambda>s' w. V w s' \<and> sess_id s' = sess_id s)"
    using stable_V step by (rule rg.meets_read)
  ultimately show ?thesis by (simp only:)
qed

lemma get_meets:
  "meets B good true (get_session inner_manager i) (\<lambda>s w. V w s \<and> sess_id s = i)"
proof -
  have st: "rg.stable (\<lambda>w. V w s \<and> sess_id s = i)" for s
    by (intro rg.stable_conj stable_V rg.stable_const)
  have expired: "moves kept_under (read_io (is_expired (sm_platform inner_manager) s))" for s
    by (intro within_read ik.inside_session_reads)
  have drop: "moves kept_under (delete_session inner_manager i)"
    by (rule ik.inside_delete_session)
  have keep: "meets B good (\<lambda>w. V w s \<and> sess_id s = i)
      (bind_io (update_session inner_manager s) (\<lambda>_. ret s)) (\<lambda>s w. V w s \<and> sess_id s = i)" for s
    by (rule rg.meets_bind [OF rg.meets_const [OF update_meets] rg.meets_pure(1)])
  have used: "meets B good (\<lambda>w. V w s \<and> sess_id s = i)
      (bind_io (read_io (update_activity (sm_platform inner_manager) s)) (\<lambda>s'.
         bind_io (update_session inner_manager s') (\<lambda>_. ret s'))) (\<lambda>s w. V w s \<and> sess_id s = i)" for s
    by (rule rg.meets_bind [OF rg.meets_const [OF stamp_meets]], rule meets_conseq [OF keep]) auto
  have found: "meets B good (\<lambda>w. V w s \<and> sess_id s = i)
      (bind_io (read_io (is_expired (sm_platform inner_manager) s)) (\<lambda>expired.
         if expired then bind_io (delete_session inner_manager i) (\<lambda>_. throw (InvalidSession ''Session expired''))
         else bind_io (read_io (update_activity (sm_platform inner_manager) s)) (\<lambda>s'.
           bind_io (update_session inner_manager s') (\<lambda>_. ret s')))) (\<lambda>s w. V w s \<and> sess_id s = i)" for s
    by (rule rg.meets_bind [OF rg.meets_frame [OF expired st]], rule rg.meets_if,
        rule rg.meets_bind [OF rg.meets_frame [OF drop st] rg.meets_pure(2)], rule used)
  let ?Q = "\<lambda>data w. \<forall>text s. data = Some text \<longrightarrow>
    session_of_json (sv_codec (services S)) text = Inr s \<longrightarrow> V w s \<and> sess_id s = i"
  show ?thesis
    unfolding get_session_def
  proof (rule rg.meets_bind [OF read_meets])
    fix data
    show "meets B good (?Q data) (case data of
         Some text \<Rightarrow>
           bind_io (lift_res (of_sum SerializationError (session_of_json (sm_codec inner_manager) text))) (\<lambda>s.
           bind_io (read_io (is_expired (sm_platform inner_manager) s)) (\<lambda>expired.
             if expired
             then bind_io (delete_session inner_manager i) (\<lambda>_. throw (InvalidSession ''Session expired''))
             else
               bind_io (read_io (update_activity (sm_platform inner_manager) s)) (\<lambda>s'.
               bind_io (update_session inner_manager s') (\<lambda>_. ret s'))))
       | None \<Rightarrow> throw (InvalidSession ''Session not found'')) (\<lambda>s w. V w s \<and> sess_id s = i)"
    proof (cases data)
      case (Some js)
      then show ?thesis
        by (simp only: option.case)
          (rule rg.meets_bind [OF rg.meets_pure(3) found], simp add: inner_parts of_sum_Ok_iff)
    qed (simp add: rg.meets_pure(2))
  qed
qed

text \<open>A session made is fresh, and written.\<close>

lemma new_session_meets:
  "meets B good true
    (new_session (sm_platform inner_manager) u d ip ua (session_duration_minutes (session_manager_of S)))
    (\<lambda>s w. V w s)"
  unfolding new_session_def
proof (rule rg.meets_bind)
  let ?Q = "\<lambda>t w. \<exists>a b. utc_now (platform_of S) a = (t, b) \<and> B b w"
  have st: "rg.stable (?Q t)" for t
    using bf.frame_transp by (auto simp: rg.stable_def dest: transpD)
  have B_refl: "B w w" for w using bf.frame_reflp by (rule reflpD)
  have kept: "moves rg.keeping (utc_now (platform_of S))" "moves rg.keeping (uuid_v4 (platform_of S))"
    using kv_frame.axioms(1) [OF keeping_kv] call_frame.frame_calls(1) call_frame.frame_calls(2) by blast+
  show "meets B good true (read_io (utc_now (sm_platform inner_manager))) ?Q"
    unfolding inner_parts stepwise_platform_def platform.simps
    by (rule rg.meets_read) (simp, use withinD [OF kept(1), unfolded rg.keeping_def] B_refl in blast)
  fix t
  have make: "meets B good (?Q t) (bind_io (read_io (uuid_v4 (sm_platform inner_manager))) (\<lambda>i.
      ret \<lparr>sess_id = i, sess_user_id = u, sess_device_id = d, created_at = t, expires_at = ends,
           last_activity = t, sess_ip_address = ip, sess_user_agent = ua, sess_mfa_verified = False,
           sess_risk_score = 0\<rparr>)) (\<lambda>s w. V w s)"
    if p: "plus_minutes t (session_duration_minutes (session_manager_of S)) = Some ends" for ends
  proof (rule rg.meets_bind [OF _ rg.meets_pure(1)])
    show "meets B good (?Q t) (read_io (uuid_v4 (sm_platform inner_manager)))
       (\<lambda>i w. V w \<lparr>sess_id = i, sess_user_id = u, sess_device_id = d, created_at = t, expires_at = ends,
           last_activity = t, sess_ip_address = ip, sess_user_agent = ua, sess_mfa_verified = False,
           sess_risk_score = 0\<rparr>)"
      unfolding inner_parts stepwise_platform_def platform.simps
    proof (rule rg.meets_read [OF st])
      fix a i b
      assume g: "good a" and q: "?Q t a" and i: "uuid_v4 (platform_of S) a = (i, b)"
      have "I a" using g by (simp add: all_sessions_def)
      with q i p V_fresh show "B a b \<and> good b \<and> V b \<lparr>sess_id = i, sess_user_id = u, sess_device_id = d,
          created_at = t, expires_at = ends, last_activity = t, sess_ip_address = ip, sess_user_agent = ua,
          sess_mfa_verified = False, sess_risk_score = 0\<rparr>"
        using withinD [OF kept(2) i] g by (auto simp: rg.keeping_def)
    qed
  qed
  then show "meets B good (?Q t) (case plus_minutes t (session_duration_minutes (session_manager_of S)) of
       None \<Rightarrow> lift_res Panic
     | Some ends \<Rightarrow> bind_io (read_io (uuid_v4 (sm_platform inner_manager))) (\<lambda>i.
         ret \<lparr>sess_id = i, sess_user_id = u, sess_device_id = d, created_at = t, expires_at = ends,
           last_activity = t, sess_ip_address = ip, sess_user_agent = ua, sess_mfa_verified = False,
           sess_risk_score = 0\<rparr>)) (\<lambda>s w. V w s)"
    by (auto intro: rg.meets_pure(3) split: option.split)
qed

lemma create_meets:
  "meets B good true (create_session inner_manager u d ip ua)
    (\<lambda>s w. V w s \<and> (\<exists>v v'. create_session inner_manager u d ip ua v = (Ok s, v')))"
proof (rule rg.meets_result, unfold create_session_def Let_def inner_parts(4),
    rule rg.meets_bind [OF new_session_meets], rule rg.meets_bind [OF serialize_meets],
    rule rg.meets_bind [OF set_meets])
  fix s show "meets B good (\<lambda>w. V w s) (ret s) (\<lambda>s w. V w s)" by (rule rg.meets_pure(1))
qed

end

section \<open>The handlers, step by step\<close>

context session_invariant begin

lemma open_session_under:
  assumes "\<And>w s d v v'. V w s \<Longrightarrow> create_session inner_manager (u_id user) d ip ua v = (Ok s, v') \<Longrightarrow>
      V w (s\<lparr>sess_mfa_verified := mfa, sess_risk_score := total_score score\<rparr>)"
  shows "moves kept_under (open_session inner ip ua user body mfa score)"
proof (rule rg.meets_if_under)
  have rest: "moves kept_under (bind_io (audit_login inner user d ip True) (\<lambda>_.
      bind_io (generate_token (platform_of inner) (sv_jwt (services inner)) (jwt_manager inner) (u_id user) d
        n mfa i) (\<lambda>token. ret (s, token))))" for d n i and s :: session
    by (intro ik.frame_basic ik.inside_audits ik.inside_tokens)
  have use: "meets B good (\<lambda>w. V w s0 \<and> (\<exists>v v'. create_session inner_manager (u_id user) d ip ua v = (Ok s0, v')))
      (let s = s0\<lparr>sess_mfa_verified := mfa, sess_risk_score := total_score score\<rparr> in
       bind_io (update_session inner_manager s) (\<lambda>_. bind_io (audit_login inner user d ip True) (\<lambda>_.
       bind_io (generate_token (platform_of inner) (sv_jwt (services inner)) (jwt_manager inner) (u_id user) d
         (sess_risk_score s) mfa (sess_id s)) (\<lambda>token. ret (s, token))))) (\<lambda>_ _. True)" for s0 d
    unfolding Let_def
    by (rule meets_conseq, rule rg.meets_bind [OF update_meets rg.meets_frame [OF rest stable_V]])
      (use assms in auto)
  show "meets B good true (open_session inner ip ua user body mfa score) (\<lambda>_ _. True)"
    unfolding open_session_def
    by (rule rg.meets_bind [OF rg.meets_frame [OF within_read [OF ik.inside_fresh_device_id] rg.stable_const]],
        rule rg.meets_bind [OF create_meets use])
qed simp

lemma step_up_under:
  assumes "\<And>w s. V w s \<Longrightarrow> sess_id s = i \<Longrightarrow> V w (s\<lparr>sess_mfa_verified := True\<rparr>)"
  shows "moves kept_under (bind_io (get_session inner_manager i)
    (\<lambda>s. update_session inner_manager (s\<lparr>sess_mfa_verified := True\<rparr>)))"
proof (rule rg.meets_if_under)
  show "meets B good true (bind_io (get_session inner_manager i)
      (\<lambda>s. update_session inner_manager (s\<lparr>sess_mfa_verified := True\<rparr>))) (\<lambda>_ _. True)"
    by (rule rg.meets_bind [OF get_meets], rule meets_conseq [OF update_meets]) (use assms in auto)
qed simp

lemma inner_gate: "gate_frame inner kept_under"
proof (intro gate_frameI gate_base_axioms.intro)
  show "call_frame inner kept_under" by (rule ik.call_frame_axioms)
  fix i u
  have "meets B good true (get_session inner_manager i) (\<lambda>_ _. True)"
    using get_meets by (rule meets_conseq) simp_all
  then show "moves kept_under (get_session inner_manager i)" by (simp add: meets_under)
  show "moves kept_under (delete_session inner_manager i)" by (rule ik.inside_delete_session)
  show "moves kept_under (revoke_user_sessions inner_manager u)" by (rule ik.inside_revoke)
qed

lemma inner_forward:
  assumes "moves (quiet ent tm) (req_body req)" "moves B (req_body req)"
  shows "moves kept_under (forward_upstream inner (stepwise_request req))"
    "moves kept_under (req_body (stepwise_request req))"
proof -
  have calls: "call_frame S rg.keeping" using keeping_kv by (rule kv_frame.axioms(1))
  have body: "moves rg.keeping (req_body req)" using assms by (rule moves_keeping)
  show "moves kept_under (forward_upstream inner (stepwise_request req))"
    using moves_keeping [OF upstream_quiet upstream_base]
      moves_keeping [OF upstream_body_quiet upstream_body_base]
    by (rule forward_stepwise [OF calls rg.under_preorder rg.under_steps body])
  show "moves kept_under (req_body (stepwise_request req))"
    using moves_stepwise [OF rg.under_steps body] by simp
qed

end
end
