(* ===== verification/Logout_Race.thy ===== *)
theory Logout_Race
  imports Interleaved_Runs Logout Gate_Claims
begin

text \<open>
  Alice's request and her logout at the same time: the request has read her session when the logout deletes
  it, and writes it back.
\<close>

definition ended_world :: world where
  "ended_world = gate_world\<lparr>strings := []\<rparr>"

text \<open>The request reads the session before the logout, and looks at the clock after it.\<close>

definition race_schedule :: "world list" where
  "race_schedule = [gate_world, gate_world, ended_world]"

lemma bearer_stepwise:
  "bearer_claims S req (next_world v) = (Ok c, b)
    \<Longrightarrow> bearer_claims (stepwise_server S) (stepwise_request req) v = (Ok c, advance v b)"
  by (auto simp: bearer_claims_Ok_iff stepwise_jwt_def stepwise_def)

lemma race_get:
  assumes "schedule v = [gate_world, ended_world]"
  shows "\<exists>v' cs. get_session (session_manager_of (stepwise_server default_server)) ''uuid-'' v
      = (Ok alice_mfa_session, v') \<and> alone v' gate_world
    \<and> extends v v' ((gate_world, gate_world) # (ended_world, ended_world) # cs)"
proof -
  have M: "session_manager_of (stepwise_server default_server) = \<lparr>sm_platform = stepwise_platform ref_platform,
      sm_redis = stepwise_redis ref_redis, sm_codec = reference_codec, session_duration_minutes = 15\<rparr>"
    by (simp add: server_run stepwise_defs)
  show ?thesis
    unfolding M
    by (simp add: get_session_def stepwise_def stepwise_redis_def stepwise_platform_def advance_def next_world_def
        assms is_expired_def update_activity_def update_session_def serialize_session_def
        alice_mfa_session_def alice_session_def gate_world_def ended_world_def alice_world_def ref_run
        alone_def extends_def)
qed

text \<open>From there on the request runs alone, from a world where the session is stored again.\<close>

lemma race_authorized:
  assumes "schedule v = race_schedule"
  shows "\<exists>v' cs. authorize (stepwise_server default_server) (stepwise_request alice_request) ''GET'' ''/api/x''
      ''10.0.0.1'' v = (Ok (), v')
    \<and> (\<exists>w'. alone v' w' \<and> strings w' = strings gate_world \<and> clock w' = clock gate_world)
    \<and> extends v v' ((gate_world, gate_world) # (gate_world, gate_world) # (ended_world, ended_world) # cs)"
proof -
  let ?S = "stepwise_server default_server" and ?v = "advance v gate_world"
  have next_w: "next_world v = gate_world" using assms by (simp add: next_world_def race_schedule_def)
  have "bearer_claims default_server alice_request gate_world = (Ok alice_claims, gate_world)"
    by (rule alice_bearer [OF gate_clock(1) refl])
  then have bearer: "bearer_claims ?S (stepwise_request alice_request) v = (Ok alice_claims, ?v)"
    using bearer_stepwise [of default_server alice_request v] next_w by simp
  have "schedule ?v = [gate_world, ended_world]"
    using assms by (simp add: advance_def race_schedule_def)
  then obtain vs cs where got: "get_session (session_manager_of ?S) ''uuid-'' ?v = (Ok alice_mfa_session, vs)"
      "alone vs gate_world" "extends ?v vs ((gate_world, gate_world) # (ended_world, ended_world) # cs)"
    using race_get by blast
  obtain w' where risk: "authorize_risk default_server alice_claims alice_mfa_session ''GET'' ''/api/x'' ''10.0.0.1''
      gate_world = (Ok (), w')"
    using alice_admitted [OF gate_clock(1)] by blast
  let ?risk = "authorize_risk ?S alice_claims alice_mfa_session ''GET'' ''/api/x'' ''10.0.0.1'' vs"
  from rel_funD [OF authorize_risk_transfer [THEN rel_funD, OF server_alone, THEN rel_funD, OF refl, THEN rel_funD,
        OF refl, THEN rel_funD, OF refl, THEN rel_funD, OF refl, THEN rel_funD, OF refl] got(2)]
  have "rel_prod (rel_outcome (=) (=)) alone ?risk (Ok (), w')" unfolding risk [symmetric] .
  then obtain v' where v': "?risk = (Ok (), v')" "alone v' w'"
    by (cases ?risk) (auto simp: outcome.rel_eq)
  have "sess_user_id alice_mfa_session = sub alice_claims" "clm_session_id alice_claims = ''uuid-''"
    by (simp_all add: alice_mfa_session_def alice_session_def alice_claims_def)
  moreover obtain d where d: "evaluate (policy_engine default_server) (request_context alice_claims ''/api/x'' ''GET'') = Ok d"
      "allowed d"
    using evaluate_decides alice_decided by metis
  ultimately have auth: "authorize ?S (stepwise_request alice_request) ''GET'' ''/api/x'' ''10.0.0.1'' v = (Ok (), v')"
    using d alice_decided
    by (simp add: authorize_def bind_io_def bearer got(1) v'(1) lift_res_def)
  have kept: "strings w' = strings gate_world" "clock w' = clock gate_world"
    using withinD [OF call_base.inside_authorize_risk [OF call_frame.axioms(1), OF ref_store_calls] risk [unfolded default_server_def]]
    by simp_all
  obtain ds where "extends vs v' ds"
    using withinD [OF call_base.inside_authorize_risk [OF call_frame.axioms(1), OF service_frame.service_calls [OF adds_steps]] v'(1)]
    by (auto simp: all_along_any)
  from extends_trans [OF extends_trans [OF extends_advance [of v gate_world] got(3)] this]
  have "extends v v' ((gate_world, gate_world) # (gate_world, gate_world) # (ended_world, ended_world) # cs @ ds)"
    by (simp add: next_w)
  with auth v'(2) kept show ?thesis by blast
qed

definition race_requests :: "bool \<Rightarrow> world request \<times> ip_addr" where
  "race_requests i = (if i then logout_request else alice_request, ''10.0.0.1'')"

text \<open>The request is forwarded, and leaves the session stored.\<close>

lemma race_forwarded:
  "\<exists>v cs w. at_once default_server race_requests False (start_thread gate_world race_schedule)
      = (Ok \<lparr>resp_status = 200, resp_headers = [], resp_body = ''upstream''\<rparr>, v)
    \<and> taken v = (gate_world, gate_world) # (gate_world, gate_world) # (ended_world, ended_world) # cs
    \<and> scheduled ended_world [] ((ended_world, ended_world) # cs) \<and> ends_at ended_world cs = w
    \<and> strings w = strings gate_world \<and> clock w = clock gate_world \<and> upstream_log w \<noteq> []"
proof -
  let ?v = "start_thread gate_world race_schedule" and ?S = "stepwise_server default_server"
  obtain v1 cs w1 where a: "authorize ?S (stepwise_request alice_request) ''GET'' ''/api/x'' ''10.0.0.1'' ?v = (Ok (), v1)"
    and w1: "alone v1 w1" "strings w1 = strings gate_world" "clock w1 = clock gate_world"
    and cs: "extends ?v v1 ((gate_world, gate_world) # (gate_world, gate_world) # (ended_world, ended_world) # cs)"
    using race_authorized [of ?v] by (auto simp: start_thread_def)
  let ?forward = "forward_upstream ?S (stepwise_request alice_request) v1"
  from rel_funD [OF forward_transfer [THEN rel_funD, OF server_alone [of default_server], THEN
        rel_funD, OF request_alone [of alice_request]] w1(1)]
  obtain v2 w2 where f: "?forward = (Ok \<lparr>resp_status = 200, resp_headers = [], resp_body = ''upstream''\<rparr>, v2)"
    "alone v2 w2" "strings w2 = strings w1" "clock w2 = clock w1" "upstream_log w2 \<noteq> []"
    unfolding alice_forwarded by (cases ?forward) (auto simp: outcome.rel_eq)
  have path: "req_path alice_request = ''/api/x''" "req_method alice_request = ''GET''"
    by (simp_all add: alice_request_def)
  have h: "at_once default_server race_requests False ?v
      = (Ok \<lparr>resp_status = 200, resp_headers = [], resp_body = ''upstream''\<rparr>, v2)"
    by (simp add: at_once_def race_requests_def handle_request_def route_def path Let_def bind_io_def a f(1))
  obtain ds where ds: "extends v1 v2 ds"
    using withinD [OF forward_on_schedule f(1)] by (auto simp: on_schedule_def)
  have "on_schedule ?v v2"
    using h handled_on_schedule by (simp add: at_once_def race_requests_def) blast
  with extends_trans [OF cs ds] extends_unique have "scheduled gate_world race_schedule
      ((gate_world, gate_world) # (gate_world, gate_world) # (ended_world, ended_world) # cs @ ds)"
    by (auto simp: on_schedule_def start_thread_def)
  moreover have "here v2 = ends_at ended_world (cs @ ds)" "taken v2
      = (gate_world, gate_world) # (gate_world, gate_world) # (ended_world, ended_world) # cs @ ds"
    using extends_trans [OF cs ds] by (simp_all add: extends_def start_thread_def)
  ultimately show ?thesis
    using h f(2-) w1 by (auto simp: race_schedule_def alone_def)
qed

lemma race_logged_out:
  "\<exists>v r. at_once default_server race_requests True (start_thread gate_world []) = (Ok r, v) \<and> resp_status r = 200
    \<and> scheduled gate_world [] (taken v) \<and> ends_at gate_world (taken v) = ended_world"
proof -
  have path: "req_path logout_request = ''/auth/logout''" "req_method logout_request = ''POST''"
    by (simp_all add: logout_request_def)
  have h: "handle_request default_server logout_request ''10.0.0.1'' gate_world
     = (Ok \<lparr>resp_status = 200, resp_headers = json_headers,
          resp_body = json_text (json_obj [(''ok'', JBool True)])\<rparr>, ended_world)"
    by (simp add: handle_request_def route_def path Let_def alice_logs_out ended_world_def)
  show ?thesis
    using handle_alone [OF h] by (auto simp: at_once_def race_requests_def)
qed

lemma race_trace:
  "\<exists>tr sched. interleaving (at_once default_server race_requests) (=) gate_world tr
    \<and> (\<forall>i. \<exists>resp v. at_once default_server race_requests i (start_thread gate_world (sched i)) = (Ok resp, v)
          \<and> resp_status resp = 200 \<and> taken v = steps_of i tr)
    \<and> strings (last_world gate_world tr) = strings gate_world
    \<and> clock (last_world gate_world tr) = clock gate_world \<and> upstream_log (last_world gate_world tr) \<noteq> []"
proof -
  let ?run = "at_once default_server race_requests"
  obtain v cs w where v: "?run False (start_thread gate_world race_schedule)
      = (Ok \<lparr>resp_status = 200, resp_headers = [], resp_body = ''upstream''\<rparr>, v)"
    "taken v = (gate_world, gate_world) # (gate_world, gate_world) # (ended_world, ended_world) # cs"
    "scheduled ended_world [] ((ended_world, ended_world) # cs)" "ends_at ended_world cs = w"
    "strings w = strings gate_world" "clock w = clock gate_world" "upstream_log w \<noteq> []"
    using race_forwarded by blast
  obtain u r where u: "?run True (start_thread gate_world []) = (Ok r, u)" "resp_status r = 200"
    "scheduled gate_world [] (taken u)" "ends_at gate_world (taken u) = ended_world"
    using race_logged_out by blast
  let ?tr = "(False, gate_world, gate_world) # (False, gate_world, gate_world) # map (Pair True) (taken u)
      @ map (Pair False) ((ended_world, ended_world) # cs)"
  let ?sched = "\<lambda>i. if i then [] else race_schedule"
  have steps: "steps_of True ?tr = taken u" "steps_of False ?tr = taken v"
    by (simp_all add: v(2))
  have "reflp ((=) :: world \<Rightarrow> _)" by (simp add: reflp_def)
  note chain = scheduled_connected [OF this refl u(3), of True] scheduled_connected [OF this refl v(3), of False]
  have "connected (=) gate_world ?tr" "last_world gate_world ?tr = w"
    using chain u(4) v(4) by (simp_all add: last_world_append)
  moreover have "run_of (?run i) gate_world (steps_of i ?tr)" for i
    unfolding run_of_def by (rule exI [of _ "?sched i"], cases i) (simp_all add: steps v(1,2) u(1))
  moreover have "\<exists>resp v. ?run i (start_thread gate_world (?sched i)) = (Ok resp, v)
      \<and> resp_status resp = 200 \<and> taken v = steps_of i ?tr" for i
    by (cases i) (simp_all add: steps v(1,2) u(1,2))
  ultimately show ?thesis
    using v(5-)
    by (intro exI [of _ ?tr] exI [of _ ?sched] conjI allI) (simp_all only: interleaving_def simp_thms)
qed


end
