(* ===== verification/Concurrent_Claims.thy ===== *)
theory Concurrent_Claims
  imports Session_Interleaving Lifetime Mfa_Claims Logout Logout_Race
begin

text \<open>
  What holds of any number of requests handled at the same time, whatever the order of their calls:
  the store stays well formed, the MFA flag is raised only by a code, a session once ended stays
  ended for all requests that start later, and the upstream is reached only after the token was decoded and the
  session read.
\<close>

section \<open>Base frames\<close>

lemma sound_store_all:
  "sound_store M ent tm = all_sessions M ent (\<lambda>_. True) (\<lambda>w. sound_session M (tm w))"
  by (simp add: fun_eq_iff sound_store_def all_sessions_def)

context quiet_services begin

text \<open>Time passes in every call.\<close>

lemma later_services: "service_frame S (later tm)"
proof (intro service_frameI kv_frameI kv_base_axioms.intro service_base_axioms.intro)
  have l: "quiet ent tm w w' \<Longrightarrow> later tm w w'" for w w' by (simp add: quiet_def later_def)
  show "call_frame S (later tm)" using later_preorder l by (rule calls_framed_by)
  show "moves (later tm) (redis_get (sv_redis (services S)) k)" for k
    using moves_weaken [OF within_get l] by (simp add: manager_parts)
  show "moves (later tm) (redis_scan_match (sv_redis (services S)) ''session:*'')"
    using moves_weaken [OF within_scan l] by (simp add: manager_parts)
  show "moves (later tm) (redis_del (sv_redis (services S)) (session_key i))" for i
    using key_time(2) by (auto intro!: withinI simp: later_def manager_parts)
  show "moves (later tm) (redis_set_ex (sv_redis (services S)) (session_key i) v ttl)" for i v ttl
    using key_time(1) by (auto intro!: withinI simp: later_def manager_parts)
qed

lemma upstream_later:
  "moves (later tm) (http_send (sv_http (services S)) up)"
  "http_send (sv_http (services S)) up w = (Inr ur, w') \<Longrightarrow> moves (later tm) (ur_body ur)"
  using upstream_quiet upstream_body_quiet by (auto simp: moves_def quiet_def later_def)

text \<open>Sound sessions, and sessions whose flag is not raised, as invariants of the store.\<close>

lemmas clock_reads = now_reads [unfolded manager_parts] and fresh_id_quiet = uuid_quiet [unfolded manager_parts]

lemma sound_invariant:
  "session_invariant S ent tm (later tm) (\<lambda>_. True) (\<lambda>w. sound_session manager (tm w))"
proof (intro session_invariant.intro quiet_services_axioms later_services session_invariant_axioms.intro)
  fix a0 t b0 a i b ends u d ip ua
  assume "utc_now (platform_of S) a0 = (t, b0)" "later tm b0 a" "uuid_v4 (platform_of S) a = (i, b)"
    and p: "plus_minutes t (session_duration_minutes manager) = Some ends"
  then have "t \<le> tm b"
    using clock_reads [of a0 t b0] quiet_time [OF fresh_id_quiet [of a i b]] by (auto simp: later_def)
  with p show "sound_session manager (tm b) \<lparr>sess_id = i, sess_user_id = u, sess_device_id = d,
      created_at = t, expires_at = ends, last_activity = t, sess_ip_address = ip, sess_user_agent = ua,
      sess_mfa_verified = False, sess_risk_score = 0\<rparr>"
    by (auto simp: sound_session_def plus_minutes_def dest!: plus_seconds_Some)
next
  fix w s a t b
  assume "sound_session manager (tm w) s" "later tm w a" "utc_now (platform_of S) a = (t, b)"
  then show "sound_session manager (tm b) (s\<lparr>last_activity := t\<rparr>)"
    using clock_reads [of a t b] sound_session_used [of manager "tm w" s t "tm b"] by (simp add: later_def)
qed (auto simp: upstream_later later_def intro: sound_session_later)

lemma flag_invariant:
  "session_invariant S ent tm (later tm) (\<lambda>_. True) (\<lambda>_ s. sess_id s = j \<longrightarrow> \<not> sess_mfa_verified s)"
  by (intro session_invariant.intro quiet_services_axioms later_services session_invariant_axioms.intro)
    (auto simp: upstream_later)

end

section \<open>The store of concurrent requests\<close>

context session_invariant begin

lemma flags_handlers:
  assumes "\<And>w s m n. V w s \<Longrightarrow> V w (s\<lparr>sess_mfa_verified := m, sess_risk_score := n\<rparr>)"
    and "\<And>w s. V w s \<Longrightarrow> V w (s\<lparr>sess_mfa_verified := True\<rparr>)"
  shows "handler_frame inner kept_under"
  by (intro handler_frame.intro inner_gate handler_frame_axioms.intro open_session_under step_up_under
      assms; assumption)

lemma rely_guaranteed: "rely_guarantee B"
  by (rule rg.rely_guarantee_axioms)

lemma at_once_under:
  assumes "handler_frame inner kept_under"
    and "moves (quiet ent tm) (req_body (fst (reqs i)))" "moves B (req_body (fst (reqs i)))"
  shows "moves kept_under (at_once S reqs i)"
  unfolding at_once_def
  by (rule handler_frame.inside_request [OF assms(1)]) (rule inner_forward [OF assms(2,3)])+

lemma interleaved_good:
  assumes "interleaving (at_once S reqs) E w tr" "\<And>i. moves kept_under (at_once S reqs i)"
    and "\<And>a b. E a b \<Longrightarrow> quiet ent tm a b \<and> B a b" "good w" "(i, a, b) \<in> set tr"
  shows "B w a \<and> good a \<and> B a b \<and> good b"
  using assms(3) quiet_keeping by (intro rg.interleaving_keeps [OF assms(1,2) _ assms(4,5)]) blast

end

context quiet_services begin

lemma body_later: "moves (quiet ent tm) m \<Longrightarrow> moves (later tm) m"
  by (auto simp: moves_def quiet_def later_def)

lemma sound_at_once:
  assumes "moves (quiet ent tm) (req_body (fst (reqs i)))"
  shows "moves (under (later tm) (sound_store manager ent tm)) (at_once S reqs i)"
  unfolding sound_store_all
  using assms body_later [OF assms]
  by (intro session_invariant.at_once_under [OF sound_invariant]
      session_invariant.flags_handlers [OF sound_invariant]) simp_all

lemma sound_interleaved:
  assumes "interleaving (at_once S reqs) (quiet ent tm) w tr"
    and "\<And>i. moves (quiet ent tm) (req_body (fst (reqs i)))" "sound w" "(i, a, b) \<in> set tr"
  shows "sound a \<and> sound b \<and> tm w \<le> tm a \<and> tm a \<le> tm b"
  using session_invariant.interleaved_good [OF sound_invariant assms(1)
      sound_at_once [of reqs, unfolded sound_store_all, OF assms(2)] _ _ assms(4)] assms(3)
  unfolding sound_store_all by (auto simp: later_def quiet_def)

end

section \<open>Sound sessions\<close>

lemma gate_sound: "sound_store (session_manager_of default_server) ref_entries clock gate_world"
  unfolding default_services(9)
  by (simp add: sound_store_def well_keyed_def stored_session_def gate_world_def ref_run)
   (simp add: sound_session_def alice_mfa_session_def alice_session_def alice_world_def start_world_def ref_run)

text \<open>The runs of the witnesses: Alice's request and her logout at the same time; later, her code by itself, and
  her request after a logout of another session.\<close>

lemmas default_quiet = ref_quiet.quiet_services_axioms [of "default_config no_env", folded default_server_def]

lemma race_step:
  "\<exists>tr i a b. interleaving (at_once default_server race_requests) (quiet ref_entries clock) gate_world tr
    \<and> (i, a, b) \<in> set tr \<and> upstream_log b \<noteq> upstream_log a"
proof -
  obtain tr where tr: "interleaving (at_once default_server race_requests) (=) gate_world tr"
    "upstream_log (last_world gate_world tr) \<noteq> []" using race_trace by blast
  have "connected (=) gate_world tr" using tr(1) by (simp add: interleaving_def)
  then obtain i a b where "(i, a, b) \<in> set tr" "upstream_log b \<noteq> upstream_log a"
    using changing_step [of "(=)" gate_world tr upstream_log] tr(2) gate_clock(2) by auto
  moreover have "interleaving (at_once default_server race_requests) (quiet ref_entries clock) gate_world tr"
    using tr(1) by (rule interleaving_mono) (simp add: quiet_def)
  ultimately show ?thesis by blast
qed

lemma race_bodies: "moves (quiet ref_entries clock) (req_body (fst (race_requests i)))"
  "moves (\<lambda>w w'. upstream_log w' = upstream_log w) (req_body (fst (race_requests i)))"
  by (simp_all add: race_requests_def logout_request_def alice_request_def moves_def quiet_def)

text \<open>C11: However many requests are handled at the same time, and in whatever order their calls to Redis, the
  database and the clock come, the store is well formed at every moment, between any two calls of any request:
  each session is kept under its own id, was last active between its creation and now, and expires the
  configured number of minutes after its creation; and the clock only moves forward.\<close>

theorem interleaved_store_sound:
  assumes "quiet_services S ent tm" "sound_store (session_manager_of S) ent tm w"
    and "interleaving (at_once S reqs) (quiet ent tm) w tr" "\<And>i. moves (quiet ent tm) (req_body (fst (reqs i)))"
    and "(i, a, b) \<in> set tr"
  shows "sound_store (session_manager_of S) ent tm a \<and> sound_store (session_manager_of S) ent tm b
    \<and> tm w \<le> tm a \<and> tm a \<le> tm b"
  using quiet_services.sound_interleaved [OF assms(1,3,4,2,5)] .

theorem interleaved_store_sound_witness:
  "\<exists>tr i a b. interleaving (at_once default_server race_requests) (quiet ref_entries clock) gate_world tr
    \<and> (i, a, b) \<in> set tr \<and> upstream_log b \<noteq> upstream_log a
    \<and> sound_store (session_manager_of default_server) ref_entries clock a
    \<and> sound_store (session_manager_of default_server) ref_entries clock b"
proof -
  obtain tr i a b where tr: "interleaving (at_once default_server race_requests) (quiet ref_entries clock) gate_world tr"
    "(i, a, b) \<in> set tr" "upstream_log b \<noteq> upstream_log a" using race_step by blast
  from interleaved_store_sound [OF default_quiet gate_sound tr(1) race_bodies(1) tr(2)] tr show ?thesis by blast
qed

section \<open>The MFA flag\<close>

context quiet_services begin

abbreviation flag_kept :: "string \<Rightarrow> 'w \<Rightarrow> bool" where
  "flag_kept j \<equiv> all_sessions manager ent (\<lambda>_. True) (\<lambda>_ s. sess_id s = j \<longrightarrow> \<not> sess_mfa_verified s)"

lemma flag_kept_iff: "flag_kept j w \<longleftrightarrow> well_keyed manager ent w \<and> \<not> verified_at manager ent j w"
  by (auto simp: all_sessions_def verified_at_def dest: well_keyed_id)

lemma inner_flag: "flag_frame (stepwise_server S) (under (later tm) (flag_kept j)) j"
proof (intro flag_frame.intro flag_frame_axioms.intro)
  note fi = flag_invariant [of j]
  show "gate_frame (stepwise_server S) (under (later tm) (flag_kept j))"
    by (rule session_invariant.inner_gate [OF fi])
  show "moves (under (later tm) (flag_kept j)) (open_session (stepwise_server S) ip ua user body mfa score)"
    if "mfa \<Longrightarrow> (\<And>d v s v'. create_session (session_manager_of (stepwise_server S)) (u_id user) d ip ua v
      = (Ok s, v') \<Longrightarrow> sess_id s \<noteq> j)" for user ip ua mfa body score
    by (rule session_invariant.open_session_under [OF fi]) (use that in auto)
  show "moves (under (later tm) (flag_kept j)) (bind_io (get_session (session_manager_of (stepwise_server S)) i)
      (\<lambda>s. update_session (session_manager_of (stepwise_server S)) (s\<lparr>sess_mfa_verified := True\<rparr>)))"
    if "i \<noteq> j" for i
    by (rule session_invariant.step_up_under [OF fi]) (use that in auto)
qed

lemma flag_at_once:
  assumes "moves (quiet ent tm) (req_body (fst (reqs i)))"
    and "\<not> stepped_up (stepwise_server S) (stepwise_request (fst (reqs i))) j"
    and "\<not> logged_in_with_code (stepwise_server S) (stepwise_request (fst (reqs i))) (snd (reqs i)) j"
  shows "moves (under (later tm) (flag_kept j)) (at_once S reqs i)"
  unfolding at_once_def
  by (rule flag_frame.flag_inside_request [OF inner_flag _ _ assms(2,3)])
    (rule session_invariant.inner_forward [OF flag_invariant assms(1) body_later [OF assms(1)]])+

lemma flag_interleaved:
  assumes "interleaving (at_once S reqs) (quiet ent tm) w tr"
    and "\<And>i. moves (quiet ent tm) (req_body (fst (reqs i)))"
    and "well_keyed manager ent w" "\<not> verified_at manager ent j w"
    and "(i, a, b) \<in> set tr" "verified_at manager ent j b"
  shows "\<exists>k. stepped_up (stepwise_server S) (stepwise_request (fst (reqs k))) j
    \<or> logged_in_with_code (stepwise_server S) (stepwise_request (fst (reqs k))) (snd (reqs k)) j"
proof (rule ccontr)
  assume "\<not> ?thesis"
  then have "moves (under (later tm) (flag_kept j)) (at_once S reqs k)" for k
    using flag_at_once [of reqs k j] assms(2) by blast
  from session_invariant.interleaved_good [OF flag_invariant assms(1) this _ _ assms(5)] assms(3,4)
  have "flag_kept j b" by (auto simp: later_def quiet_def flag_kept_iff)
  with assms(6) show False by (simp add: flag_kept_iff)
qed

end



section \<open>The gate, step by step\<close>

lemma bearer_step:
  assumes "bearer_claims (stepwise_server S) (stepwise_request req) v = (Ok c, v')"
  shows "\<exists>tok a b. header_text (sv_http (services S)) req ''authorization'' = Some (''Bearer '' @ tok)
    \<and> jwt_decode (sv_jwt (services S)) (secret (jwt_manager S)) tok a = (Inr c, b) \<and> extends v v' [(a, b)]"
proof -
  from assms obtain tok where "header_text (sv_http (services S)) req ''authorization'' = Some (''Bearer '' @ tok)"
    "stepwise (jwt_decode (sv_jwt (services S)) (secret (jwt_manager S)) tok) v = (Inr c, v')"
    by (auto simp: bearer_claims_Ok_iff stepwise_jwt_def)
  then show ?thesis using stepwise_extends [of _ v "Inr c" v'] by blast
qed

lemma is_expired_iff:
  "is_expired P s v = (e, v') \<longleftrightarrow> (\<exists>now. utc_now P v = (now, v') \<and> e = (expires_at s < now))"
  by (auto simp: is_expired_def split: prod.split)

lemma get_step:
  assumes "get_session (session_manager_of (stepwise_server S)) i v = (Ok s, v')"
  shows "\<exists>a b js s0 a' b' now cs. redis_get (sv_redis (services S)) (session_key i) a = (Inr (Some js), b)
    \<and> session_of_json (sv_codec (services S)) js = Inr s0 \<and> same_session s0 s
    \<and> utc_now (platform_of S) a' = (now, b') \<and> now \<le> expires_at s0 \<and> extends v v' ((a, b) # (a', b') # cs)"
proof -
  let ?M = "session_manager_of (stepwise_server S)"
  obtain js s0 v1 now v2 v3 where js: "stepwise (redis_get (sv_redis (services S)) (session_key i)) v = (Inr (Some js), v1)"
    "session_of_json (sv_codec (services S)) js = Inr s0"
    and now: "stepwise (utc_now (platform_of S)) v1 = (now, v2)" "now \<le> expires_at s0"
    and used: "update_activity (sm_platform ?M) s0 v2 = (s, v3)" "update_session ?M s v3 = (Ok (), v')"
    using assms
    by (auto simp: get_session_def io_Ok io_cases stepwise_manager(2,3) stepwise_redis_def is_expired_iff
        of_sum_Ok_iff, auto simp: stepwise_manager stepwise_platform_def)
  note f = adds_steps [of S]
  obtain a b where ab: "redis_get (sv_redis (services S)) (session_key i) a = (Inr (Some js), b)" "extends v v1 [(a, b)]"
    using stepwise_extends [OF js(1)] by blast
  obtain a' b' where ab': "utc_now (platform_of S) a' = (now, b')" "extends v1 v2 [(a', b')]"
    using stepwise_extends [OF now(1)] by blast
  obtain cs ds where "extends v2 v3 cs" "extends v3 v' ds"
    using withinD [OF service_base.inside_sessions(2) [OF service_frame.axioms(2), OF f] used(2)]
      withinD [OF kv_base.inside_session_reads(2) [OF kv_frame.axioms(2), OF service_frame.axioms(1) [OF f]] used(1)]
    by (auto simp: all_along_any)
  then have "extends v v' ((a, b) # (a', b') # cs @ ds)"
    using extends_trans [OF ab(2) extends_trans [OF ab'(2) extends_trans]] by simp
  moreover have "same_session s0 s"
    using used(1) by (auto simp: update_activity_def same_session_def split: prod.splits)
  ultimately show ?thesis using ab(1) ab'(1) js(2) now(2) by blast
qed

lemma authorize_step:
  assumes "authorize (stepwise_server S) (stepwise_request req) mth path ip v = (Ok (), v')"
  shows "\<exists>tok c a b a1 b1 js s0 a2 b2 now cs.
    header_text (sv_http (services S)) req ''authorization'' = Some (''Bearer '' @ tok)
    \<and> jwt_decode (sv_jwt (services S)) (secret (jwt_manager S)) tok a = (Inr c, b)
    \<and> redis_get (sv_redis (services S)) (session_key (clm_session_id c)) a1 = (Inr (Some js), b1)
    \<and> session_of_json (sv_codec (services S)) js = Inr s0 \<and> sess_user_id s0 = sub c
    \<and> utc_now (platform_of S) a2 = (now, b2) \<and> now \<le> expires_at s0
    \<and> decides (policy_engine S) (request_context c path mth)
    \<and> (require_mfa (auth (config S)) \<longrightarrow> sess_mfa_verified s0)
    \<and> extends v v' ((a, b) # (a1, b1) # (a2, b2) # cs)"
proof -
  let ?S = "stepwise_server S"
  obtain c va s vb where c: "bearer_claims ?S (stepwise_request req) v = (Ok c, va)"
    and s: "get_session (session_manager_of ?S) (clm_session_id c) va = (Ok s, vb)"
    and u: "sess_user_id s = sub c" "decides (policy_engine S) (request_context c path mth)"
    and r: "authorize_risk ?S c s mth path ip vb = (Ok (), v')"
    using assms by (auto simp: authorize_def io_Ok evaluate_Ok_iff split: if_splits)
  obtain score :: risk_score where "admits (config ?S) s (recommendation score)"
    using r authorize_risk_Ok_iff [of ?S c s mth path ip vb] by blast
  then have mfa: "require_mfa (auth (config S)) \<longrightarrow> sess_mfa_verified s"
    by (auto simp: admits_def split: risk_recommendation.splits)
  obtain cs where cs: "extends vb v' cs"
    using withinD [OF call_base.inside_authorize_risk [OF call_frame.axioms(1), OF service_frame.service_calls [OF adds_steps]] r]
    by (auto simp: all_along_any)
  obtain tok a b where tok: "header_text (sv_http (services S)) req ''authorization'' = Some (''Bearer '' @ tok)"
    "jwt_decode (sv_jwt (services S)) (secret (jwt_manager S)) tok a = (Inr c, b)" "extends v va [(a, b)]"
    using bearer_step [OF c] by blast
  obtain a1 b1 js s0 a2 b2 now ds where got:
    "redis_get (sv_redis (services S)) (session_key (clm_session_id c)) a1 = (Inr (Some js), b1)"
    "session_of_json (sv_codec (services S)) js = Inr s0" "same_session s0 s"
    "utc_now (platform_of S) a2 = (now, b2)" "now \<le> expires_at s0"
    "extends va vb ((a1, b1) # (a2, b2) # ds)"
    using get_step [OF s] by blast
  have "extends v v' ((a, b) # (a1, b1) # (a2, b2) # ds @ cs)"
    using extends_trans [OF tok(3) extends_trans [OF got(6) cs]] by simp
  moreover have "sess_user_id s0 = sub c" "require_mfa (auth (config S)) \<longrightarrow> sess_mfa_verified s0"
    using u(1) mfa same_sessionD [OF got(3)] by simp_all
  ultimately show ?thesis using tok(1,2) got(1,2,4,5) u(2) by blast
qed

text \<open>A thread that takes a step outside \<open>Q\<close> has been through the gate before it.\<close>

lemma outside_step:
  assumes "service_frame S Q" "moves Q (req_body req)" "(a, b) \<in> set cs" "\<not> Q a b"
    and "run_of (handle_request (stepwise_server S) (stepwise_request req) ip) w cs"
  shows "\<exists>v v1 p q ds. authorize (stepwise_server S) (stepwise_request req) (req_method req) (req_path req) ip v
      = (Ok (), v1) \<and> here v = w \<and> extends v v1 ds \<and> cs = ds @ p @ (a, b) # q"
proof -
  let ?S = "stepwise_server S" and ?r = "stepwise_request req"
  obtain sched where t: "take (length cs) (taken (snd (handle_request ?S ?r ip (start_thread w sched)))) = cs"
    using assms(5) by (auto simp: run_of_def)
  let ?v = "start_thread w sched"
  obtain r v' where h: "handle_request ?S ?r ip ?v = (r, v')" by (cases "handle_request ?S ?r ip ?v")
  have "(a, b) \<in> set (taken v')" using t h assms(3) by (metis in_set_takeD snd_conv)
  with assms(4) have no: "\<not> all_along Q ?v v'"
    by (auto simp: all_along_def extends_def start_thread_def)
  have "moves (all_along Q) (req_body ?r)"
    using moves_stepwise [OF all_along_steps assms(2)] by simp
  from handler_frame.outside_was_authorized [OF service_frame.handlers_framed [OF service_frame_stepwise
        [OF assms(1) all_along_preorder all_along_steps]] this h no]
  obtain v1 rf where v1: "authorize ?S ?r (req_method req) (req_path req) ip ?v = (Ok (), v1)"
    "all_along Q ?v v1" "forward_upstream ?S ?r v1 = (rf, v')" by auto
  obtain ds where ds: "extends ?v v1 ds" "\<forall>(a, b) \<in> set ds. Q a b"
    using v1(2) by (auto simp: all_along_def)
  have "moves (all_along (\<lambda>_ _. True)) (forward_upstream ?S ?r)"
    by (rule forward_stepwise [OF service_frame.service_calls [OF any_service_frame] all_along_preorder
          all_along_steps]) (simp_all add: moves_def)
  from withinD [OF this v1(3)] obtain es where "extends v1 v' es" by (auto simp: all_along_any)
  with ds(1) have v': "taken v' = ds @ es" by (simp add: extends_def start_thread_def)
  have pre: "cs = take (length cs) ds @ take (length cs - length ds) es"
    using t h v' by simp
  then have in_es: "(a, b) \<in> set (take (length cs - length ds) es)"
    using assms(3,4) ds(2) by (metis (mono_tags, lifting) Un_iff case_prodD in_set_takeD set_append)
  then have "length ds < length cs" by (cases "length cs - length ds") auto
  with pre in_es obtain p q where "cs = ds @ p @ (a, b) # q"
    by (metis in_set_conv_decomp less_imp_le take_all)
  moreover have "here ?v = w" by (simp add: start_thread_def)
  ultimately show ?thesis using v1(1) ds(1) by blast
qed

text \<open>What a request has been through when the gate let it pass.\<close>

definition passed_gate ::
  "'w proxy_server \<Rightarrow> ('w \<Rightarrow> entries) \<Rightarrow> 'w request \<Rightarrow> ('w \<times> 'w) list \<Rightarrow> claims \<Rightarrow> session \<Rightarrow> 'w \<Rightarrow> bool" where
  "passed_gate S ent req p c s a \<longleftrightarrow>
     (\<exists>tok. \<exists>(a0, b0) \<in> set p.
        header_text (sv_http (services S)) req ''authorization'' = Some (''Bearer '' @ tok)
        \<and> jwt_decode (sv_jwt (services S)) (secret (jwt_manager S)) tok a0 = (Inr c, b0))
     \<and> a \<in> fst ` set p \<and> stored_session (session_manager_of S) ent a (clm_session_id c) = Some s
     \<and> sess_user_id s = sub c
     \<and> decides (policy_engine S) (request_context c (req_path req) (req_method req))
     \<and> (require_mfa (auth (config S)) \<longrightarrow> sess_mfa_verified s)"

context quiet_services begin

lemma gated_thread:
  assumes "interleaving (at_once S reqs) E w tr" "(i, a, b) \<in> set tr"
    and "service_frame S Q" "moves Q (req_body (fst (reqs i)))" "\<not> Q a b"
  obtains p q c s s0 a1 b1 a2 b2 now cs where "steps_of i tr = p @ (a, b) # q"
    "passed_gate S ent (fst (reqs i)) p c s a1" "p = s0 # (a1, b1) # (a2, b2) # cs"
    "utc_now (platform_of S) a2 = (now, b2)" "now \<le> expires_at s"
proof -
  let ?req = "fst (reqs i)"
  have run: "run_of (at_once S reqs i) w (steps_of i tr)"
    using assms(1) by (simp add: interleaving_def)
  have mem: "(a, b) \<in> set (steps_of i tr)" using assms(2) by (simp add: steps_of_mem)
  obtain v v1 p q ds where auth: "authorize (stepwise_server S) (stepwise_request ?req)
      (req_method ?req) (req_path ?req) (snd (reqs i)) v = (Ok (), v1)"
    and ds: "extends v v1 ds" "steps_of i tr = ds @ p @ (a, b) # q"
    using outside_step [OF assms(3,4) mem assms(5) run [unfolded at_once_def]] by blast
  obtain tok c a0 b0 a1 b1 js s a2 b2 now cs where g:
    "header_text (sv_http (services S)) ?req ''authorization'' = Some (''Bearer '' @ tok)"
    "jwt_decode (sv_jwt (services S)) (secret (jwt_manager S)) tok a0 = (Inr c, b0)"
    "redis_get (sv_redis (services S)) (session_key (clm_session_id c)) a1 = (Inr (Some js), b1)"
    "session_of_json (sv_codec (services S)) js = Inr s" "sess_user_id s = sub c"
    "utc_now (platform_of S) a2 = (now, b2)" "now \<le> expires_at s"
    "decides (policy_engine S) (request_context c (req_path ?req) (req_method ?req))"
    "require_mfa (auth (config S)) \<longrightarrow> sess_mfa_verified s"
    "extends v v1 ((a0, b0) # (a1, b1) # (a2, b2) # cs)"
    using authorize_step [OF auth] by blast
  have d: "ds = (a0, b0) # (a1, b1) # (a2, b2) # cs" by (rule extends_unique [OF ds(1) g(10)])
  obtain dl where "ent a1 (session_key (clm_session_id c)) = Some (js, dl)"
    using key_reads [of "clm_session_id c" a1 "Some js" b1] g(3)
    by (auto simp: manager_parts dest!: live_SomeD sym [of "Some js"])
  then have st: "stored_session manager ent a1 (clm_session_id c) = Some s"
    using g(4) by (simp add: stored_session_Some_iff session_manager_of_def)
  have "passed_gate S ent ?req (ds @ p) c s a1"
    unfolding passed_gate_def using g st d by force
  moreover have "ds @ p = (a0, b0) # (a1, b1) # (a2, b2) # cs @ p" using d by simp
  ultimately show thesis using ds(2) g(6,7) that [of "ds @ p"] by simp
qed

lemma gated_step:
  assumes "interleaving (at_once S reqs) (quiet ent tm) w tr"
    and "\<And>i. moves (quiet ent tm) (req_body (fst (reqs i)))" "sound w" "(i, a, b) \<in> set tr"
    and "service_frame S Q" "moves Q (req_body (fst (reqs i)))" "\<not> Q a b"
  shows "\<exists>p q c s a'. steps_of i tr = p @ (a, b) # q \<and> passed_gate S ent (fst (reqs i)) p c s a'
    \<and> tm a' \<le> created_at s + session_duration_minutes manager * 60 * nanos_per_second"
proof -
  obtain p q c s s0 a1 b1 a2 b2 now cs where g: "steps_of i tr = p @ (a, b) # q"
    "passed_gate S ent (fst (reqs i)) p c s a1" "p = s0 # (a1, b1) # (a2, b2) # cs"
    "utc_now (platform_of S) a2 = (now, b2)" "now \<le> expires_at s"
    using gated_thread [OF assms(1,4-7)] .
  have own: "(i, a1, b1) \<in> set tr" "(i, a2, b2) \<in> set tr"
    using g(1,3) by (simp_all add: steps_of_mem [symmetric])
  note steps = sound_interleaved [OF assms(1-3)]
  note at = steps [OF own(1)] steps [OF own(2)]
  have "relied (later tm) sound w (steps_of i tr)"
  proof (rule conjunct1 [OF rely_guarantee.relied_thread])
    show "connected (quiet ent tm) w tr" using assms(1) by (simp add: interleaving_def)
    show "rely_guarantee (later tm)" by (rule session_invariant.rely_guaranteed [OF sound_invariant])
    then show "rely_guarantee.keeping (later tm) sound x y" if "quiet ent tm x y" for x y
      using quiet_keeps_sound [OF that] by (simp add: rely_guarantee.keeping_def later_def keeps_sound_def)
    show "\<forall>(j, x, y) \<in> set tr. later tm x y \<and> sound y"
      using steps by (auto simp: later_def)
  qed (use assms(3) in \<open>simp_all add: later_def\<close>)
  then have "tm b1 \<le> tm a2" by (cases s0) (simp add: g(1,3) later_def)
  then have "tm a1 \<le> expires_at s" using at clock_reads [OF g(4)] g(5) by linarith
  moreover have "sound_session manager (tm a1) s"
    using at(1) g(2) by (auto simp: sound_store_def passed_gate_def)
  ultimately show ?thesis using g(1,2) by (auto simp: sound_session_def)
qed

end

text \<open>C7: The gate holds when requests interleave. If a request handled among any others takes a step that
  the proxy's own services cannot take (such as sending to the upstream), then among its own earlier steps
  it has decoded its bearer token, and has read a stored session of that token's id and user, whose
  creation was at most the configured minutes before; the policies permit the request, and where MFA is
  required the session's flag was raised.\<close>

theorem interleaved_gate:
  assumes "quiet_services S ent tm" "sound_store (session_manager_of S) ent tm w"
    and "interleaving (at_once S reqs) (quiet ent tm) w tr" "\<And>i. moves (quiet ent tm) (req_body (fst (reqs i)))"
    and "service_frame S Q" "moves Q (req_body (fst (reqs i)))" "(i, a, b) \<in> set tr" "\<not> Q a b"
  shows "\<exists>p q c s a'. steps_of i tr = p @ (a, b) # q \<and> passed_gate S ent (fst (reqs i)) p c s a'
    \<and> tm a' \<le> created_at s + session_duration_minutes (session_manager_of S) * 60 * nanos_per_second"
  using quiet_services.gated_step [OF assms(1,3,4,2,7,5,6,8)] .

theorem interleaved_gate_witness:
  "\<exists>i p c s a. passed_gate default_server ref_entries (fst (race_requests i)) p c s a
    \<and> clock a \<le> created_at s + 15 * 60 * nanos_per_second"
proof -
  obtain tr i a b where tr: "interleaving (at_once default_server race_requests) (quiet ref_entries clock) gate_world tr"
    "(i, a, b) \<in> set tr" "upstream_log b \<noteq> upstream_log a" using race_step by blast
  have frame: "service_frame default_server (\<lambda>w w'. upstream_log w' = upstream_log w)"
    using ref_frame.service_frame_axioms [of "default_config no_env"] by (simp add: default_server_def)
  from interleaved_gate [OF default_quiet gate_sound tr(1) race_bodies(1) frame race_bodies(2) tr(2,3)]
  show ?thesis unfolding default_services(9) by (simp add: ref_manager_def) blast
qed

section \<open>Logged out, for all requests to come\<close>

definition ahead :: "('w \<Rightarrow> instant) \<Rightarrow> ('w \<Rightarrow> string set) \<Rightarrow> 'w \<Rightarrow> 'w \<Rightarrow> bool" where
  "ahead tm issued w w' \<longleftrightarrow> later tm w w' \<and> grows issued w w'"

context live_services begin

lemma ahead_moves: "moves (later tm) m \<Longrightarrow> moves (grows issued) m \<Longrightarrow> moves (ahead tm issued) m"
  by (simp add: moves_def ahead_def)

lemma ahead_services: "service_frame S (ahead tm issued)"
  by unfold_locales
    (auto simp: ahead_def later_def grows_def reflp_def transp_def
      | rule ahead_moves,
        rule call_frame.frame_calls [OF service_frame.service_calls [OF later_services]]
          service_base.frame_redis [OF service_frame.axioms(2), OF later_services],
        rule gr.frame_calls gr.frame_redis)+

lemma ended_invariant:
  "session_invariant S ent tm (ahead tm issued) (\<lambda>w. j \<in> issued w) (\<lambda>_ s. sess_id s \<noteq> j)"
proof (intro session_invariant.intro quiet_services_axioms ahead_services session_invariant_axioms.intro)
  show "moves (ahead tm issued) (http_send (sv_http (services S)) up)" for up
    by (rule ahead_moves [OF upstream_later(1) upstream_grows])
  show "moves (ahead tm issued) (ur_body ur)"
    if "http_send (sv_http (services S)) up w = (Inr ur, w')" for up w ur w'
    by (rule ahead_moves [OF upstream_later(2) [OF that] upstream_body_grows [OF that]])
qed (use fresh_uuid in \<open>auto simp: ahead_def grows_def\<close>)

lemma ended_good:
  "all_sessions the_manager ent (\<lambda>w. j \<in> issued w) (\<lambda>_ s. sess_id s \<noteq> j) w \<longleftrightarrow> ended j w"
proof -
  have "(\<forall>i s. stored_session the_manager ent w i = Some s \<longrightarrow> sess_id s \<noteq> j)
      \<longleftrightarrow> stored_session the_manager ent w j = None" if "well_keyed the_manager ent w"
    using well_keyed_id [OF that] by (metis not_None_eq)
  then show ?thesis by (auto simp: all_sessions_def ended_def ss.gone_def)
qed

lemma ended_interleaved:
  assumes "interleaving (at_once S reqs) (silent ent tm issued) w tr" "ended j w"
    and "\<And>i. moves (silent ent tm issued) (req_body (fst (reqs i)))" "(i, a, b) \<in> set tr"
  shows "ended j a"
proof -
  note ei = ended_invariant [of j]
  have parts: "moves (quiet ent tm) m" "moves (ahead tm issued) m"
    if "moves (silent ent tm issued) m" for m :: "'w \<Rightarrow> 'r \<times> 'w"
    using that by (auto simp: moves_def silent_def ahead_def quiet_def later_def grows_def)
  have "handler_frame (stepwise_server S) (under (ahead tm issued)
      (all_sessions the_manager ent (\<lambda>w. j \<in> issued w) (\<lambda>_ s. sess_id s \<noteq> j)))"
    by (rule session_invariant.flags_handlers [OF ei]) simp_all
  note under = session_invariant.at_once_under [OF ei this, of reqs, OF parts [OF assms(3)]]
  have "silent ent tm issued x y \<Longrightarrow> quiet ent tm x y \<and> ahead tm issued x y" for x y
    by (auto simp: silent_def ahead_def quiet_def later_def grows_def)
  from session_invariant.interleaved_good [OF ei assms(1) under this _ assms(4)] assms(2)
  show ?thesis by (simp add: ended_good)
qed

lemma ended_step:
  assumes "interleaving (at_once S reqs) (silent ent tm issued) w tr" "ended j w"
    and "\<And>i. moves (silent ent tm issued) (req_body (fst (reqs i)))" "(i, a, b) \<in> set tr"
    and "service_frame S Q" "moves Q (req_body (fst (reqs i)))" "\<not> Q a b"
  shows "\<exists>p q c s a'. steps_of i tr = p @ (a, b) # q \<and> passed_gate S ent (fst (reqs i)) p c s a'
    \<and> clm_session_id c \<noteq> j"
proof -
  obtain p q c s s0 a1 b1 a2 b2 now cs where g: "steps_of i tr = p @ (a, b) # q"
    "passed_gate S ent (fst (reqs i)) p c s a1" "p = s0 # (a1, b1) # (a2, b2) # cs"
    using gated_thread [OF assms(1,4-7)] by metis
  have "(i, a1, b1) \<in> set tr" using g(1,3) by (simp add: steps_of_mem [symmetric])
  then have "ended j a1" by (rule ended_interleaved [OF assms(1-3)])
  with g(2) have "clm_session_id c \<noteq> j"
    by (auto simp: passed_gate_def ended_def ss.gone_def)
  with g(1,2) show ?thesis by blast
qed

end

text \<open>A second session of Alice, which has been logged out.\<close>

definition second_claims :: claims where
  "second_claims = alice_claims\<lparr>clm_session_id := ''uuid-'' @ bits 1\<rparr>"

definition second_request :: "world request" where
  "second_request = logout_request\<lparr>req_headers :=
     [(''authorization'', ''Bearer '' @ put_token ''change-me-in-production'' second_claims)]\<rparr>"

definition second_world :: world where
  "second_world = gate_world\<lparr>uuids := 2\<rparr>"

lemma second_clock: "clock second_world = clock start_world" "strings second_world = strings gate_world"
  by (simp_all add: second_world_def gate_clock)

lemma second_bearer:
  "bearer_claims default_server second_request second_world = (Ok second_claims, second_world)"
  by (rule token_bearer)
    (simp_all add: header_text_def ref_http_def second_request_def second_claims_def alice_claims_def second_clock(1)
      start_world_def timestamp_def nanos_per_second_def)

lemma second_logged_out:
  "\<exists>r. handle_logout default_server second_request second_world = (Ok r, second_world)"
  by (simp add: handle_logout_def bind_io_def second_bearer default_services delete_session_def second_claims_def
        json_response_def ref_run)
    (simp add: second_world_def gate_world_def bits.simps)



end
