(* ===== verification/Rate_Interleaving.thy ===== *)
theory Rate_Interleaving
  imports Rate_Claims Interleaved_Runs Mfa_Claims
begin

text \<open>
  The rate limiter when attempts are made at the same time. \<open>INCR\<close> is atomic and answers the new value, so the
  values that the attempts of one window get are all different: the limit holds in every interleaving.
\<close>

section \<open>A server whose counters only its limiter touches\<close>

definition still :: "('w \<Rightarrow> counters) \<Rightarrow> ('w \<Rightarrow> instant) \<Rightarrow> 'w \<Rightarrow> 'w \<Rightarrow> bool" where
  "still ctr tm w w' \<longleftrightarrow> ctr w' = ctr w \<and> tm w \<le> tm w'"

locale counted_server =
  redis_counter "sv_redis (services S)" ctr tm + oc: other_frame S "still ctr tm"
  for S :: "'w proxy_server" and ctr :: "'w \<Rightarrow> counters" and tm :: "'w \<Rightarrow> instant" +
  assumes answers: "counters_answer (sv_redis (services S))"
    and get_still: "moves (still ctr tm) (redis_get (sv_redis (services S)) key)"
    and del_still: "moves (still ctr tm) (redis_del (sv_redis (services S)) (session_key i))"
    and scan_still: "moves (still ctr tm) (redis_scan_match (sv_redis (services S)) ''session:*'')"
    and set_still: "moves (still ctr tm) (redis_set_ex (sv_redis (services S)) (session_key i) v ttl)"
    and send_still: "moves (still ctr tm) (http_send (sv_http (services S)) up)"
    and body_still: "http_send (sv_http (services S)) up w = (Inr ur, w') \<Longrightarrow> moves (still ctr tm) (ur_body ur)"

text \<open>
  The window of a counter that is not running at \<open>t0\<close>: what it counts until the window has passed. A counter that
  was due before \<open>t0\<close> counts nothing, and any deadline set since then is after the window.
\<close>

definition window_ends :: "instant \<Rightarrow> instant" where
  "window_ends t0 = t0 + 300 * nanos_per_second"

definition counted :: "('w \<Rightarrow> counters) \<Rightarrow> instant \<Rightarrow> string \<Rightarrow> 'w \<Rightarrow> int" where
  "counted ctr t0 k w = (case counter_at (ctr w) t0 k of Some (n, _) \<Rightarrow> n | None \<Rightarrow> 0)"

definition in_window :: "('w \<Rightarrow> counters) \<Rightarrow> ('w \<Rightarrow> instant) \<Rightarrow> instant \<Rightarrow> string \<Rightarrow> 'w \<Rightarrow> bool" where
  "in_window ctr tm t0 k w \<longleftrightarrow>
     t0 \<le> tm w \<and> (\<forall>n d. ctr w k = Some (n, Some d) \<longrightarrow> d \<le> t0 \<or> window_ends t0 \<le> d)"

definition counts_on :: "('w \<Rightarrow> counters) \<Rightarrow> ('w \<Rightarrow> instant) \<Rightarrow> instant \<Rightarrow> string \<Rightarrow> 'w \<Rightarrow> 'w \<Rightarrow> bool" where
  "counts_on ctr tm t0 k w w' \<longleftrightarrow> (in_window ctr tm t0 k w \<longrightarrow>
     in_window ctr tm t0 k w' \<and> tm w \<le> tm w' \<and>
     (tm w' < window_ends t0 \<longrightarrow> counted ctr t0 k w \<le> counted ctr t0 k w'))"

lemma counts_on_preorder: "reflp (counts_on ctr tm t0 k)" "transp (counts_on ctr tm t0 k)"
  by (auto simp: reflp_def transp_def counts_on_def)

lemma still_counts_on: "still ctr tm w w' \<Longrightarrow> counts_on ctr tm t0 k w w'"
  by (auto simp: still_def counts_on_def in_window_def counted_def)

lemma other_key: "ctr w' k = ctr w k \<Longrightarrow> tm w \<le> tm w' \<Longrightarrow> counts_on ctr tm t0 k w w'"
  by (auto simp: counts_on_def in_window_def counted_def counter_at_def)

context counted_server begin

lemma incr_in_window:
  assumes "redis_incr (sv_redis (services S)) (rate_key b ip) 1 w = (Inr c, w')" "in_window ctr tm t0 (rate_key b ip) w"
    and "tm w' < window_ends t0"
  shows "c = counted ctr t0 (rate_key b ip) w + 1 \<and> counted ctr t0 (rate_key b ip) w' = c"
proof -
  let ?k = "rate_key b ip"
  obtain t where t: "tm w \<le> t" "t \<le> tm w'" "fst (incremented (ctr w) t ?k 1) = c"
      "ctr w' = (ctr w)(?k \<mapsto> incremented (ctr w) t ?k 1)"
    using rate_counts [OF assms(1)] by blast
  show ?thesis
  proof (cases "ctr w ?k")
    case None
    with t show ?thesis by (simp add: counted_def incremented_def counter_at_def)
  next
    case (Some e)
    then obtain n dl where e: "ctr w ?k = Some (n, dl)" by (cases e) simp
    show ?thesis
      using t e assms(2,3) by (cases dl) (auto simp: counted_def incremented_def counter_at_def in_window_def window_ends_def)
  qed
qed

lemma incr_counts_on:
  "moves (counts_on ctr tm t0 k) (redis_incr (sv_redis (services S)) (rate_key b ip) 1)"
proof (rule withinI)
  fix w r w'
  assume i: "redis_incr (sv_redis (services S)) (rate_key b ip) 1 w = (r, w')"
  with answers obtain c where c: "redis_incr (sv_redis (services S)) (rate_key b ip) 1 w = (Inr c, w')"
    by (auto simp: counters_answer_def) (metis prod.inject)
  obtain t where t: "tm w \<le> t" "t \<le> tm w'"
      "ctr w' = (ctr w)(rate_key b ip \<mapsto> incremented (ctr w) t (rate_key b ip) 1)"
    using rate_counts [OF c] by blast
  show "counts_on ctr tm t0 k w w'"
  proof (cases "k = rate_key b ip")
    case True
    have "in_window ctr tm t0 k w'" if "in_window ctr tm t0 k w"
      using that t True by (auto simp: in_window_def incremented_def counter_at_def split: option.splits if_splits)
    with incr_in_window [OF c, of t0] t True show ?thesis by (auto simp: counts_on_def)
  qed (use t in \<open>auto intro: other_key\<close>)
qed

lemma expire_counts_on:
  "moves (counts_on ctr tm t0 k) (redis_expire (sv_redis (services S)) (rate_key b ip) 300)"
proof (rule withinI)
  fix w r w'
  assume i: "redis_expire (sv_redis (services S)) (rate_key b ip) 300 w = (r, w')"
  with answers have c: "redis_expire (sv_redis (services S)) (rate_key b ip) 300 w = (Inr (), w')"
    by (auto simp: counters_answer_def) (metis prod.inject)
  obtain t where t: "tm w \<le> t" "t \<le> tm w'" "ctr w' = (case counter_at (ctr w) t (rate_key b ip) of
      Some (n, d) \<Rightarrow> (ctr w)(rate_key b ip \<mapsto> (n, Some (t + 300 * nanos_per_second))) | None \<Rightarrow> ctr w)"
    using rate_expires [OF c] by blast
  show "counts_on ctr tm t0 k w w'"
  proof (cases "k = rate_key b ip")
    case True
    with t show ?thesis
      by (auto simp: counts_on_def in_window_def counted_def counter_at_def window_ends_def nanos_per_second_def
          split: option.splits if_splits)
  qed (use t in \<open>auto intro: other_key split: option.splits prod.splits\<close>)
qed

lemma counts_service: "service_frame S (counts_on ctr tm t0 k)"
  by unfold_locales
    (rule counts_on_preorder incr_counts_on expire_counts_on
      | rule moves_weaken [OF _ still_counts_on], rule oc.frame_now oc.frame_uuid oc.frame_jwt oc.frame_salt oc.frame_rng
          oc.frame_totp oc.frame_pg_user oc.frame_pg_insert oc.frame_pg_device oc.frame_pg_execute
          get_still del_still scan_still set_still, assumption)+

end

section \<open>The first call of a limited request\<close>

text \<open>The requests that are limited, and the name their counters have.\<close>

definition limited :: "'w request \<Rightarrow> string \<Rightarrow> bool" where
  "limited req b \<longleftrightarrow> req_method req = ''POST''
     \<and> (req_path req, b) \<in> {(''/auth/login'', ''login''), (''/auth/register'', ''register''),
         (''/auth/mfa/verify'', ''mfa_verify'')}"

lemma limiter_steps:
  assumes "check_rate_limit (stepwise_server S) ip b limit secs v = (r, v')"
  shows "\<exists>x a0 b0 cs. redis_incr (sv_redis (services S)) (rate_key b ip) 1 a0 = (x, b0)
    \<and> extends v v' ((a0, b0) # cs)
    \<and> (\<forall>(a, b') \<in> set cs. \<exists>y. redis_expire (sv_redis (services S)) (rate_key b ip) secs a = (y, b'))
    \<and> (r = Ok () \<longrightarrow> (\<exists>c. x = Inr c \<and> c \<le> limit))"
proof -
  let ?k = "rate_key b ip" and ?R = "sv_redis (services S)"
  obtain x v1 where x: "stepwise (redis_incr ?R ?k 1) v = (x, v1)" by (cases "stepwise (redis_incr ?R ?k 1) v")
  from stepwise_extends [OF x] obtain a0 b0 where i: "redis_incr ?R ?k 1 a0 = (x, b0)" "extends v v1 [(a0, b0)]"
    by blast
  show ?thesis
  proof (cases "x = Inr 1")
    case True
    obtain y v2 where y: "stepwise (redis_expire ?R ?k secs) v1 = (y, v2)"
      by (cases "stepwise (redis_expire ?R ?k secs) v1")
    from stepwise_extends [OF y] obtain a1 b1 where e: "redis_expire ?R ?k secs a1 = (y, b1)"
      "extends v1 v2 [(a1, b1)]" by blast
    have "v' = v2" "r = Ok () \<longrightarrow> 1 \<le> limit"
      using assms True x y
      by (cases y; auto simp: check_rate_limit_def io_run Let_def stepwise_redis_def of_sum_def split: if_splits)+
    with i e True extends_trans [OF i(2) e(2)] show ?thesis
      by (intro exI [of _ x] exI [of _ a0] exI [of _ b0] exI [of _ "[(a1, b1)]"]) auto
  next
    case False
    have "v' = v1" "r = Ok () \<longrightarrow> (\<exists>c. x = Inr c \<and> c \<le> limit)"
      using assms False x
      by (cases x; auto simp: check_rate_limit_def io_run Let_def stepwise_redis_def of_sum_def split: if_splits)+
    with i show ?thesis by fastforce
  qed
qed

text \<open>A thread that does anything but call its limiter was let through by it.\<close>

lemma passed_limiter:
  assumes "limited req b" "run_of (handle_request (stepwise_server S) (stepwise_request req) ip) w cs"
    and "moves Q (redis_incr (sv_redis (services S)) (rate_key b ip) 1)"
    and "moves Q (redis_expire (sv_redis (services S)) (rate_key b ip) 300)"
    and "(a, a') \<in> set cs" "\<not> Q a a'"
  shows "\<exists>c a0 b0 ds. cs = (a0, b0) # ds \<and> c \<le> 10
    \<and> redis_incr (sv_redis (services S)) (rate_key b ip) 1 a0 = (Inr c, b0)"
proof -
  let ?S = "stepwise_server S" and ?r = "stepwise_request req"
  obtain sched where t: "take (length cs) (taken (snd (handle_request ?S ?r ip (start_thread w sched)))) = cs"
    using assms(2) by (auto simp: run_of_def)
  let ?v = "start_thread w sched"
  have "moves (all_along (\<lambda>_ _. True)) (req_body ?r)"
    using moves_stepwise [OF all_along_steps, of "\<lambda>_ _. True"] by (simp add: moves_def)
  then obtain k where k: "route ?S ?r ip = bind_io (check_rate_limit ?S ip b 10 300) k"
    "\<And>x. moves (all_along (\<lambda>_ _. True)) (k x)"
    using handler_frame.limited_route [OF service_frame.handlers_framed [OF adds_steps], of ?r b S ip] assms(1)
    by (auto simp: limited_def)
  obtain r v1 where l: "check_rate_limit ?S ip b 10 300 ?v = (r, v1)" by (cases "check_rate_limit ?S ip b 10 300 ?v")
  from limiter_steps [OF this] obtain x a0 b0 es where
    i: "redis_incr (sv_redis (services S)) (rate_key b ip) 1 a0 = (x, b0)"
    and es: "extends ?v v1 ((a0, b0) # es)"
      "\<forall>(a, b') \<in> set es. \<exists>y. redis_expire (sv_redis (services S)) (rate_key b ip) 300 a = (y, b')"
    and r: "r = Ok () \<longrightarrow> (\<exists>c. x = Inr c \<and> c \<le> 10)" by blast
  have path: "req_path req \<noteq> ''/health''" "req_path req \<noteq> ''/metrics''"
    using assms(1) by (auto simp: limited_def)
  have last: "snd (handle_request ?S ?r ip ?v) = snd (bind_io (check_rate_limit ?S ip b 10 300) k ?v)"
    using path k(1) by (simp add: handle_request_def split: prod.split outcome.split)
  have own: "taken v1 = (a0, b0) # es" using es(1) by (simp add: extends_def start_thread_def)
  have "\<exists>ds. taken (snd (handle_request ?S ?r ip ?v)) = (a0, b0) # es @ ds \<and> (r \<noteq> Ok () \<longrightarrow> ds = [])"
  proof (cases r)
    case (Ok u)
    with l last have "snd (handle_request ?S ?r ip ?v) = snd (k u v1)" by (simp add: bind_io_def)
    moreover have "all_along (\<lambda>_ _. True) v1 (snd (k u v1))" using k(2) [of u] by (simp add: moves_def)
    ultimately show ?thesis using own Ok by (auto simp: all_along_any extends_def)
  qed (use l last own in \<open>simp_all add: bind_io_def\<close>)
  then obtain ds where ds: "taken (snd (handle_request ?S ?r ip ?v)) = (a0, b0) # es @ ds" "r \<noteq> Ok () \<longrightarrow> ds = []"
    by blast
  have limiter: "Q a0 b0" "\<forall>(a, b') \<in> set es. Q a b'"
    using withinD [OF assms(3) i] es(2) withinD [OF assms(4)] by blast+
  have "(a, a') \<in> set ((a0, b0) # es @ ds)" using t ds(1) assms(5) by (metis in_set_takeD)
  with limiter assms(6) have "ds \<noteq> []" by auto
  with ds(2) r obtain c where "x = Inr c" "c \<le> 10" by blast
  moreover have "\<exists>ds. cs = (a0, b0) # ds"
    using t ds(1) assms(5) by (cases cs) auto
  ultimately show ?thesis using i by blast
qed

section \<open>Simultaneous attempts\<close>

lemma along_trace:
  assumes "connected E w tr" "\<And>a b. E a b \<Longrightarrow> R a b" "reflp R" "transp R" "\<forall>(i, a, b) \<in> set tr. R a b"
  shows "R w (last_world w tr)"
  using assms(1,5)
proof (induction tr arbitrary: w)
  case Nil
  then show ?case using assms(3) by (simp add: reflpD)
next
  case (Cons s tr)
  obtain i a b where s: "s = (i, a, b)" by (cases s)
  have "R w a" "R a b" "R b (last_world b tr)"
    using Cons assms(2) [of w a] unfolding s by auto
  then show ?case using assms(4) unfolding s by (auto dest: transpD)
qed

lemma between:
  assumes "connected E w (p @ (i, a, b) # q)" "\<forall>a b. E a b \<longrightarrow> R a b" "reflp R" "transp R"
    and "\<forall>(i, a, b) \<in> set (p @ (i, a, b) # q). R a b"
  shows "R w a" "q = q1 @ (j, c, d) # q2 \<Longrightarrow> R b c" "R b (last_world b q)"
proof -
  have "R w (last_world w p)" "R (last_world w p) a"
    using along_trace [of E w p R] assms by simp_all
  then show "R w a" using assms(4) by (rule transpD [rotated])
  show "R b (last_world b q)"
    using along_trace [of E b q R] assms by simp
  assume q: "q = q1 @ (j, c, d) # q2"
  then have "R b (last_world b q1)" "R (last_world b q1) c"
    using along_trace [of E b q1 R] assms by simp_all
  then show "R b c" using assms(4) by (rule transpD [rotated])
qed

context counted_server begin

lemma counts_at_once:
  assumes "moves (still ctr tm) (req_body (fst (reqs i)))"
  shows "moves (all_along (counts_on ctr tm t0 k)) (at_once S reqs i)"
proof -
  note frame = service_frame_stepwise [OF counts_service all_along_preorder all_along_steps]
  have body: "moves (counts_on ctr tm t0 k) (req_body (fst (reqs i)))"
    using assms by (rule moves_weaken) (rule still_counts_on)
  have "moves (all_along (counts_on ctr tm t0 k)) (forward_upstream (stepwise_server S) (stepwise_request (fst (reqs i))))"
    by (rule forward_stepwise [OF service_frame.service_calls [OF counts_service] all_along_preorder all_along_steps body])
      (auto intro: moves_weaken [OF send_still still_counts_on] moves_weaken [OF body_still still_counts_on])
  then show ?thesis
    unfolding at_once_def
    using moves_stepwise [OF all_along_steps body]
    by (intro handler_frame.inside_request [OF service_frame.handlers_framed [OF frame]]) simp_all
qed

lemma counts_steps:
  assumes "interleaving (at_once S reqs) E w tr" "\<And>i. moves (still ctr tm) (req_body (fst (reqs i)))"
  shows "\<forall>(i, a, b) \<in> set tr. counts_on ctr tm t0 k a b"
proof clarify
  fix i a b
  assume "(i, a, b) \<in> set tr"
  then have mem: "(a, b) \<in> set (steps_of i tr)" by (simp add: steps_of_mem)
  obtain sched where t: "take (length (steps_of i tr)) (taken (snd (at_once S reqs i (start_thread w sched)))) = steps_of i tr"
    using assms(1) by (auto simp: interleaving_def run_of_def)
  have "all_along (counts_on ctr tm t0 k) (start_thread w sched) (snd (at_once S reqs i (start_thread w sched)))"
    using counts_at_once [of reqs i, OF assms(2)] by (simp add: moves_def)
  then have "\<forall>(a, b) \<in> set (taken (snd (at_once S reqs i (start_thread w sched)))). counts_on ctr tm t0 k a b"
    by (auto simp: all_along_def extends_def start_thread_def)
  with t mem show "counts_on ctr tm t0 k a b" by (metis (no_types, lifting) case_prodD in_set_takeD)
qed

text \<open>The value an attempt gets is between 1 and what the counter has got to; a later attempt gets a larger one.\<close>

lemma attempt_value:
  assumes "interleaving (at_once S reqs) (still ctr tm) w tr" "\<And>i. moves (still ctr tm) (req_body (fst (reqs i)))"
    and "\<forall>t \<ge> tm w. counter_at (ctr w) t (rate_key b ip) = None" "tm (last_world w tr) < window_ends (tm w)"
    and "tr = p @ (i, a, a') # q" "redis_incr (sv_redis (services S)) (rate_key b ip) 1 a = (Inr c, a')"
  shows "1 \<le> c \<and> (q = q1 @ (j, d, d') # q2
    \<longrightarrow> redis_incr (sv_redis (services S)) (rate_key b ip) 1 d = (Inr c', d') \<longrightarrow> c < c')"
proof -
  let ?k = "rate_key b ip" and ?t = "tm w"
  let ?R = "counts_on ctr tm ?t ?k"
  have con: "connected (still ctr tm) w tr" using assms(1) by (simp add: interleaving_def)
  have "\<forall>a b. still ctr tm a b \<longrightarrow> ?R a b" by (simp add: still_counts_on)
  note pre = this counts_on_preorder counts_steps [of reqs _ w tr, OF assms(1,2)]
  note bet = between [OF con [unfolded assms(5)] pre [unfolded assms(5)]]
  have start: "in_window ctr tm ?t ?k w" "counted ctr ?t ?k w = 0"
    using assms(3) [rule_format, OF order_refl] by (auto simp: in_window_def counted_def counter_at_def split: if_splits)
  have first: "?R w a" by (rule bet(1))
  have own: "?R a a'" using counts_steps [of reqs _ w tr, OF assms(1,2)] assms(5) by auto
  have fin: "?R a' (last_world a' q)" "last_world w tr = last_world a' q"
    using bet(3) assms(5) by (simp_all add: last_world_append)
  have a: "in_window ctr tm ?t ?k a" "in_window ctr tm ?t ?k a'" "tm a \<le> tm a'" "tm a' < window_ends ?t"
    "0 \<le> counted ctr ?t ?k a"
    using first own fin start assms(4) by (auto simp: counts_on_def)
  from incr_in_window [OF assms(6) a(1,4)] have c: "c = counted ctr ?t ?k a + 1" "counted ctr ?t ?k a' = c" by auto
  have "c < c'" if q: "q = q1 @ (j, d, d') # q2"
    and i': "redis_incr (sv_redis (services S)) ?k 1 d = (Inr c', d')"
  proof -
    have tr: "tr = (p @ (i, a, a') # q1) @ (j, d, d') # q2" using assms(5) q by simp
    note bet' = between [OF con [unfolded tr] pre [unfolded tr]]
    have d: "?R a' d" "?R d d'" "?R d' (last_world w tr)"
      using bet(2) [OF q] bet'(3) pre(4) tr by (auto simp: last_world_append)
    then have "in_window ctr tm ?t ?k d" "tm d' < window_ends ?t" "counted ctr ?t ?k a' \<le> counted ctr ?t ?k d"
      using a(2) assms(4) by (auto simp: counts_on_def)
    with incr_in_window [OF i'] c(2) show ?thesis by simp
  qed
  with c a(5) show ?thesis by simp
qed

lemma attempts_let_through:
  assumes "interleaving (at_once S reqs) (still ctr tm) w tr" "\<And>i. moves (still ctr tm) (req_body (fst (reqs i)))"
    and "\<forall>t \<ge> tm w. counter_at (ctr w) t (rate_key b ip) = None" "tm (last_world w tr) < window_ends (tm w)"
    and "moves Q (redis_incr (sv_redis (services S)) (rate_key b ip) 1)"
    and "moves Q (redis_expire (sv_redis (services S)) (rate_key b ip) 300)"
  shows "card {i. limited (fst (reqs i)) b \<and> snd (reqs i) = ip \<and> (\<exists>a a'. (i, a, a') \<in> set tr \<and> \<not> Q a a')} \<le> 10"
proof -
  define A where "A = {i. limited (fst (reqs i)) b \<and> snd (reqs i) = ip \<and> (\<exists>a a'. (i, a, a') \<in> set tr \<and> \<not> Q a a')}"
  have "\<exists>c a a'. (i, a, a') \<in> set tr \<and> c \<le> 10
      \<and> redis_incr (sv_redis (services S)) (rate_key b ip) 1 a = (Inr c, a')" if i: "i \<in> A" for i
  proof -
    have l: "limited (fst (reqs i)) b" "snd (reqs i) = ip" using i by (simp_all add: A_def)
    obtain a a' where "(i, a, a') \<in> set tr" and out: "\<not> Q a a'" using i by (auto simp: A_def)
    then have mem: "(a, a') \<in> set (steps_of i tr)" by (simp add: steps_of_mem)
    have run: "run_of (handle_request (stepwise_server S) (stepwise_request (fst (reqs i))) ip) w (steps_of i tr)"
      using assms(1) l(2) by (auto simp: interleaving_def at_once_def)
    from passed_limiter [OF l(1) this assms(5,6) mem out] obtain c a0 b0 ds where c: "steps_of i tr = (a0, b0) # ds"
      "c \<le> 10" "redis_incr (sv_redis (services S)) (rate_key b ip) 1 a0 = (Inr c, b0)" by blast
    have "(i, a0, b0) \<in> set tr" using c(1) by (simp add: steps_of_mem [symmetric])
    with c(2,3) show ?thesis by blast
  qed
  then obtain c a a' where val: "\<And>i. i \<in> A \<Longrightarrow> (i, a i, a' i) \<in> set tr \<and> c i \<le> (10 :: int)
      \<and> redis_incr (sv_redis (services S)) (rate_key b ip) 1 (a i) = (Inr (c i), a' i)" by metis
  note v = attempt_value [of reqs w tr b ip, OF assms(1,2,3,4)]
  have pos: "1 \<le> c i" if "i \<in> A" for i
    using v val [OF that] split_list by metis
  have "c i \<noteq> c j" if i: "i \<in> A" and j: "j \<in> A" and ne: "i \<noteq> j" for i j
  proof -
    obtain p q where tr: "tr = p @ (i, a i, a' i) # q" using val [OF i] split_list by metis
    then have "(j, a j, a' j) \<in> set p \<or> (j, a j, a' j) \<in> set q" using val [OF j] ne by auto
    then show ?thesis
    proof
      assume "(j, a j, a' j) \<in> set q"
      then obtain q1 q2 where "q = q1 @ (j, a j, a' j) # q2" by (metis split_list)
      with v [OF tr] val [OF i] val [OF j] show ?thesis by fastforce
    next
      assume "(j, a j, a' j) \<in> set p"
      then obtain p1 p2 where "p = p1 @ (j, a j, a' j) # p2" by (metis split_list)
      then have "tr = p1 @ (j, a j, a' j) # (p2 @ (i, a i, a' i) # q)" using tr by simp
      with v [OF this] val [OF i] val [OF j] show ?thesis by fastforce
    qed
  qed
  then have "inj_on c A" by (auto simp: inj_on_def)
  moreover have "c ` A \<subseteq> {1..10}" using pos val by auto
  ultimately show ?thesis using card_inj_on_le [of c A "{1..10}"] by (simp add: A_def)
qed

end

lemma ref_still: "other_frame (ref_server c) (still ref_counters clock)"
proof -
  have user: "snd (ref_select_user q vs w) = w" for q vs w
    by (auto simp: ref_select_user_def Let_def split: list.splits sql_value.splits)
  have exec: "counts (snd (ref_execute q vs w)) = counts w \<and> clock (snd (ref_execute q vs w)) = clock w" for q vs w
    by (auto simp: ref_execute_def Let_def split: list.splits sql_value.splits)
  show ?thesis
    by unfold_locales
      (auto simp: still_def ref_counters_def reflp_def transp_def moves_def ref_server_def new_proxy_server_def
        ref_services_def ref_platform_def ref_jwt_def ref_argon2_def ref_totp_def ref_postgres_def ref_insert_user_def
        Let_def user exec split: option.splits list.splits sql_value.splits)
qed

interpretation ref_counted: counted_server "ref_server c" ref_counters clock for c
proof -
  have "sv_redis (services (ref_server c)) = ref_redis" "sv_http (services (ref_server c)) = ref_http"
    by (simp_all add: ref_server_def new_proxy_server_def ref_services_def)
  then show "counted_server (ref_server c) ref_counters clock"
    using ref_still [of c] ref_ctr.redis_counter_axioms ref_counters_answer
    by (intro counted_server.intro counted_server_axioms.intro)
      (auto simp: still_def ref_counters_def moves_def ref_redis_def ref_http_def)
qed



end
