(* ===== verification/Spec2Isabelle.thy ===== *)
theory Spec2Isabelle
  imports Config Passkey_Claims Session_Claims Rate_Claims Gate_Claims Request_Risk Device_Interleaving Logout
    Mfa_Claims Account_Claims Lifetime Audit_Trail Server_Claims Passkey_Tests Concurrent_Claims Rate_Interleaving
begin

text \<open>
  A verification library for the zero-trust proxy (\<^verbatim>\<open>src/src\<close>, a Rust program): an HTTP proxy that
  forwards a request to its upstream only after checking the token, the session, the policies and the
  risk of the request, and that serves the \<^verbatim>\<open>/auth\<close> endpoints through which users get tokens.

  \<^bold>\<open>The parts and how they interact.\<close>
  \<^verbatim>\<open>main\<close> loads the configuration, connects to Postgres and Redis, builds a \<^verbatim>\<open>ProxyServer\<close> and
  serves connections. Each request goes through \<open>handle_request\<close>: \<^verbatim>\<open>/health\<close> and
  \<^verbatim>\<open>/metrics\<close> answer at once, six \<^verbatim>\<open>/auth\<close> paths go to their handlers, everything else
  through the gate \<open>authorize\<close> to \<open>forward_upstream\<close>. The gate calls the token manager, the session manager
  (sessions are JSON texts in Redis), the policy engine, the risk engine (on a device fingerprint made
  from the request) and the audit log (rows in Postgres). A login reads the user and the device from
  Postgres, verifies the password and the TOTP code, stores the device's trust, scores the risk, creates
  a session and issues a token. Passkey stores and ceremonies are a component of their own, which no
  route reaches yet.

  \<^bold>\<open>How the program is modelled.\<close>
  Strings are byte lists, \<^verbatim>\<open>u16\<close>, \<^verbatim>\<open>u32\<close> and \<^verbatim>\<open>u64\<close> are words, \<^verbatim>\<open>i64\<close>
  arithmetic that may wrap is written with \<open>wrap_i64\<close>, \<^verbatim>\<open>f64\<close> comparison is exact on the doubles
  (Float64). A fallible function returns an \<open>outcome\<close>: \<open>Ok\<close>, \<open>Err\<close> with the source's error, or \<open>Panic\<close>. A
  function that does input or output is a function from a world to an outcome and a world (Effects);
  \<^verbatim>\<open>?\<close> is \<open>bind_io\<close>, \<^verbatim>\<open>.await.ok()\<close> is \<open>discard\<close>. The world is a type variable: what Redis,
  Postgres, the clock, the random source, \<^verbatim>\<open>jsonwebtoken\<close>, \<^verbatim>\<open>argon2\<close>, \<^verbatim>\<open>totp-rs\<close>,
  \<^verbatim>\<open>webauthn-rs\<close>, \<^verbatim>\<open>serde_json\<close>, \<^verbatim>\<open>hyper\<close>, \<^verbatim>\<open>rustls\<close> and \<^verbatim>\<open>tokio\<close> do
  are records of functions on it, arguments of the definitions. What a proof relies on of them is a
  locale; every one is interpreted on the reference services (Reference): one world with a clock, a
  Redis with deadlines, tables, a log of forwarded requests, and codecs that round-trip. The witnesses
  of the properties are runs of the proxy in it (Scenario and the ends of the claims theories).

  \<^bold>\<open>How concurrency is modelled.\<close>
  The server handles each connection in a task of its own, and a task yields at every \<^verbatim>\<open>.await\<close>. A
  request of the interleaved model is a thread over the same \<open>handle_request\<close>: its server is
  \<open>stepwise_server S\<close>, the server of the same configuration whose services are called one step at a time,
  each at the world that a schedule presents (Interleaving). An \<open>interleaving\<close> is a sequence of such steps,
  of any number of threads, in which each thread's own steps begin a run of it; every single call to
  Redis, Postgres, the clock or the upstream is atomic, and nothing else is. Simulation shows that the proxy treats
  its world parametrically (related services give related runs), from which Interleaved_Runs has that a thread alone
  is the sequential request and that every sequential run is an interleaving.

  \<^bold>\<open>Theories and sources.\<close>
  \<^item> Prelude, Effects, Errors (\<^verbatim>\<open>error.rs\<close>), Platform (time, UUIDs, SHA-256, address parsing), Json: what the components share.
  \<^item> Config: \<^verbatim>\<open>config.rs\<close>. Device: \<^verbatim>\<open>auth/device.rs\<close>. Risk: \<^verbatim>\<open>risk/mod.rs\<close>. Policy, Float64: \<^verbatim>\<open>policy/mod.rs\<close>.
  \<^item> Redis, Session, Session_Store: \<^verbatim>\<open>auth/session.rs\<close>, over the laws of a key-value store with deadlines and of counters.
  \<^item> Auth: \<^verbatim>\<open>auth/mod.rs\<close>. Mfa: \<^verbatim>\<open>auth/mfa.rs\<close>. Passkeys, Passkey_Store: \<^verbatim>\<open>auth/webauthn.rs\<close> and \<^verbatim>\<open>auth/passkey_store_pg.rs\<close>.
  \<^item> Db: \<^verbatim>\<open>db/mod.rs\<close>, each statement with its text and bound values. Audit_Log: \<^verbatim>\<open>audit/mod.rs\<close>.
  \<^item> Http, Proxy, Handlers: \<^verbatim>\<open>proxy/mod.rs\<close>, responses, gate and forwarding, the handlers and the routing. Server: its listener, TLS set-up and connections, and \<^verbatim>\<open>main.rs\<close>.

  \<^bold>\<open>Interfaces.\<close>
  \<open>session_store\<close> is what the handlers rely on of the session manager (created sessions are stored, getting
  one only stamps it, a deleted one is gone), provided by the manager over \<open>session_services\<close>;
  \<open>redis_kv\<close> and \<open>redis_counter\<close> are the laws of the Redis commands; \<open>user_table\<close> and \<open>device_table\<close> are
  provided by the statements over \<open>user_sql\<close> and \<open>device_sql\<close>; \<open>passkey_store\<close> is the source's trait,
  provided by both of its implementations; \<open>token_issuer\<close> is provided by the token manager over
  \<open>jwt_services\<close>. Frame has the handlers' frame rules: \<open>call_frame\<close> and its extensions turn laws of the single
  calls into a law of \<open>handle_request\<close>, for any preorder on worlds; the locales named \<open>_base\<close> do so for the
  operations that write no device row. \<open>rely_guarantee\<close> has the rules by which a
  thread keeps its guarantee, and \<open>session_invariant\<close> what a property of the stored sessions needs for them.

  \<^bold>\<open>What the lemmas show.\<close>
  \<^item> The gate: exactly which requests it admits (Gate); nothing but an admitted request is sent upstream, unchanged except for the host, and every request is answered (Gate_Claims); what it writes to the audit log on each way out (Audit_Trail).
  \<^item> Sessions: what each operation does to the stored sessions, when the operations succeed and when they fail (Session_Store, Session_Claims); and over whole runs of the server (\<open>served\<close>: any requests, one after the other): the store stays well formed and no session outlives its configured minutes (Lifetime), a session logged out admits nobody again (Logout), and its MFA flag is raised only by an accepted code (Mfa_Claims).
  \<^item> The same for requests handled at the same time: well-formed sessions at every moment, the gate, the MFA flag and the end of a session after logout (Concurrent_Claims, from what each thread guarantees and relies on: Interleaving, Session_Interleaving); and the one thing that is lost, a logout against a request in flight (Logout_Race).
  \<^item> Accounts: what a successful login went through (Login_Claims), that refused ones are answered alike, what registration, enrolment and tokens do (Account_Claims), and what a wrong password does to the devices (Device_Rows).
  \<^item> Devices: a login makes at most one step of a small state machine on the device table and nothing else touches it (Device_Trust), and trust stays in its range when requests interleave (Device_Interleaving).
  \<^item> Risk and policies: the score is the capped sum of its factors and monotone, the decision is the declarative deny-overrides reading of the policies and independent of their order (Risk, Policy); the score of a request and of a login (Request_Risk).
  \<^item> Rate limits: at most the limit in a window, and the lock-out when the deadline is lost (Rate_Claims); the limit holds of simultaneous attempts too (Rate_Interleaving).
  \<^item> The server: nothing is accepted before the start-up is done, TLS is all or nothing, only a failed accept ends the loop, and each connection is a run of the server (Server_Claims).
  \<^item> The passkey stores agree on saving, getting and deleting, and differ on a duplicate (Passkey_Store); an authentication is started with the user's stored passkeys, its refresh replaces exactly the record it is called with, and does not bring a deleted one back (Passkey_Claims).
  \<^item> The repository's unit tests, translated one by one, hold of the model (Unit_Tests; those on passkeys in Passkey_Tests, over a library that does what \<^verbatim>\<open>webauthn-rs\<close> documents).

  \<^bold>\<open>Bounds.\<close>
  Every loop of the source is structural recursion over the data it walks (policies, keys, rows,
  characters), except the accept loop, which the source never leaves but by an error: \<open>accept_loop n\<close>
  is that loop up to its \<open>n\<close>-th connection, and its properties hold for every \<open>n\<close>. No other definition has
  fuel. Durations that leave the range of \<^verbatim>\<open>chrono\<close> are panics, as in the source.

  \<^bold>\<open>What is not modelled, and the limits of what is.\<close>
  \<^item> The runs of \<open>served\<close> are sequential; what is shown of interleavings is said above. The audit trail, the risk score and the account properties are of one request run without interruption. Commands that fail half-way inside a service, and parallel writes of Redis by other programs to session keys, are outside the laws.
  \<^item> Time is an instant read by a call; how long an operation takes, and so any timing side channel, is not modelled.
  \<^item> \<^verbatim>\<open>tracing\<close> output, \<^verbatim>\<open>docs/schema.sql\<close> and the migrations (their constraints are laws of the SQL locales), build and deployment files.
  \<^item> The cryptography of the libraries: their documented behaviour is a law, or nothing is assumed of it.
\<close>

end
